theory Spec2Isabelle
  imports Main
begin

section \<open>Common identifiers\<close>

text \<open>
  \<open>page_id_t\<close>, \<open>frame_id_t\<close> and \<open>txn_id_t\<close> are 32-bit signed integers in the
  sources. No operation modelled here does arithmetic on them beyond \<open>+ 1\<close> on
  counters, so they are mathematical integers. \<open>INVALID_PAGE_ID\<close> is \<open>-1\<close> and the header
  page is page \<open>0\<close>.
\<close>

type_synonym page_id_t = int
type_synonym frame_id_t = int
type_synonym txn_id_t = int

definition INVALID_PAGE_ID :: page_id_t where
  "INVALID_PAGE_ID = -1"

definition HEADER_PAGE_ID :: page_id_t where
  "HEADER_PAGE_ID = 0"

section \<open>Disk manager\<close>

text \<open>
  Modelled from the spec: the disk manager (its source file is not among the sources).
  It reads and writes whole pages by page id, hands out monotonically increasing page
  ids, and deallocation is bookkeeping only. The model also keeps the sequence of
  requests the disk manager has received, oldest first, so that the order of a write
  relative to the other requests can be stated.
\<close>

datatype 'd disk_event =
    EvWrite page_id_t 'd
  | EvRead page_id_t
  | EvAllocate page_id_t
  | EvDeallocate page_id_t

record 'd DiskManager =
  disk_pages :: "page_id_t \<Rightarrow> 'd"
  next_page_id :: page_id_t
  io_log :: "'d disk_event list"

definition WritePage :: "page_id_t \<Rightarrow> 'd \<Rightarrow> 'd DiskManager \<Rightarrow> 'd DiskManager" where
  "WritePage p d dm =
     dm\<lparr>disk_pages := (disk_pages dm)(p := d), io_log := io_log dm @ [EvWrite p d]\<rparr>"

definition ReadPage :: "page_id_t \<Rightarrow> 'd DiskManager \<Rightarrow> 'd \<times> 'd DiskManager" where
  "ReadPage p dm = (disk_pages dm p, dm\<lparr>io_log := io_log dm @ [EvRead p]\<rparr>)"

definition AllocatePage :: "'d DiskManager \<Rightarrow> page_id_t \<times> 'd DiskManager" where
  "AllocatePage dm =
     (next_page_id dm,
      dm\<lparr>next_page_id := next_page_id dm + 1, io_log := io_log dm @ [EvAllocate (next_page_id dm)]\<rparr>)"

definition DeallocatePage :: "page_id_t \<Rightarrow> 'd DiskManager \<Rightarrow> 'd DiskManager" where
  "DeallocatePage p dm = dm\<lparr>io_log := io_log dm @ [EvDeallocate p]\<rparr>"

section \<open>LRU replacer (lru_replacer.h, lru_replacer.cpp)\<close>

text \<open>
  \<open>lru_list\<close> holds the evictable frames, most recently unpinned first. The member \<open>map_\<close>
  of the class maps each frame of \<open>lru_list\<close> to its list iterator; it has exactly the
  frames of \<open>lru_list\<close> as keys, so \<open>map_.count(f)\<close> is membership in \<open>lru_list\<close> and erasing
  through the stored iterator removes the one entry of \<open>f\<close>.
\<close>

record LRUReplacer =
  num_pages :: nat
  lru_list :: "frame_id_t list"

definition LRUReplacer_new :: "nat \<Rightarrow> LRUReplacer" where
  "LRUReplacer_new n = \<lparr>num_pages = n, lru_list = []\<rparr>"

definition Size :: "LRUReplacer \<Rightarrow> nat" where
  "Size r = length (lru_list r)"

text \<open>\<open>Victim\<close> returns the frame written through the out parameter, \<open>None\<close> for \<open>false\<close>.\<close>

definition Victim :: "LRUReplacer \<Rightarrow> frame_id_t option \<times> LRUReplacer" where
  "Victim r =
     (if Size r = 0 then (None, r)
      else (Some (last (lru_list r)), r\<lparr>lru_list := butlast (lru_list r)\<rparr>))"

definition Pin :: "frame_id_t \<Rightarrow> LRUReplacer \<Rightarrow> LRUReplacer" where
  "Pin frame_id r =
     (if frame_id \<notin> set (lru_list r) then r
      else r\<lparr>lru_list := remove1 frame_id (lru_list r)\<rparr>)"

definition Unpin :: "frame_id_t \<Rightarrow> LRUReplacer \<Rightarrow> LRUReplacer" where
  "Unpin frame_id r =
     (if Size r = num_pages r \<or> frame_id \<in> set (lru_list r) then r
      else r\<lparr>lru_list := frame_id # lru_list r\<rparr>)"

section \<open>Buffer pool manager (buffer_pool_manager.cpp)\<close>

text \<open>
  A frame is a \<open>Page\<close> object: its bytes and its metadata. The type of the bytes is a
  parameter \<open>'d\<close> with a zero, the content of a page whose memory has been reset.
  \<open>Page_update\<close> is the helper \<open>Page::update(page_id, pin_count, is_dirty, reset)\<close> the
  buffer pool calls; the fourth argument defaults to \<open>false\<close> in the calls that give
  three. Member names are written without their trailing underscore (\<open>pin_count\<close> for
  \<open>pin_count_\<close>), here and in the other sections.
\<close>

record 'd Page =
  data :: 'd
  page_id :: page_id_t
  pin_count :: int
  is_dirty :: bool

definition Page_new :: "'d::zero Page" where
  "Page_new = \<lparr>data = 0, page_id = INVALID_PAGE_ID, pin_count = 0, is_dirty = False\<rparr>"

definition Page_update :: "page_id_t \<Rightarrow> int \<Rightarrow> bool \<Rightarrow> bool \<Rightarrow> 'd::zero Page \<Rightarrow> 'd Page" where
  "Page_update pid pins dirty reset pg =
     pg\<lparr>data := (if reset then 0 else data pg),
        page_id := pid, pin_count := pins, is_dirty := dirty\<rparr>"

text \<open>
  \<open>pages\<close> is the array of frames, indexed by frame id; \<open>page_table\<close> maps the resident
  page ids to their frames. A returned \<open>Page *\<close> is the frame id it points to, \<open>None\<close> for
  \<open>nullptr\<close>.
\<close>

record 'd BufferPoolManager =
  pool_size :: nat
  pages :: "frame_id_t \<Rightarrow> 'd Page"
  page_table :: "page_id_t \<rightharpoonup> frame_id_t"
  free_list :: "frame_id_t list"
  replacer :: LRUReplacer
  disk_manager :: "'d DiskManager"

definition BufferPoolManager_new :: "nat \<Rightarrow> 'd DiskManager \<Rightarrow> 'd::zero BufferPoolManager" where
  "BufferPoolManager_new n dm =
     \<lparr>pool_size = n,
      pages = (\<lambda>_. Page_new),
      page_table = Map.empty,
      free_list = map int [0..<n],
      replacer = LRUReplacer_new n,
      disk_manager = dm\<rparr>"

definition GetVictimFrameId :: "'d BufferPoolManager \<Rightarrow> frame_id_t \<times> 'd BufferPoolManager" where
  "GetVictimFrameId bpm =
     (case free_list bpm of
        frame_id # rest \<Rightarrow> (frame_id, bpm\<lparr>free_list := rest\<rparr>)
      | [] \<Rightarrow>
          (case Victim (replacer bpm) of
             (None, r) \<Rightarrow> (INVALID_PAGE_ID, bpm\<lparr>replacer := r\<rparr>)
           | (Some frame_id, r) \<Rightarrow> (frame_id, bpm\<lparr>replacer := r\<rparr>)))"

definition FetchPageImpl ::
  "page_id_t \<Rightarrow> 'd::zero BufferPoolManager \<Rightarrow> frame_id_t option \<times> 'd BufferPoolManager" where
  "FetchPageImpl pid bpm =
     (case page_table bpm pid of
        Some frame_id \<Rightarrow>
          (let page = pages bpm frame_id in
           (Some frame_id,
            bpm\<lparr>replacer := Pin frame_id (replacer bpm),
                pages := (pages bpm)(frame_id := page\<lparr>pin_count := pin_count page + 1\<rparr>)\<rparr>))
      | None \<Rightarrow>
          (case GetVictimFrameId bpm of (frame_id, bpm1) \<Rightarrow>
             if frame_id = INVALID_PAGE_ID then (None, bpm1)
             else
               (let page = pages bpm1 frame_id;
                    dm1 = (if is_dirty page
                           then WritePage (page_id page) (data page) (disk_manager bpm1)
                           else disk_manager bpm1);
                    pt = ((page_table bpm1)(page_id page := None))(pid \<mapsto> frame_id)
                in case ReadPage pid dm1 of (d, dm2) \<Rightarrow>
                   (Some frame_id,
                    bpm1\<lparr>pages := (pages bpm1)
                            (frame_id := Page_update pid 1 False False (page\<lparr>data := d\<rparr>)),
                         page_table := pt,
                         replacer := Pin frame_id (replacer bpm1),
                         disk_manager := dm2\<rparr>))))"

definition UnpinPageImpl ::
  "page_id_t \<Rightarrow> bool \<Rightarrow> 'd BufferPoolManager \<Rightarrow> bool \<times> 'd BufferPoolManager" where
  "UnpinPageImpl pid dirty bpm =
     (case page_table bpm pid of
        None \<Rightarrow> (False, bpm)
      | Some frame_id \<Rightarrow>
          (let page = pages bpm frame_id in
           if pin_count page \<le> 0 then (False, bpm)
           else
             (let page1 = page\<lparr>is_dirty := (is_dirty page \<or> dirty)\<rparr>;
                  page2 = page1\<lparr>pin_count := pin_count page1 - 1\<rparr>;
                  bpm1 = bpm\<lparr>pages := (pages bpm)(frame_id := page2)\<rparr>
              in if pin_count page2 = 0
                 then (True, bpm1\<lparr>replacer := Unpin frame_id (replacer bpm1)\<rparr>)
                 else (True, bpm1))))"

definition FlushPageImpl :: "page_id_t \<Rightarrow> 'd BufferPoolManager \<Rightarrow> bool \<times> 'd BufferPoolManager" where
  "FlushPageImpl pid bpm =
     (case page_table bpm pid of
        None \<Rightarrow> (False, bpm)
      | Some frame_id \<Rightarrow>
          (let page = pages bpm frame_id in
           (True,
            bpm\<lparr>disk_manager := WritePage pid (data page) (disk_manager bpm),
                pages := (pages bpm)(frame_id := page\<lparr>is_dirty := False\<rparr>)\<rparr>)))"

text \<open>\<open>NewPageImpl\<close> returns the frame together with the page id written to \<open>*page_id\<close>.\<close>

definition NewPageImpl ::
  "'d::zero BufferPoolManager \<Rightarrow> (frame_id_t \<times> page_id_t) option \<times> 'd BufferPoolManager" where
  "NewPageImpl bpm =
     (case GetVictimFrameId bpm of (frame_id, bpm1) \<Rightarrow>
        if frame_id = INVALID_PAGE_ID then (None, bpm1)
        else
          (let page = pages bpm1 frame_id;
               dm1 = (if is_dirty page
                      then WritePage (page_id page) (data page) (disk_manager bpm1)
                      else disk_manager bpm1)
           in case AllocatePage dm1 of (pid, dm2) \<Rightarrow>
              (let pt = ((page_table bpm1)(page_id page := None))(pid \<mapsto> frame_id)
               in (Some (frame_id, pid),
                   bpm1\<lparr>pages := (pages bpm1)(frame_id := Page_update pid 1 False True page),
                        page_table := pt,
                        replacer := Pin frame_id (replacer bpm1),
                        disk_manager := dm2\<rparr>))))"

definition DeletePageImpl ::
  "page_id_t \<Rightarrow> 'd::zero BufferPoolManager \<Rightarrow> bool \<times> 'd BufferPoolManager" where
  "DeletePageImpl pid bpm =
     (case page_table bpm pid of
        None \<Rightarrow> (True, bpm)
      | Some frame_id \<Rightarrow>
          (let page = pages bpm frame_id in
           if pin_count page > 0 then (False, bpm)
           else
             (True,
              bpm\<lparr>disk_manager := DeallocatePage pid (disk_manager bpm),
                  page_table := (page_table bpm)(page_id page := None),
                  free_list := free_list bpm @ [frame_id],
                  pages := (pages bpm)
                    (frame_id := Page_update INVALID_PAGE_ID 0 False False page)\<rparr>)))"

text \<open>
  The caller of \<open>FetchPage\<close> or \<open>NewPage\<close> holds a pointer into the frame and writes the
  page's bytes through it; \<open>write_frame\<close> is that store.
\<close>

definition write_frame :: "frame_id_t \<Rightarrow> 'd \<Rightarrow> 'd BufferPoolManager \<Rightarrow> 'd BufferPoolManager" where
  "write_frame frame_id d bpm =
     bpm\<lparr>pages := (pages bpm)(frame_id := (pages bpm frame_id)\<lparr>data := d\<rparr>)\<rparr>"

subsection \<open>Well-formed pools and example pools\<close>

text \<open>
  \<open>bpm_inv\<close> collects what the constructor establishes and every operation keeps: the
  replacer's capacity is the pool size, its list has no duplicates, every frame id in the
  replacer, in the free list and in the page table is an index of \<open>pages\<close>, and resident
  frames have a non-negative pin count.
\<close>

definition frame_ok :: "'d BufferPoolManager \<Rightarrow> frame_id_t \<Rightarrow> bool" where
  "frame_ok bpm f = (0 \<le> f \<and> f < int (pool_size bpm))"

definition bpm_inv :: "'d BufferPoolManager \<Rightarrow> bool" where
  "bpm_inv bpm =
     (num_pages (replacer bpm) = pool_size bpm \<and>
      distinct (lru_list (replacer bpm)) \<and>
      list_all (frame_ok bpm) (lru_list (replacer bpm)) \<and>
      list_all (frame_ok bpm) (free_list bpm) \<and>
      (\<forall>pid f. page_table bpm pid = Some f \<longrightarrow> frame_ok bpm f \<and> 0 \<le> pin_count (pages bpm f)))"

text \<open>
  Example: a pool of one frame over an empty disk. \<open>NewPage\<close> gives page 0 in frame 0,
  the caller writes the bytes \<open>7\<close> into it (\<open>bpm_ex_pinned\<close>) and unpins it as dirty
  (\<open>bpm_ex\<close>).
\<close>

definition disk_ex :: "nat DiskManager" where
  "disk_ex = \<lparr>disk_pages = (\<lambda>_. 0), next_page_id = 0, io_log = []\<rparr>"

definition bpm_ex_pinned :: "nat BufferPoolManager" where
  "bpm_ex_pinned = write_frame 0 7 (snd (NewPageImpl (BufferPoolManager_new 1 disk_ex)))"

definition bpm_ex :: "nat BufferPoolManager" where
  "bpm_ex = snd (UnpinPageImpl 0 True bpm_ex_pinned)"

section \<open>Transactions\<close>

text \<open>
  Modelled from the spec: the transaction object (its class is not among the sources).
  Of its members the lock manager and the executors read and write the state, the
  isolation level and the two lock sets. The lock sets are unordered sets of record
  ids; they are lists without duplicates here, in the order a traversal visits them.
  \<open>IsSharedLocked\<close>, \<open>IsExclusiveLocked\<close> and \<open>IsAborted\<close> are the membership and state
  tests their names say.
\<close>

type_synonym RID = "page_id_t \<times> nat"

datatype TransactionState = GROWING | SHRINKING | COMMITTED | ABORTED

datatype IsolationLevel = READ_UNCOMMITTED | REPEATABLE_READ | READ_COMMITTED

record Transaction =
  state :: TransactionState
  isolation_level :: IsolationLevel
  shared_lock_set :: "RID list"
  exclusive_lock_set :: "RID list"

definition IsSharedLocked :: "Transaction \<Rightarrow> RID \<Rightarrow> bool" where
  "IsSharedLocked txn rid = (rid \<in> set (shared_lock_set txn))"

definition IsExclusiveLocked :: "Transaction \<Rightarrow> RID \<Rightarrow> bool" where
  "IsExclusiveLocked txn rid = (rid \<in> set (exclusive_lock_set txn))"

definition IsAborted :: "Transaction \<Rightarrow> bool" where
  "IsAborted txn = (state txn = ABORTED)"

definition emplace :: "'a \<Rightarrow> 'a list \<Rightarrow> 'a list" where
  "emplace x xs = (if x \<in> set xs then xs else xs @ [x])"

definition erase :: "'a \<Rightarrow> 'a list \<Rightarrow> 'a list" where
  "erase x xs = removeAll x xs"

section \<open>Lock manager (lock_manager.cpp)\<close>

datatype LockMode = SHARED | EXCLUSIVE

datatype AbortReason =
  LOCK_ON_SHRINKING | UPGRADE_CONFLICT | DEADLOCK | LOCKSHARED_ON_READ_UNCOMMITTED

record LockRequest =
  txn_id :: txn_id_t
  lock_mode :: LockMode
  granted :: bool

record LockRequestQueue =
  request_queue :: "LockRequest list"
  reader_count :: int
  writer_enter :: bool
  upgrading :: bool

definition LockRequestQueue_new :: LockRequestQueue where
  "LockRequestQueue_new =
     \<lparr>request_queue = [], reader_count = 0, writer_enter = False, upgrading = False\<rparr>"

text \<open>
  The state the lock manager works on: its own members and the transaction table
  \<open>txn_map\<close> (through which \<open>AbortTransaction\<close> finds a transaction by id, and which
  stands for the \<open>Transaction *\<close> arguments: a transaction is named by its id).
  \<open>lock_table\<close> is an unordered map; it is an association list in the order in which
  \<open>RunCycleDetection\<close> traverses it. \<open>txns\<close> and \<open>on_stack_txns\<close> are ordered sets
  (\<open>rbegin\<close> is the largest element): ascending lists without duplicates.
  \<open>waits_for\<close> maps a transaction to its neighbour vector, empty when it has no entry.
\<close>

record LockManager =
  lock_table :: "(RID \<times> LockRequestQueue) list"
  txn_map :: "txn_id_t \<Rightarrow> Transaction"
  waits_for :: "txn_id_t \<Rightarrow> txn_id_t list"
  txns :: "txn_id_t list"
  on_stack_txns :: "txn_id_t list"
  has_cycle :: bool
  wait_rids :: "txn_id_t \<rightharpoonup> RID"

text \<open>\<open>lock_table_[rid]\<close>: the queue of \<open>rid\<close>, a new empty one when there is none.\<close>

definition lt_get :: "(RID \<times> LockRequestQueue) list \<Rightarrow> RID \<Rightarrow> LockRequestQueue" where
  "lt_get t rid = (case map_of t rid of None \<Rightarrow> LockRequestQueue_new | Some q \<Rightarrow> q)"

fun lt_put ::
  "(RID \<times> LockRequestQueue) list \<Rightarrow> RID \<Rightarrow> LockRequestQueue \<Rightarrow> (RID \<times> LockRequestQueue) list" where
  "lt_put [] rid q = [(rid, q)]"
| "lt_put ((r, q') # t) rid q = (if r = rid then (rid, q) # t else (r, q') # lt_put t rid q)"

text \<open>
  What a call does: it returns a value, throws a \<open>TransactionAbortException\<close>, blocks on
  the queue's condition variable (the wait's condition is false when the call reaches
  it; the state returned is the one the waiting thread leaves behind), or has no defined
  behaviour (it dereferences the end iterator).
\<close>

datatype 'a outcome = Return 'a | Throw txn_id_t AbortReason | Blocked | Undefined

definition SetState :: "txn_id_t \<Rightarrow> TransactionState \<Rightarrow> LockManager \<Rightarrow> LockManager" where
  "SetState tid st lm = lm\<lparr>txn_map := (txn_map lm)(tid := (txn_map lm tid)\<lparr>state := st\<rparr>)\<rparr>"

definition CheckShrinking :: "txn_id_t \<Rightarrow> LockManager \<Rightarrow> unit outcome \<times> LockManager" where
  "CheckShrinking tid lm =
     (if state (txn_map lm tid) = SHRINKING
      then (Throw tid LOCK_ON_SHRINKING, SetState tid ABORTED lm)
      else (Return (), lm))"

definition CheckAborted :: "txn_id_t \<Rightarrow> LockManager \<Rightarrow> unit outcome" where
  "CheckAborted tid lm =
     (if IsAborted (txn_map lm tid) then Throw tid DEADLOCK else Return ())"

text \<open>\<open>GetRequest\<close>: the position of the first request of the transaction, \<open>None\<close> for \<open>end()\<close>.\<close>

fun GetRequest :: "txn_id_t \<Rightarrow> LockRequest list \<Rightarrow> nat option" where
  "GetRequest tid [] = None"
| "GetRequest tid (r # rs) =
     (if txn_id r = tid then Some 0 else map_option Suc (GetRequest tid rs))"

definition erase_at :: "nat \<Rightarrow> 'a list \<Rightarrow> 'a list" where
  "erase_at i xs = take i xs @ drop (Suc i) xs"

text \<open>
  \<open>LockShared\<close> and \<open>LockExclusive\<close> keep a reference to the request they append. The
  calling transaction runs on one thread, which is inside the call until the call ends, so
  until then that request is the last request of the transaction in the queue:
  \<open>last_request\<close> gives its position.
\<close>

definition last_request :: "txn_id_t \<Rightarrow> LockRequest list \<Rightarrow> nat option" where
  "last_request tid rq =
     (case GetRequest tid (rev rq) of None \<Rightarrow> None | Some j \<Rightarrow> Some (length rq - 1 - j))"

text \<open>
  Each locking call is split at its \<open>cv_.wait(lock, condition)\<close>. The \<open>_resume\<close> function
  is the call from the wait on, run when the thread arrives at the wait and again at
  every wake-up, in the state the other threads have left: when the condition is false
  the thread (still) blocks, otherwise the rest of the call runs.
\<close>

definition LockShared_resume :: "txn_id_t \<Rightarrow> RID \<Rightarrow> LockManager \<Rightarrow> bool outcome \<times> LockManager" where
  "LockShared_resume tid rid lm =
     (let queue = lt_get (lock_table lm) rid
      in if \<not> (\<not> writer_enter queue \<or> IsAborted (txn_map lm tid)) then (Blocked, lm)
         else
           (case CheckAborted tid lm of
              Throw t r \<Rightarrow> (Throw t r, lm)
            | _ \<Rightarrow>
                (case last_request tid (request_queue queue) of
                   None \<Rightarrow> (Undefined, lm)
                 | Some i \<Rightarrow>
                     (let rq = request_queue queue;
                          queue1 = queue
                            \<lparr>reader_count := reader_count queue + 1,
                             request_queue := rq[i := (rq ! i)\<lparr>granted := True\<rparr>]\<rparr>;
                          txn = txn_map lm tid
                      in (Return True,
                          lm\<lparr>lock_table := lt_put (lock_table lm) rid queue1,
                             txn_map := (txn_map lm)
                               (tid := txn\<lparr>shared_lock_set := emplace rid (shared_lock_set txn)\<rparr>)\<rparr>)))))"

definition LockShared :: "txn_id_t \<Rightarrow> RID \<Rightarrow> LockManager \<Rightarrow> bool outcome \<times> LockManager" where
  "LockShared tid rid lm =
     (case CheckShrinking tid lm of
        (Throw t r, lm1) \<Rightarrow> (Throw t r, lm1)
      | (_, lm1) \<Rightarrow>
          if IsSharedLocked (txn_map lm1 tid) rid then (Return True, lm1)
          else if isolation_level (txn_map lm1 tid) = READ_UNCOMMITTED
          then (Throw tid LOCKSHARED_ON_READ_UNCOMMITTED, SetState tid ABORTED lm1)
          else
            (let queue = lt_get (lock_table lm1) rid;
                 request = \<lparr>txn_id = tid, lock_mode = SHARED, granted = False\<rparr>;
                 queue1 = queue\<lparr>request_queue := request_queue queue @ [request]\<rparr>
             in LockShared_resume tid rid (lm1\<lparr>lock_table := lt_put (lock_table lm1) rid queue1\<rparr>)))"

definition LockExclusive_resume :: "txn_id_t \<Rightarrow> RID \<Rightarrow> LockManager \<Rightarrow> bool outcome \<times> LockManager" where
  "LockExclusive_resume tid rid lm =
     (let queue = lt_get (lock_table lm) rid
      in if \<not> ((\<not> writer_enter queue \<and> reader_count queue = 0) \<or> IsAborted (txn_map lm tid))
         then (Blocked, lm)
         else
           (case CheckAborted tid lm of
              Throw t r \<Rightarrow> (Throw t r, lm)
            | _ \<Rightarrow>
                (case last_request tid (request_queue queue) of
                   None \<Rightarrow> (Undefined, lm)
                 | Some i \<Rightarrow>
                     (let rq = request_queue queue;
                          queue1 = queue
                            \<lparr>writer_enter := True,
                             request_queue := rq[i := (rq ! i)\<lparr>granted := True\<rparr>]\<rparr>;
                          txn = txn_map lm tid
                      in (Return True,
                          lm\<lparr>lock_table := lt_put (lock_table lm) rid queue1,
                             txn_map := (txn_map lm)
                               (tid := txn\<lparr>exclusive_lock_set := emplace rid (exclusive_lock_set txn)\<rparr>)\<rparr>)))))"

definition LockExclusive :: "txn_id_t \<Rightarrow> RID \<Rightarrow> LockManager \<Rightarrow> bool outcome \<times> LockManager" where
  "LockExclusive tid rid lm =
     (case CheckShrinking tid lm of
        (Throw t r, lm1) \<Rightarrow> (Throw t r, lm1)
      | (_, lm1) \<Rightarrow>
          if IsExclusiveLocked (txn_map lm1 tid) rid then (Return True, lm1)
          else
            (let queue = lt_get (lock_table lm1) rid;
                 request = \<lparr>txn_id = tid, lock_mode = EXCLUSIVE, granted = False\<rparr>;
                 queue1 = queue\<lparr>request_queue := request_queue queue @ [request]\<rparr>
             in LockExclusive_resume tid rid (lm1\<lparr>lock_table := lt_put (lock_table lm1) rid queue1\<rparr>)))"

text \<open>
  \<open>LockUpgrade\<close> keeps the iterator \<open>GetRequest\<close> returned, the first request of the
  transaction in the queue; it is still the first one at a wake-up.
\<close>

definition LockUpgrade_resume :: "txn_id_t \<Rightarrow> RID \<Rightarrow> LockManager \<Rightarrow> bool outcome \<times> LockManager" where
  "LockUpgrade_resume tid rid lm =
     (let queue = lt_get (lock_table lm) rid
      in if \<not> ((\<not> writer_enter queue \<and> reader_count queue = 0) \<or> IsAborted (txn_map lm tid))
         then (Blocked, lm)
         else
           (case CheckAborted tid lm of
              Throw t r \<Rightarrow> (Throw t r, lm)
            | _ \<Rightarrow>
                (case GetRequest tid (request_queue queue) of
                   None \<Rightarrow> (Undefined, lm)
                 | Some i \<Rightarrow>
                     (let rq = request_queue queue;
                          queue1 = queue
                            \<lparr>upgrading := False, writer_enter := True,
                             request_queue := rq[i := (rq ! i)\<lparr>granted := True\<rparr>]\<rparr>;
                          txn = txn_map lm tid
                      in (Return True,
                          lm\<lparr>lock_table := lt_put (lock_table lm) rid queue1,
                             txn_map := (txn_map lm)
                               (tid := txn\<lparr>exclusive_lock_set := emplace rid (exclusive_lock_set txn)\<rparr>)\<rparr>)))))"

definition LockUpgrade :: "txn_id_t \<Rightarrow> RID \<Rightarrow> LockManager \<Rightarrow> bool outcome \<times> LockManager" where
  "LockUpgrade tid rid lm =
     (let txn = txn_map lm tid;
          lm1 = lm\<lparr>txn_map := (txn_map lm)
                  (tid := txn\<lparr>shared_lock_set := erase rid (shared_lock_set txn)\<rparr>)\<rparr>;
          queue = lt_get (lock_table lm1) rid;
          queue1 = queue\<lparr>reader_count := reader_count queue - 1\<rparr>
      in case GetRequest tid (request_queue queue1) of
           None \<Rightarrow> (Undefined, lm1\<lparr>lock_table := lt_put (lock_table lm1) rid queue1\<rparr>)
         | Some i \<Rightarrow>
             (let rq = request_queue queue1;
                  queue2 = queue1\<lparr>request_queue :=
                             rq[i := (rq ! i)\<lparr>lock_mode := EXCLUSIVE, granted := False\<rparr>]\<rparr>;
                  lm2 = lm1\<lparr>lock_table := lt_put (lock_table lm1) rid queue2\<rparr>
              in if upgrading queue2
                 then (Throw tid UPGRADE_CONFLICT, SetState tid ABORTED lm2)
                 else LockUpgrade_resume tid rid
                        (lm2\<lparr>lock_table := lt_put (lock_table lm2) rid (queue2\<lparr>upgrading := True\<rparr>)\<rparr>)))"

definition Unlock :: "txn_id_t \<Rightarrow> RID \<Rightarrow> LockManager \<Rightarrow> bool outcome \<times> LockManager" where
  "Unlock tid rid lm =
     (let txn = txn_map lm tid;
          txn1 = txn\<lparr>shared_lock_set := erase rid (shared_lock_set txn),
                     exclusive_lock_set := erase rid (exclusive_lock_set txn)\<rparr>;
          lm1 = lm\<lparr>txn_map := (txn_map lm)(tid := txn1)\<rparr>;
          queue = lt_get (lock_table lm1) rid
      in case GetRequest tid (request_queue queue) of
           None \<Rightarrow> (Undefined, lm1\<lparr>lock_table := lt_put (lock_table lm1) rid queue\<rparr>)
         | Some i \<Rightarrow>
             (let mode = lock_mode (request_queue queue ! i);
                  lm2 = (if state txn1 = GROWING \<and>
                            \<not> (mode = SHARED \<and> isolation_level txn1 = READ_COMMITTED)
                         then SetState tid SHRINKING lm1 else lm1);
                  queue1 = queue\<lparr>request_queue := erase_at i (request_queue queue)\<rparr>;
                  queue2 = (if mode = SHARED
                            then queue1\<lparr>reader_count := reader_count queue1 - 1\<rparr>
                            else queue1\<lparr>writer_enter := False\<rparr>)
              in (Return True, lm2\<lparr>lock_table := lt_put (lock_table lm2) rid queue2\<rparr>)))"

subsection \<open>The wait-for graph\<close>

definition ordset_insert :: "txn_id_t \<Rightarrow> txn_id_t list \<Rightarrow> txn_id_t list" where
  "ordset_insert x xs = (if x \<in> set xs then xs else insort x xs)"

definition AddEdge :: "txn_id_t \<Rightarrow> txn_id_t \<Rightarrow> LockManager \<Rightarrow> LockManager" where
  "AddEdge t1 t2 lm =
     (let lm1 = lm\<lparr>txns := ordset_insert t2 (ordset_insert t1 (txns lm))\<rparr>
      in if t2 \<in> set (waits_for lm1 t1) then lm1
         else lm1\<lparr>waits_for := (waits_for lm1)(t1 := waits_for lm1 t1 @ [t2])\<rparr>)"

definition RemoveEdge :: "txn_id_t \<Rightarrow> txn_id_t \<Rightarrow> LockManager \<Rightarrow> LockManager" where
  "RemoveEdge t1 t2 lm =
     (if t2 \<in> set (waits_for lm t1)
      then lm\<lparr>waits_for := (waits_for lm)(t1 := remove1 t2 (waits_for lm t1))\<rparr>
      else lm)"

text \<open>
  The graph construction of \<open>RunCycleDetection\<close>. For one queue, the first loop collects
  \<open>grants\<close>, the transactions of the requests up to the first request that is not
  granted; the second loop visits every request from there on (\<open>scan_waiting\<close>) and adds
  an edge from its transaction to each transaction of \<open>grants\<close> (\<open>add_edges\<close>).
\<close>

fun add_edges :: "txn_id_t \<Rightarrow> txn_id_t list \<Rightarrow> LockManager \<Rightarrow> LockManager" where
  "add_edges t1 [] lm = lm"
| "add_edges t1 (t2 # grants) lm = add_edges t1 grants (AddEdge t1 t2 lm)"

fun scan_waiting :: "RID \<Rightarrow> txn_id_t list \<Rightarrow> LockRequest list \<Rightarrow> LockManager \<Rightarrow> LockManager" where
  "scan_waiting rid grants [] lm = lm"
| "scan_waiting rid grants (r # rs) lm =
     scan_waiting rid grants rs
       ((add_edges (txn_id r) grants lm)\<lparr>wait_rids := (wait_rids (add_edges (txn_id r) grants lm))(txn_id r \<mapsto> rid)\<rparr>)"

definition scan_queue :: "RID \<Rightarrow> LockRequestQueue \<Rightarrow> LockManager \<Rightarrow> LockManager" where
  "scan_queue rid queue lm =
     scan_waiting rid (map txn_id (takeWhile granted (request_queue queue)))
       (dropWhile granted (request_queue queue)) lm"

fun build_graph :: "(RID \<times> LockRequestQueue) list \<Rightarrow> LockManager \<Rightarrow> LockManager" where
  "build_graph [] lm = lm"
| "build_graph ((rid, queue) # t) lm = build_graph t (scan_queue rid queue lm)"

subsection \<open>Cycle detection\<close>

text \<open>
  \<open>DFS\<close> is recursive and keeps no visited set; the first argument bounds the depth of
  the recursion, and \<open>None\<close> says that the bound was too small (or, in \<open>HasCycle\<close>, that
  \<open>rbegin\<close> was read from an empty set). \<open>DFS_neighbors\<close> is the loop over the sorted
  neighbours; its Boolean says whether the loop left through the \<open>return\<close> of its \<open>else\<close>
  branch, in which case \<open>DFS\<close> does not reach the \<open>erase\<close> after the loop.
\<close>

fun DFS :: "nat \<Rightarrow> txn_id_t \<Rightarrow> LockManager \<Rightarrow> LockManager option"
  and DFS_neighbors :: "nat \<Rightarrow> txn_id_t list \<Rightarrow> LockManager \<Rightarrow> (bool \<times> LockManager) option" where
  "DFS 0 t lm = None"
| "DFS (Suc n) t lm =
     (if has_cycle lm then Some lm
      else
        (let lm1 = lm\<lparr>on_stack_txns := ordset_insert t (on_stack_txns lm),
                      waits_for := (waits_for lm)(t := sort (waits_for lm t))\<rparr>
         in case DFS_neighbors n (waits_for lm1 t) lm1 of
              None \<Rightarrow> None
            | Some (True, lm2) \<Rightarrow> Some lm2
            | Some (False, lm2) \<Rightarrow> Some (lm2\<lparr>on_stack_txns := erase t (on_stack_txns lm2)\<rparr>)))"
| "DFS_neighbors n [] lm = Some (False, lm)"
| "DFS_neighbors n (t2 # ts) lm =
     (if t2 \<notin> set (on_stack_txns lm)
      then (case DFS n t2 lm of None \<Rightarrow> None | Some lm1 \<Rightarrow> DFS_neighbors n ts lm1)
      else Some (True, lm\<lparr>has_cycle := True\<rparr>))"

fun HasCycle_loop ::
  "nat \<Rightarrow> txn_id_t list \<Rightarrow> LockManager \<Rightarrow> (txn_id_t option \<times> LockManager) option" where
  "HasCycle_loop d [] lm = Some (None, lm\<lparr>on_stack_txns := []\<rparr>)"
| "HasCycle_loop d (t1 # ts) lm =
     (case DFS d t1 lm of
        None \<Rightarrow> None
      | Some lm1 \<Rightarrow>
          if has_cycle lm1
          then (case on_stack_txns lm1 of
                  [] \<Rightarrow> None
                | _ # _ \<Rightarrow> Some (Some (last (on_stack_txns lm1)),
                                lm1\<lparr>on_stack_txns := [], has_cycle := False\<rparr>))
          else HasCycle_loop d ts lm1)"

text \<open>\<open>HasCycle\<close> returns the victim written to \<open>*txn_id\<close>, \<open>None\<close> for \<open>false\<close>.\<close>

definition HasCycle :: "nat \<Rightarrow> LockManager \<Rightarrow> (txn_id_t option \<times> LockManager) option" where
  "HasCycle d lm = HasCycle_loop d (txns lm) lm"

text \<open>
  \<open>AbortTransaction\<close>: for every record id in the victim's lock sets and every request in
  that record's queue that is not granted, the edge from the request's transaction to the
  victim is removed. The final \<open>notify_all\<close> wakes the victim's thread and changes no
  data that is modelled.
\<close>

fun remove_waiters :: "txn_id_t \<Rightarrow> LockRequest list \<Rightarrow> LockManager \<Rightarrow> LockManager" where
  "remove_waiters victim [] lm = lm"
| "remove_waiters victim (req # reqs) lm =
     remove_waiters victim reqs
       (if \<not> granted req then RemoveEdge (txn_id req) victim lm else lm)"

fun remove_edges_to :: "txn_id_t \<Rightarrow> RID list \<Rightarrow> LockManager \<Rightarrow> LockManager" where
  "remove_edges_to victim [] lm = lm"
| "remove_edges_to victim (rid # rids) lm =
     remove_edges_to victim rids
       (remove_waiters victim (request_queue (lt_get (lock_table lm) rid)) lm)"

definition AbortTransaction :: "txn_id_t \<Rightarrow> LockManager \<Rightarrow> LockManager" where
  "AbortTransaction victim lm =
     (let lm1 = SetState victim ABORTED lm;
          lm2 = lm1\<lparr>waits_for := (waits_for lm1)(victim := [])\<rparr>;
          lm3 = remove_edges_to victim (exclusive_lock_set (txn_map lm2 victim)) lm2
      in remove_edges_to victim (shared_lock_set (txn_map lm3 victim)) lm3)"

text \<open>
  One round of \<open>RunCycleDetection\<close> (the body of its outer loop after the sleep): build
  the graph, abort victims while \<open>HasCycle\<close> finds one, clear the graph. \<open>abort_cycles\<close>
  is the inner \<open>while\<close> loop; its first argument bounds the number of iterations, its
  second the depth of \<open>DFS\<close>. The result lists the victims in the order they were aborted.
\<close>

fun abort_cycles :: "nat \<Rightarrow> nat \<Rightarrow> LockManager \<Rightarrow> (txn_id_t list \<times> LockManager) option" where
  "abort_cycles 0 d lm = None"
| "abort_cycles (Suc n) d lm =
     (case HasCycle d lm of
        None \<Rightarrow> None
      | Some (None, lm1) \<Rightarrow> Some ([], lm1)
      | Some (Some victim, lm1) \<Rightarrow>
          (case abort_cycles n d (AbortTransaction victim lm1) of
             None \<Rightarrow> None
           | Some (victims, lm2) \<Rightarrow> Some (victim # victims, lm2)))"

definition RunCycleDetection_round ::
  "nat \<Rightarrow> nat \<Rightarrow> LockManager \<Rightarrow> (txn_id_t list \<times> LockManager) option" where
  "RunCycleDetection_round n d lm =
     (case abort_cycles n d (build_graph (lock_table lm) lm) of
        None \<Rightarrow> None
      | Some (victims, lm1) \<Rightarrow>
          Some (victims, lm1\<lparr>waits_for := (\<lambda>_. []), wait_rids := Map.empty, txns := []\<rparr>))"

subsection \<open>The wait-for relation in the spec's words\<close>

text \<open>
  \<open>waits_behind rq t1 t2\<close>: in the queue \<open>rq\<close>, \<open>t2\<close> has a granted request and \<open>t1\<close> has
  a request that is not granted somewhere behind it. \<open>spec_edge\<close>: this holds in the
  queue of some record id. \<open>granted_first rq\<close>: from the first request of \<open>rq\<close> that is
  not granted on, no request is granted.
\<close>

fun waits_behind :: "LockRequest list \<Rightarrow> txn_id_t \<Rightarrow> txn_id_t \<Rightarrow> bool" where
  "waits_behind [] t1 t2 = False"
| "waits_behind (r # rs) t1 t2 =
     ((granted r \<and> txn_id r = t2 \<and> (\<exists>r' \<in> set rs. \<not> granted r' \<and> txn_id r' = t1)) \<or>
      waits_behind rs t1 t2)"

definition spec_edge :: "(RID \<times> LockRequestQueue) list \<Rightarrow> txn_id_t \<Rightarrow> txn_id_t \<Rightarrow> bool" where
  "spec_edge t t1 t2 = (\<exists>(rid, queue) \<in> set t. waits_behind (request_queue queue) t1 t2)"

definition granted_first :: "LockRequest list \<Rightarrow> bool" where
  "granted_first rq = list_all (\<lambda>r. \<not> granted r) (dropWhile granted rq)"

subsection \<open>Example lock managers\<close>

text \<open>
  A new transaction is growing and holds no lock; a new lock manager has an empty lock
  table and an empty graph. In the examples every transaction has the same isolation
  level. The record ids are \<open>(1, 0)\<close> and \<open>(1, 1)\<close>.
\<close>

definition txn_new :: "IsolationLevel \<Rightarrow> Transaction" where
  "txn_new level =
     \<lparr>state = GROWING, isolation_level = level, shared_lock_set = [], exclusive_lock_set = []\<rparr>"

definition LockManager_new :: "(txn_id_t \<Rightarrow> Transaction) \<Rightarrow> LockManager" where
  "LockManager_new m =
     \<lparr>lock_table = [], txn_map = m, waits_for = (\<lambda>_. []), txns = [], on_stack_txns = [],
      has_cycle = False, wait_rids = Map.empty\<rparr>"

text \<open>
  \<open>lm_waiting_writer\<close>: transaction 1 takes a shared lock on \<open>(1, 0)\<close>, transaction 2
  asks for the exclusive lock and blocks. \<open>lm_readers_writer\<close>: then transaction 3 asks
  for a shared lock, which is granted at once because no writer has entered.
\<close>

definition lm_waiting_writer :: LockManager where
  "lm_waiting_writer =
     snd (LockExclusive 2 (1, 0) (snd (LockShared 1 (1, 0)
       (LockManager_new (\<lambda>_. txn_new REPEATABLE_READ)))))"

definition lm_readers_writer :: LockManager where
  "lm_readers_writer = snd (LockShared 3 (1, 0) lm_waiting_writer)"

text \<open>
  \<open>lm_spurious_cycle\<close>: after \<open>lm_readers_writer\<close>, transaction 3 takes a shared lock on
  \<open>(1, 1)\<close> and transaction 1 asks for the exclusive lock on \<open>(1, 1)\<close> and blocks. Now 2
  waits for 1 and 3, and 1 waits for 3; transaction 3 waits for nothing.
\<close>

definition lm_spurious_cycle :: LockManager where
  "lm_spurious_cycle = snd (LockExclusive 1 (1, 1) (snd (LockShared 3 (1, 1) lm_readers_writer)))"

text \<open>
  \<open>lm_deadlock\<close>: transaction 3 locks \<open>(1, 0)\<close> exclusively and transaction 2 locks
  \<open>(1, 1)\<close> exclusively; then 2 asks for \<open>(1, 0)\<close>, 3 asks for \<open>(1, 1)\<close> and 1 asks for
  \<open>(1, 0)\<close>, and all three block. \<open>lm_deadlock_graph\<close> is the state after the detector
  has built the wait-for graph.
\<close>

definition lm_deadlock :: LockManager where
  "lm_deadlock =
     snd (LockExclusive 1 (1, 0) (snd (LockExclusive 3 (1, 1) (snd (LockExclusive 2 (1, 0)
       (snd (LockExclusive 2 (1, 1) (snd (LockExclusive 3 (1, 0)
         (LockManager_new (\<lambda>_. txn_new REPEATABLE_READ)))))))))))"

definition lm_deadlock_graph :: LockManager where
  "lm_deadlock_graph = build_graph (lock_table lm_deadlock) lm_deadlock"

text \<open>
  \<open>lm_two_shared\<close>: a repeatable-read transaction 1 holds shared locks on \<open>(1, 0)\<close> and
  \<open>(1, 1)\<close>. \<open>lm_shrinking\<close>: it has then released the lock on \<open>(1, 0)\<close>.
  \<open>lm_read_uncommitted\<close>: a new lock manager whose transactions are read-uncommitted.
\<close>

definition lm_two_shared :: LockManager where
  "lm_two_shared =
     snd (LockShared 1 (1, 1) (snd (LockShared 1 (1, 0)
       (LockManager_new (\<lambda>_. txn_new REPEATABLE_READ)))))"

definition lm_shrinking :: LockManager where
  "lm_shrinking = snd (Unlock 1 (1, 0) lm_two_shared)"

definition lm_read_uncommitted :: LockManager where
  "lm_read_uncommitted = LockManager_new (\<lambda>_. txn_new READ_UNCOMMITTED)"

text \<open>
  \<open>lm_cross_wait_before\<close>: transaction 1 holds \<open>(1, 0)\<close> and transaction 2 holds \<open>(1, 1)\<close>,
  both exclusively, and 1 has asked for a shared lock on \<open>(1, 1)\<close> and is blocked.
  \<open>lm_cross_wait\<close>: 2 has asked for a shared lock on \<open>(1, 0)\<close> and is blocked as well.
  \<open>lm_cross_wait_detected\<close> is the state after one round of the detector.
\<close>

definition lm_cross_wait_before :: LockManager where
  "lm_cross_wait_before =
     snd (LockShared 1 (1, 1) (snd (LockExclusive 2 (1, 1)
       (snd (LockExclusive 1 (1, 0) (LockManager_new (\<lambda>_. txn_new REPEATABLE_READ)))))))"

definition lm_cross_wait :: LockManager where
  "lm_cross_wait = snd (LockShared 2 (1, 0) lm_cross_wait_before)"

definition lm_cross_wait_detected :: LockManager where
  "lm_cross_wait_detected =
     (case RunCycleDetection_round 3 3 lm_cross_wait of
        None \<Rightarrow> lm_cross_wait
      | Some (victims, lm) \<Rightarrow> lm)"

section \<open>Sequential scan executor (seq_scan_executor.cpp)\<close>

text \<open>
  The version of the executor that takes locks. The table iterator \<open>it_\<close> is the list
  of the tuples it has still to visit, each with its record id; the plan's predicate is
  an optional function on tuples (\<open>None\<close> for the null pointer) and the output columns
  are a function \<open>project\<close>. The transaction of the executor context is given by its id
  and lives in the lock manager state.

  \<open>Next\<close> returns its result (\<open>Some\<close> of the output tuple and record id for \<open>true\<close>,
  \<open>None\<close> for \<open>false\<close>, or the exception, block or undefined behaviour of a lock manager
  call, which ends it), the iterator, the lock manager state and the sequence of the
  steps it has taken, oldest first, each with the lock manager state it leaves: a call
  of \<open>LockShared\<close>, the copy \<open>*tuple = *it_++\<close> of the tuple out of the table, an
  evaluation of the predicate with its value, the computation of the output columns
  with the assignment of the output tuple, a call of the lock manager's \<open>Unlock\<close>.
\<close>

datatype scan_step =
    EvLockShared RID
  | EvMaterialize RID
  | EvEvaluate RID bool
  | EvProject RID
  | EvUnlock RID

type_synonym scan_event = "scan_step \<times> LockManager"

definition SeqScan_Unlock ::
  "txn_id_t \<Rightarrow> RID \<Rightarrow> LockManager \<Rightarrow> bool outcome \<times> LockManager \<times> scan_event list" where
  "SeqScan_Unlock tid rid lm =
     (if isolation_level (txn_map lm tid) = READ_COMMITTED
      then (case Unlock tid rid lm of (out, lm1) \<Rightarrow> (out, lm1, [(EvUnlock rid, lm1)]))
      else (Return True, lm, []))"

fun Next ::
  "('t \<Rightarrow> bool) option \<Rightarrow> ('t \<Rightarrow> 'o) \<Rightarrow> txn_id_t \<Rightarrow> (RID \<times> 't) list \<Rightarrow> LockManager \<Rightarrow>
     ('o \<times> RID) option outcome \<times> (RID \<times> 't) list \<times> LockManager \<times> scan_event list" where
  "Next predicate project tid [] lm = (Return None, [], lm, [])"
| "Next predicate project tid ((rid, tup) # rest) lm =
     (case (if isolation_level (txn_map lm tid) \<noteq> READ_UNCOMMITTED \<and>
               \<not> IsExclusiveLocked (txn_map lm tid) rid
            then (case LockShared tid rid lm of
                    (out, lm1) \<Rightarrow> (out, lm1, [(EvLockShared rid, lm1)]))
            else (Return True, lm, []))
      of
        (Return locked, lm1, ev1) \<Rightarrow>
          (let ev2 = ev1 @ [(EvMaterialize rid, lm1)] @
                     (case predicate of
                        None \<Rightarrow> []
                      | Some p \<Rightarrow> [(EvEvaluate rid (p tup), lm1)])
           in if (case predicate of None \<Rightarrow> True | Some p \<Rightarrow> p tup)
              then
                (let ev3 = ev2 @ [(EvProject rid, lm1)]
                 in case SeqScan_Unlock tid rid lm1 of
                      (Return unlocked, lm2, ev4) \<Rightarrow>
                        (Return (Some (project tup, rid)), rest, lm2, ev3 @ ev4)
                    | (Throw t r, lm2, ev4) \<Rightarrow> (Throw t r, rest, lm2, ev3 @ ev4)
                    | (Blocked, lm2, ev4) \<Rightarrow> (Blocked, rest, lm2, ev3 @ ev4)
                    | (Undefined, lm2, ev4) \<Rightarrow> (Undefined, rest, lm2, ev3 @ ev4))
              else
                (case SeqScan_Unlock tid rid lm1 of
                   (Return unlocked, lm2, ev4) \<Rightarrow>
                     (case Next predicate project tid rest lm2 of
                        (out, it', lm3, evs) \<Rightarrow> (out, it', lm3, ev2 @ ev4 @ evs))
                 | (Throw t r, lm2, ev4) \<Rightarrow> (Throw t r, rest, lm2, ev2 @ ev4)
                 | (Blocked, lm2, ev4) \<Rightarrow> (Blocked, rest, lm2, ev2 @ ev4)
                 | (Undefined, lm2, ev4) \<Rightarrow> (Undefined, rest, lm2, ev2 @ ev4)))
      | (Throw t r, lm1, ev1) \<Rightarrow> (Throw t r, (rid, tup) # rest, lm1, ev1)
      | (Blocked, lm1, ev1) \<Rightarrow> (Blocked, (rid, tup) # rest, lm1, ev1)
      | (Undefined, lm1, ev1) \<Rightarrow> (Undefined, (rid, tup) # rest, lm1, ev1))"

text \<open>The steps of \<open>Next\<close>, and the lock manager state it leaves.\<close>

definition Next_events ::
  "('t \<Rightarrow> bool) option \<Rightarrow> ('t \<Rightarrow> 'o) \<Rightarrow> txn_id_t \<Rightarrow> (RID \<times> 't) list \<Rightarrow> LockManager \<Rightarrow>
     scan_event list" where
  "Next_events predicate project tid it lm =
     (case Next predicate project tid it lm of (out, it', lm', evs) \<Rightarrow> evs)"

definition Next_state ::
  "('t \<Rightarrow> bool) option \<Rightarrow> ('t \<Rightarrow> 'o) \<Rightarrow> txn_id_t \<Rightarrow> (RID \<times> 't) list \<Rightarrow> LockManager \<Rightarrow>
     LockManager" where
  "Next_state predicate project tid it lm =
     (case Next predicate project tid it lm of (out, it', lm', evs) \<Rightarrow> lm')"

subsection \<open>One iteration of the loop\<close>

text \<open>
  The parts of one iteration of the loop of \<open>Next\<close> at the tuple \<open>tup\<close> with record id
  \<open>rid\<close>: the locking (\<open>scan_lock\<close>, with its step \<open>scan_lock_events\<close>), the release
  (\<open>scan_unlock\<close>) and the steps from the copy of the tuple on (\<open>scan_body\<close>).
\<close>

definition scan_lock :: "txn_id_t \<Rightarrow> RID \<Rightarrow> LockManager \<Rightarrow> bool outcome \<times> LockManager" where
  "scan_lock tid rid lm =
     (if isolation_level (txn_map lm tid) \<noteq> READ_UNCOMMITTED \<and>
         \<not> IsExclusiveLocked (txn_map lm tid) rid
      then LockShared tid rid lm else (Return True, lm))"

definition scan_unlock :: "txn_id_t \<Rightarrow> RID \<Rightarrow> LockManager \<Rightarrow> bool outcome \<times> LockManager" where
  "scan_unlock tid rid lm =
     (if isolation_level (txn_map lm tid) = READ_COMMITTED
      then Unlock tid rid lm else (Return True, lm))"

definition scan_body ::
  "('t \<Rightarrow> bool) option \<Rightarrow> txn_id_t \<Rightarrow> RID \<Rightarrow> 't \<Rightarrow> LockManager \<Rightarrow> scan_event list" where
  "scan_body p tid rid tup lm =
     (let lm1 = snd (scan_lock tid rid lm)
      in (EvMaterialize rid, lm1) #
         (case p of None \<Rightarrow> [] | Some q \<Rightarrow> [(EvEvaluate rid (q tup), lm1)]) @
         (if (case p of None \<Rightarrow> True | Some q \<Rightarrow> q tup) then [(EvProject rid, lm1)] else []) @
         (if isolation_level (txn_map lm tid) = READ_COMMITTED
          then [(EvUnlock rid, snd (Unlock tid rid lm1))] else []))"

definition scan_lock_events :: "txn_id_t \<Rightarrow> RID \<Rightarrow> LockManager \<Rightarrow> scan_event list" where
  "scan_lock_events tid rid lm =
     (if isolation_level (txn_map lm tid) \<noteq> READ_UNCOMMITTED \<and>
         \<not> IsExclusiveLocked (txn_map lm tid) rid
      then [(EvLockShared rid, snd (LockShared tid rid lm))] else [])"

subsection \<open>The locking discipline of the scan\<close>

text \<open>
  \<open>follows tid s es\<close>: the states recorded in \<open>es\<close> are those the lock manager leaves:
  started in \<open>s\<close>, the state after a \<open>LockShared\<close> or \<open>Unlock\<close> step is the state the call
  of transaction \<open>tid\<close> leaves, and the other steps do not change the state.
  \<open>final_state s es\<close> is the state after the last step.
\<close>

fun step_state :: "txn_id_t \<Rightarrow> scan_step \<Rightarrow> LockManager \<Rightarrow> LockManager" where
  "step_state tid (EvLockShared rid) s = snd (LockShared tid rid s)"
| "step_state tid (EvUnlock rid) s = snd (Unlock tid rid s)"
| "step_state tid (EvMaterialize rid) s = s"
| "step_state tid (EvEvaluate rid b) s = s"
| "step_state tid (EvProject rid) s = s"

fun follows :: "txn_id_t \<Rightarrow> LockManager \<Rightarrow> scan_event list \<Rightarrow> bool" where
  "follows tid s [] = True"
| "follows tid s ((st, s') # es) = (s' = step_state tid st s \<and> follows tid s' es)"

fun final_state :: "LockManager \<Rightarrow> scan_event list \<Rightarrow> LockManager" where
  "final_state s [] = s"
| "final_state s ((st, s') # es) = final_state s' es"

text \<open>
  \<open>locked_before_materialized tid prev es\<close>, where \<open>prev\<close> is the step before \<open>es\<close>: at
  every copy of a tuple in \<open>es\<close> the transaction holds the exclusive lock on the record
  id, or it holds the shared lock and the step before the copy is the \<open>LockShared\<close> call
  for the record id, which has left the state the copy is made in.
\<close>

fun locked_before_materialized :: "txn_id_t \<Rightarrow> scan_event option \<Rightarrow> scan_event list \<Rightarrow> bool" where
  "locked_before_materialized tid prev [] = True"
| "locked_before_materialized tid prev ((EvMaterialize rid, s) # es) =
     ((IsExclusiveLocked (txn_map s tid) rid \<or>
       (prev = Some (EvLockShared rid, s) \<and> IsSharedLocked (txn_map s tid) rid)) \<and>
      locked_before_materialized tid (Some (EvMaterialize rid, s)) es)"
| "locked_before_materialized tid prev (e # es) = locked_before_materialized tid (Some e) es"

text \<open>
  \<open>unlock_next tid rid es\<close>: the first step of \<open>es\<close> is the \<open>Unlock\<close> call for \<open>rid\<close>, and it
  leaves the transaction without a shared lock on \<open>rid\<close>. \<open>outputs_then_unlock\<close>: the
  first step is the computation of the output columns, and \<open>Unlock\<close> is next.
  \<open>unlock_follows tid rid es\<close>, for the steps \<open>es\<close> after the copy of the tuple at \<open>rid\<close>:
  when the predicate is evaluated and does not hold, \<open>Unlock\<close> is the next step; when it
  holds, or the plan has no predicate, the output columns are computed and \<open>Unlock\<close> is
  the step after that. \<open>released_after_evaluation tid es\<close>: this holds after every copy
  of a tuple on whose record id the transaction does not hold the exclusive lock.
\<close>

definition unlock_next :: "txn_id_t \<Rightarrow> RID \<Rightarrow> scan_event list \<Rightarrow> bool" where
  "unlock_next tid rid es =
     (case es of
        (EvUnlock r, s) # es1 \<Rightarrow> r = rid \<and> \<not> IsSharedLocked (txn_map s tid) rid
      | _ \<Rightarrow> False)"

definition outputs_then_unlock :: "txn_id_t \<Rightarrow> RID \<Rightarrow> scan_event list \<Rightarrow> bool" where
  "outputs_then_unlock tid rid es =
     (case es of
        (EvProject r, s) # es1 \<Rightarrow> r = rid \<and> unlock_next tid rid es1
      | _ \<Rightarrow> False)"

definition unlock_follows :: "txn_id_t \<Rightarrow> RID \<Rightarrow> scan_event list \<Rightarrow> bool" where
  "unlock_follows tid rid es =
     (case es of
        (EvEvaluate r b, s) # es1 \<Rightarrow>
          r = rid \<and> (if b then outputs_then_unlock tid rid es1 else unlock_next tid rid es1)
      | _ \<Rightarrow> outputs_then_unlock tid rid es)"

fun released_after_evaluation :: "txn_id_t \<Rightarrow> scan_event list \<Rightarrow> bool" where
  "released_after_evaluation tid [] = True"
| "released_after_evaluation tid ((EvMaterialize rid, s) # es) =
     ((IsExclusiveLocked (txn_map s tid) rid \<or> unlock_follows tid rid es) \<and>
      released_after_evaluation tid es)"
| "released_after_evaluation tid (e # es) = released_after_evaluation tid es"

text \<open>
  \<open>unlocks es\<close>: the record ids of the \<open>Unlock\<close> calls in \<open>es\<close>. \<open>materialized es\<close>: the
  record ids of the tuples copied in \<open>es\<close>, in order. \<open>holds_lock\<close>: the transaction has
  the record id in its shared or in its exclusive lock set.
\<close>

fun unlocks :: "scan_event list \<Rightarrow> RID list" where
  "unlocks [] = []"
| "unlocks ((EvUnlock rid, s) # es) = rid # unlocks es"
| "unlocks (e # es) = unlocks es"

fun materialized :: "scan_event list \<Rightarrow> RID list" where
  "materialized [] = []"
| "materialized ((EvMaterialize rid, s) # es) = rid # materialized es"
| "materialized (e # es) = materialized es"

definition holds_lock :: "LockManager \<Rightarrow> txn_id_t \<Rightarrow> RID \<Rightarrow> bool" where
  "holds_lock s tid rid =
     (IsSharedLocked (txn_map s tid) rid \<or> IsExclusiveLocked (txn_map s tid) rid)"

subsection \<open>The release in the spec's words\<close>

text \<open>
  \<open>unlock_directly_after_evaluation sts\<close>: in the steps \<open>sts\<close> every evaluation of the
  predicate is directly followed by the \<open>Unlock\<close> call for the record id.
\<close>

fun unlock_directly_after_evaluation :: "scan_step list \<Rightarrow> bool" where
  "unlock_directly_after_evaluation [] = True"
| "unlock_directly_after_evaluation (EvEvaluate rid b # sts) =
     ((case sts of EvUnlock r # sts1 \<Rightarrow> r = rid | _ \<Rightarrow> False) \<and>
      unlock_directly_after_evaluation sts)"
| "unlock_directly_after_evaluation (st # sts) = unlock_directly_after_evaluation sts"

subsection \<open>Example scans\<close>

text \<open>
  A table of two tuples, the integers 10 and 20 at the record ids \<open>(1, 0)\<close> and
  \<open>(1, 1)\<close>, scanned with the predicate \<open>20 \<le> x\<close> and the identity projection by
  transaction 1 of a new lock manager. \<open>lm_writer_scan\<close>: a read-committed transaction 1
  holds the exclusive lock on \<open>(1, 0)\<close>.
\<close>

definition table_ex :: "(RID \<times> int) list" where
  "table_ex = [((1, 0), 10), ((1, 1), 20)]"

definition scan_ex :: "IsolationLevel \<Rightarrow> scan_event list" where
  "scan_ex level =
     Next_events (Some (\<lambda>x. 20 \<le> x)) (\<lambda>x. x) 1 table_ex (LockManager_new (\<lambda>_. txn_new level))"

definition lm_writer_scan :: LockManager where
  "lm_writer_scan = snd (LockExclusive 1 (1, 0) (LockManager_new (\<lambda>_. txn_new READ_COMMITTED)))"
section \<open>B+tree pages\<close>

text \<open>
  Modelled from the spec: the page classes of the index (the header common to both kinds
  of node, the leaf page and the internal page; their sources are not among the
  sources). A node is one page seen through one of two views, told apart by its type
  tag. The header holds the type, the maximal size, the parent's page id and the page's
  own id; a leaf also holds the id of the next leaf and its (key, value) pairs, an
  internal node its (key, child page id) pairs, of which the key in slot 0 is not used
  for searching. The current size is the number of pairs. Keys are ordered by the
  comparator, here the linear order of the key type; a key read from reset memory is
  \<open>0\<close>.
\<close>

datatype IndexPageType = INVALID_INDEX_PAGE | LEAF_PAGE | INTERNAL_PAGE

record ('k, 'v) BPlusTreePage =
  page_type :: IndexPageType
  max_size :: int
  parent_page_id :: page_id_t
  tree_page_id :: page_id_t
  next_leaf_page_id :: page_id_t
  leaf_array :: "('k \<times> 'v) list"
  internal_array :: "('k \<times> page_id_t) list"

definition zero_page :: "('k, 'v) BPlusTreePage" where
  "zero_page =
     \<lparr>page_type = INVALID_INDEX_PAGE, max_size = 0, parent_page_id = 0, tree_page_id = 0,
      next_leaf_page_id = 0, leaf_array = [], internal_array = []\<rparr>"

definition IsLeafPage :: "('k, 'v) BPlusTreePage \<Rightarrow> bool" where
  "IsLeafPage node = (page_type node = LEAF_PAGE)"

definition IsRootPage :: "('k, 'v) BPlusTreePage \<Rightarrow> bool" where
  "IsRootPage node = (parent_page_id node = INVALID_PAGE_ID)"

definition GetSize :: "('k, 'v) BPlusTreePage \<Rightarrow> int" where
  "GetSize node =
     (if IsLeafPage node then int (length (leaf_array node))
      else int (length (internal_array node)))"

text \<open>
  Modelled from the spec: the minimal size, the lower end of the valid size range,
  \<open>\<lceil>(m - 1) / 2\<rceil>\<close> for a leaf and \<open>\<lceil>m / 2\<rceil>\<close> for an internal node of maximal size \<open>m\<close>.
\<close>

definition GetMinSize :: "('k, 'v) BPlusTreePage \<Rightarrow> int" where
  "GetMinSize node =
     (if IsLeafPage node then max_size node div 2 else (max_size node + 1) div 2)"

definition Leaf_Init :: "page_id_t \<Rightarrow> page_id_t \<Rightarrow> int \<Rightarrow> ('k, 'v) BPlusTreePage" where
  "Leaf_Init pid parent_id msize =
     \<lparr>page_type = LEAF_PAGE, max_size = msize, parent_page_id = parent_id, tree_page_id = pid,
      next_leaf_page_id = INVALID_PAGE_ID, leaf_array = [], internal_array = []\<rparr>"

definition Internal_Init :: "page_id_t \<Rightarrow> page_id_t \<Rightarrow> int \<Rightarrow> ('k, 'v) BPlusTreePage" where
  "Internal_Init pid parent_id msize =
     \<lparr>page_type = INTERNAL_PAGE, max_size = msize, parent_page_id = parent_id, tree_page_id = pid,
      next_leaf_page_id = 0, leaf_array = [], internal_array = []\<rparr>"

text \<open>An array slot read by index; \<open>None\<close> when the index is not below the size.\<close>

definition slot :: "'a list \<Rightarrow> int \<Rightarrow> 'a option" where
  "slot xs i = (if 0 \<le> i \<and> i < int (length xs) then Some (xs ! nat i) else None)"

definition KeyAt :: "int \<Rightarrow> ('k, 'v) BPlusTreePage \<Rightarrow> 'k option" where
  "KeyAt i node =
     (if IsLeafPage node then map_option fst (slot (leaf_array node) i)
      else map_option fst (slot (internal_array node) i))"

definition ValueAt :: "int \<Rightarrow> ('k, 'v) BPlusTreePage \<Rightarrow> page_id_t option" where
  "ValueAt i node = map_option snd (slot (internal_array node) i)"

subsection \<open>Leaf pages\<close>

text \<open>
  Modelled from the spec: a leaf keeps its pairs in ascending key order. \<open>KeyIndex\<close> is
  the first position whose key is not below the given key, \<open>Lookup\<close> the search for a
  key, \<open>Insert\<close> puts the pair at its position in the order, \<open>RemoveAndDeleteRecord\<close>
  removes the pair of the key when there is one.
\<close>

definition Leaf_KeyIndex :: "'k::linorder \<Rightarrow> ('k, 'v) BPlusTreePage \<Rightarrow> int" where
  "Leaf_KeyIndex key node = int (length (takeWhile (\<lambda>(k, v). k < key) (leaf_array node)))"

definition Leaf_Lookup :: "'k \<Rightarrow> ('k, 'v) BPlusTreePage \<Rightarrow> 'v option" where
  "Leaf_Lookup key node = map_of (leaf_array node) key"

definition Leaf_Insert :: "'k::linorder \<Rightarrow> 'v \<Rightarrow> ('k, 'v) BPlusTreePage \<Rightarrow> ('k, 'v) BPlusTreePage" where
  "Leaf_Insert key val node =
     (let i = nat (Leaf_KeyIndex key node)
      in node\<lparr>leaf_array := take i (leaf_array node) @ (key, val) # drop i (leaf_array node)\<rparr>)"

fun remove_key :: "'k \<Rightarrow> ('k \<times> 'v) list \<Rightarrow> ('k \<times> 'v) list" where
  "remove_key key [] = []"
| "remove_key key ((k, v) # xs) = (if k = key then xs else (k, v) # remove_key key xs)"

definition Leaf_RemoveAndDeleteRecord :: "'k \<Rightarrow> ('k, 'v) BPlusTreePage \<Rightarrow> ('k, 'v) BPlusTreePage" where
  "Leaf_RemoveAndDeleteRecord key node = node\<lparr>leaf_array := remove_key key (leaf_array node)\<rparr>"

subsection \<open>Internal pages\<close>

text \<open>
  Modelled from the spec: for a key \<open>k\<close> in slot \<open>i\<close> of an internal node, the keys of the
  subtree in slot \<open>i - 1\<close> are below \<open>k\<close> and those of the subtree in slot \<open>i\<close> are not.
  \<open>Lookup\<close> returns the child of the last slot, from slot 1 on, whose key is not above
  the given key, and the child of slot 0 when there is none. \<open>ValueIndex\<close> is the slot of
  a child, \<open>-1\<close> when it is not a child of the node.
\<close>

definition Internal_Lookup :: "'k::linorder \<Rightarrow> ('k, 'v) BPlusTreePage \<Rightarrow> page_id_t option" where
  "Internal_Lookup key node =
     ValueAt (int (length (takeWhile (\<lambda>(k, c). k \<le> key) (tl (internal_array node))))) node"

fun index_of :: "page_id_t \<Rightarrow> ('k \<times> page_id_t) list \<Rightarrow> int" where
  "index_of c [] = -1"
| "index_of c ((k, c') # xs) =
     (if c' = c then 0 else (let i = index_of c xs in if i < 0 then -1 else i + 1))"

definition ValueIndex :: "page_id_t \<Rightarrow> ('k, 'v) BPlusTreePage \<Rightarrow> int" where
  "ValueIndex c node = index_of c (internal_array node)"

definition SetKeyAt :: "int \<Rightarrow> 'k \<Rightarrow> ('k, 'v) BPlusTreePage \<Rightarrow> ('k, 'v) BPlusTreePage option" where
  "SetKeyAt i key node =
     (case slot (internal_array node) i of
        None \<Rightarrow> None
      | Some (k, c) \<Rightarrow> Some (node\<lparr>internal_array := (internal_array node)[nat i := (key, c)]\<rparr>))"

definition PopulateNewRoot ::
  "page_id_t \<Rightarrow> 'k \<Rightarrow> page_id_t \<Rightarrow> ('k::zero, 'v) BPlusTreePage \<Rightarrow> ('k, 'v) BPlusTreePage" where
  "PopulateNewRoot old_value new_key new_value node =
     node\<lparr>internal_array := [(0, old_value), (new_key, new_value)]\<rparr>"

definition InsertNodeAfter ::
  "page_id_t \<Rightarrow> 'k \<Rightarrow> page_id_t \<Rightarrow> ('k, 'v) BPlusTreePage \<Rightarrow> ('k, 'v) BPlusTreePage" where
  "InsertNodeAfter old_value new_key new_value node =
     (let i = nat (ValueIndex old_value node + 1)
      in node\<lparr>internal_array :=
                take i (internal_array node) @ (new_key, new_value) # drop i (internal_array node)\<rparr>)"

definition Internal_Remove :: "int \<Rightarrow> ('k, 'v) BPlusTreePage \<Rightarrow> ('k, 'v) BPlusTreePage" where
  "Internal_Remove i node =
     (if 0 \<le> i \<and> i < GetSize node
      then node\<lparr>internal_array :=
                  take (nat i) (internal_array node) @ drop (Suc (nat i)) (internal_array node)\<rparr>
      else node)"

section \<open>B+tree (b_plus_tree.cpp)\<close>

text \<open>
  The tree object with what it works on. \<open>root_page_id\<close>, \<open>leaf_max_size\<close>,
  \<open>internal_max_size\<close> and \<open>root_latch\<close> (is the mutex held) are its members. The buffer
  pool is seen from above: \<open>tree_pages\<close> maps a page id to the node stored in that page,
  \<open>next_new_page_id\<close> is the page id the next \<open>NewPage\<close> returns (page ids are handed out
  counting up from a natural number), and \<open>pool_exhausted\<close>
  says that no frame can be had, in which case \<open>NewPage\<close> returns the null pointer. Pin
  counts and the latches of the pages are not part of this view; they do not change what
  the operations return when one thread runs them. \<open>header_record\<close> is the root page id
  the header page records for this index. \<open>page_set\<close> and \<open>deleted_page_set\<close> belong to
  the transaction passed to the operations: \<open>page_set\<close> is its queue of latched pages, in
  which a page is named by its page id and \<open>None\<close> is the null pointer that stands for the
  root latch, and \<open>deleted_page_set\<close> is its set of page ids.

  An operation returns \<open>Inr\<close> of its result and the new state, or \<open>Inl\<close> of the reason why
  it does not return: the \<open>OUT_OF_MEMORY\<close> exception of \<open>NewPage\<close>, the use of a page or
  array slot that does not exist (\<open>BAD_PAGE\<close>), a second \<open>lock\<close> or \<open>unlock\<close> of the root
  latch by the one thread (\<open>BAD_LATCH\<close>), or a loop or recursion that needs more steps
  than the bound given as first argument (\<open>OUT_OF_FUEL\<close>).
\<close>

datatype tree_error = OUT_OF_FUEL | OUT_OF_MEMORY | BAD_PAGE | BAD_LATCH

datatype OperationType = READ | INSERT | REMOVE

record ('k, 'v) BPlusTree =
  root_page_id :: page_id_t
  leaf_max_size :: int
  internal_max_size :: int
  root_latch :: bool
  tree_pages :: "page_id_t \<rightharpoonup> ('k, 'v) BPlusTreePage"
  next_new_page_id :: nat
  pool_exhausted :: bool
  header_record :: "page_id_t option"
  page_set :: "page_id_t option list"
  deleted_page_set :: "page_id_t set"

definition and_then :: "tree_error + 'a \<Rightarrow> ('a \<Rightarrow> tree_error + 'b) \<Rightarrow> tree_error + 'b" where
  "and_then r f = (case r of Inl e \<Rightarrow> Inl e | Inr x \<Rightarrow> f x)"

definition from_slot :: "'a option \<Rightarrow> tree_error + 'a" where
  "from_slot x = (case x of None \<Rightarrow> Inl BAD_PAGE | Some y \<Rightarrow> Inr y)"

definition FetchPage :: "page_id_t \<Rightarrow> ('k, 'v) BPlusTree \<Rightarrow> tree_error + ('k, 'v) BPlusTreePage" where
  "FetchPage pid t = from_slot (tree_pages t pid)"

definition put_page ::
  "page_id_t \<Rightarrow> ('k, 'v) BPlusTreePage \<Rightarrow> ('k, 'v) BPlusTree \<Rightarrow> ('k, 'v) BPlusTree" where
  "put_page pid node t = t\<lparr>tree_pages := (tree_pages t)(pid \<mapsto> node)\<rparr>"

definition NewPage :: "('k, 'v) BPlusTree \<Rightarrow> tree_error + (page_id_t \<times> ('k, 'v) BPlusTree)" where
  "NewPage t =
     (if pool_exhausted t then Inl OUT_OF_MEMORY
      else Inr (int (next_new_page_id t),
                t\<lparr>tree_pages := (tree_pages t)(int (next_new_page_id t) \<mapsto> zero_page),
                   next_new_page_id := next_new_page_id t + 1\<rparr>))"

definition DeletePage :: "page_id_t \<Rightarrow> ('k, 'v) BPlusTree \<Rightarrow> ('k, 'v) BPlusTree" where
  "DeletePage pid t = t\<lparr>tree_pages := (tree_pages t)(pid := None)\<rparr>"

definition lock_root :: "('k, 'v) BPlusTree \<Rightarrow> tree_error + ('k, 'v) BPlusTree" where
  "lock_root t = (if root_latch t then Inl BAD_LATCH else Inr (t\<lparr>root_latch := True\<rparr>))"

definition unlock_root :: "('k, 'v) BPlusTree \<Rightarrow> tree_error + ('k, 'v) BPlusTree" where
  "unlock_root t = (if root_latch t then Inr (t\<lparr>root_latch := False\<rparr>) else Inl BAD_LATCH)"

definition IsEmpty :: "('k, 'v) BPlusTree \<Rightarrow> bool" where
  "IsEmpty t = (root_page_id t = INVALID_PAGE_ID)"

text \<open>
  Modelled from the spec: \<open>UpdateRootPageId\<close> writes the root page id into the record
  of the index in the header page (the header page class is not among the sources).
\<close>

definition UpdateRootPageId :: "('k, 'v) BPlusTree \<Rightarrow> ('k, 'v) BPlusTree" where
  "UpdateRootPageId t = t\<lparr>header_record := Some (root_page_id t)\<rparr>"

definition IsPageSafe :: "('k, 'v) BPlusTreePage \<Rightarrow> OperationType \<Rightarrow> bool" where
  "IsPageSafe page operation =
     (case operation of
        READ \<Rightarrow> True
      | INSERT \<Rightarrow> GetSize page < max_size page - 1
      | REMOVE \<Rightarrow>
          if IsRootPage page
          then (if IsLeafPage page then GetSize page > 1 else GetSize page > 2)
          else GetSize page > GetMinSize page)"

fun UnlockAncestors_loop ::
  "page_id_t option list \<Rightarrow> ('k, 'v) BPlusTree \<Rightarrow> tree_error + ('k, 'v) BPlusTree" where
  "UnlockAncestors_loop [] t = Inr (t\<lparr>page_set := []\<rparr>)"
| "UnlockAncestors_loop (None # ps) t =
     and_then (unlock_root t) (UnlockAncestors_loop ps)"
| "UnlockAncestors_loop (Some pid # ps) t = UnlockAncestors_loop ps t"

definition UnlockAncestors :: "('k, 'v) BPlusTree \<Rightarrow> tree_error + ('k, 'v) BPlusTree" where
  "UnlockAncestors t = UnlockAncestors_loop (page_set t) t"

text \<open>
  \<open>FindLeafPage_loop\<close> is the \<open>while\<close> loop of \<open>FindLeafPage\<close>, at the page \<open>pid\<close>;
  \<open>FindLeafPage\<close> returns the page id of the leaf.
\<close>

fun FindLeafPage_loop ::
  "nat \<Rightarrow> 'k::linorder \<Rightarrow> bool \<Rightarrow> OperationType \<Rightarrow> page_id_t \<Rightarrow> ('k, 'v) BPlusTree \<Rightarrow>
     tree_error + (page_id_t \<times> ('k, 'v) BPlusTree)" where
  "FindLeafPage_loop 0 key leftMost operation pid t = Inl OUT_OF_FUEL"
| "FindLeafPage_loop (Suc n) key leftMost operation pid t =
     and_then (FetchPage pid t) (\<lambda>node.
       if IsLeafPage node then Inr (pid, t)
       else
         and_then (from_slot (if \<not> leftMost then Internal_Lookup key node else ValueAt 0 node))
           (\<lambda>child_id.
              and_then (FetchPage child_id t) (\<lambda>child_page.
                if operation = READ
                then FindLeafPage_loop n key leftMost operation child_id t
                else
                  (let t1 = t\<lparr>page_set := page_set t @ [Some pid]\<rparr>
                   in if IsPageSafe child_page operation
                      then and_then (UnlockAncestors t1)
                             (FindLeafPage_loop n key leftMost operation child_id)
                      else FindLeafPage_loop n key leftMost operation child_id t1))))"

definition FindLeafPage ::
  "nat \<Rightarrow> 'k::linorder \<Rightarrow> bool \<Rightarrow> OperationType \<Rightarrow> ('k, 'v) BPlusTree \<Rightarrow>
     tree_error + (page_id_t \<times> ('k, 'v) BPlusTree)" where
  "FindLeafPage n key leftMost operation t =
     and_then (if operation = READ then lock_root t else Inr t) (\<lambda>t1.
       and_then (FetchPage (root_page_id t1) t1) (\<lambda>node.
         and_then
           (if operation = READ then unlock_root t1
            else if \<not> IsPageSafe node operation
            then Inr (t1\<lparr>page_set := page_set t1 @ [None]\<rparr>)
            else unlock_root t1)
           (FindLeafPage_loop n key leftMost operation (root_page_id t1))))"

text \<open>
  \<open>GetValue\<close> returns its Boolean and the result vector, to which it appends.
\<close>

definition GetValue ::
  "nat \<Rightarrow> 'k::linorder \<Rightarrow> 'v list \<Rightarrow> ('k, 'v) BPlusTree \<Rightarrow>
     tree_error + ((bool \<times> 'v list) \<times> ('k, 'v) BPlusTree)" where
  "GetValue n key result t =
     and_then (lock_root t) (\<lambda>t1.
       if IsEmpty t1 then and_then (unlock_root t1) (\<lambda>t2. Inr ((False, result), t2))
       else
         and_then (unlock_root t1) (\<lambda>t2.
           and_then (FindLeafPage n key False READ t2) (\<lambda>(leaf_id, t3).
             and_then (FetchPage leaf_id t3) (\<lambda>leaf.
               case Leaf_Lookup key leaf of
                 Some v \<Rightarrow> Inr ((True, result @ [v]), t3)
               | None \<Rightarrow> Inr ((False, result), t3)))))"

definition StartNewTree ::
  "'k::linorder \<Rightarrow> 'v \<Rightarrow> ('k, 'v) BPlusTree \<Rightarrow> tree_error + ('k, 'v) BPlusTree" where
  "StartNewTree key val t =
     and_then (NewPage t) (\<lambda>(pid, t1).
       (let t2 = t1\<lparr>root_page_id := pid\<rparr>;
            root = Leaf_Insert key val (Leaf_Init (root_page_id t2) INVALID_PAGE_ID (leaf_max_size t2));
            t3 = UpdateRootPageId (put_page pid root t2)
        in unlock_root t3))"

subsection \<open>Splitting\<close>

text \<open>
  Modelled from the spec: \<open>MoveHalfTo\<close> moves the upper half of the pairs of a node, those
  from slot \<open>\<lfloor>size / 2\<rfloor>\<close> on, to the new sibling. For a leaf it links the sibling into
  the leaf chain behind the node; for an internal node it makes the sibling the parent of
  the children that move (\<open>adopt\<close>).
\<close>

fun adopt :: "page_id_t list \<Rightarrow> page_id_t \<Rightarrow> ('k, 'v) BPlusTree \<Rightarrow> tree_error + ('k, 'v) BPlusTree" where
  "adopt [] parent_id t = Inr t"
| "adopt (c # cs) parent_id t =
     and_then (FetchPage c t) (\<lambda>child.
       adopt cs parent_id (put_page c (child\<lparr>parent_page_id := parent_id\<rparr>) t))"

definition MoveHalfTo ::
  "page_id_t \<Rightarrow> page_id_t \<Rightarrow> ('k, 'v) BPlusTree \<Rightarrow> tree_error + ('k, 'v) BPlusTree" where
  "MoveHalfTo node_id recipient_id t =
     and_then (FetchPage node_id t) (\<lambda>node.
       and_then (FetchPage recipient_id t) (\<lambda>recipient.
         (let keep = nat (GetSize node div 2)
          in if IsLeafPage node
             then Inr (put_page node_id
                         (node\<lparr>leaf_array := take keep (leaf_array node),
                               next_leaf_page_id := recipient_id\<rparr>)
                      (put_page recipient_id
                         (recipient\<lparr>leaf_array := leaf_array recipient @ drop keep (leaf_array node),
                                    next_leaf_page_id := next_leaf_page_id node\<rparr>) t))
             else adopt (map snd (drop keep (internal_array node))) recipient_id
                    (put_page node_id (node\<lparr>internal_array := take keep (internal_array node)\<rparr>)
                      (put_page recipient_id
                         (recipient\<lparr>internal_array :=
                                      internal_array recipient @ drop keep (internal_array node)\<rparr>) t)))))"

text \<open>\<open>Split\<close> returns the page id of the new node.\<close>

definition Split ::
  "page_id_t \<Rightarrow> ('k, 'v) BPlusTree \<Rightarrow> tree_error + (page_id_t \<times> ('k, 'v) BPlusTree)" where
  "Split node_id t =
     and_then (NewPage t) (\<lambda>(new_page_id, t1).
       and_then (FetchPage node_id t1) (\<lambda>node.
         (let new_node = (if IsLeafPage node
                          then Leaf_Init new_page_id (parent_page_id node) (max_size node)
                          else Internal_Init new_page_id (parent_page_id node) (max_size node))
          in and_then (MoveHalfTo node_id new_page_id (put_page new_page_id new_node t1))
               (\<lambda>t2. Inr (new_page_id, t2)))))"

fun InsertIntoParent ::
  "nat \<Rightarrow> page_id_t \<Rightarrow> 'k::{linorder,zero} \<Rightarrow> page_id_t \<Rightarrow> ('k, 'v) BPlusTree \<Rightarrow>
     tree_error + ('k, 'v) BPlusTree" where
  "InsertIntoParent 0 old_id key new_id t = Inl OUT_OF_FUEL"
| "InsertIntoParent (Suc n) old_id key new_id t =
     and_then (FetchPage old_id t) (\<lambda>old_node.
       if IsRootPage old_node
       then
         and_then (NewPage t) (\<lambda>(pid, t1).
           (let t2 = t1\<lparr>root_page_id := pid\<rparr>;
                root = PopulateNewRoot old_id key new_id
                         (Internal_Init (root_page_id t2) INVALID_PAGE_ID (internal_max_size t2))
            in and_then (adopt [old_id, new_id] (root_page_id t2) (put_page pid root t2))
                 (\<lambda>t3. UnlockAncestors (UpdateRootPageId t3))))
       else
         (let parent_id = parent_page_id old_node
          in and_then (FetchPage parent_id t) (\<lambda>parent.
               (let parent1 = InsertNodeAfter old_id key new_id parent;
                    t1 = put_page parent_id parent1 t
                in if GetSize parent1 = internal_max_size t1
                   then
                     and_then (Split parent_id t1) (\<lambda>(new_page_id, t2).
                       and_then (FetchPage new_page_id t2) (\<lambda>new_page.
                         and_then (from_slot (KeyAt 0 new_page)) (\<lambda>up_key.
                           InsertIntoParent n parent_id up_key new_page_id t2)))
                   else UnlockAncestors t1))))"

definition InsertIntoLeaf ::
  "nat \<Rightarrow> 'k::{linorder,zero} \<Rightarrow> 'v \<Rightarrow> ('k, 'v) BPlusTree \<Rightarrow>
     tree_error + (bool \<times> ('k, 'v) BPlusTree)" where
  "InsertIntoLeaf n key val t =
     and_then (FindLeafPage n key False INSERT t) (\<lambda>(leaf_id, t1).
       and_then (FetchPage leaf_id t1) (\<lambda>leaf.
         if Leaf_Lookup key leaf \<noteq> None
         then and_then (UnlockAncestors t1) (\<lambda>t2. Inr (False, t2))
         else
           (let leaf1 = Leaf_Insert key val leaf;
                t2 = put_page leaf_id leaf1 t1
            in and_then
                 (if GetSize leaf1 = leaf_max_size t2
                  then
                    and_then (Split leaf_id t2) (\<lambda>(new_id, t3).
                      and_then (FetchPage new_id t3) (\<lambda>new_leaf.
                        and_then (from_slot (KeyAt 0 new_leaf)) (\<lambda>up_key.
                          InsertIntoParent n leaf_id up_key new_id t3)))
                  else Inr t2)
                 (\<lambda>t4. and_then (UnlockAncestors t4) (\<lambda>t5. Inr (True, t5))))))"

definition Insert ::
  "nat \<Rightarrow> 'k::{linorder,zero} \<Rightarrow> 'v \<Rightarrow> ('k, 'v) BPlusTree \<Rightarrow>
     tree_error + (bool \<times> ('k, 'v) BPlusTree)" where
  "Insert n key val t =
     and_then (lock_root t) (\<lambda>t1.
       if \<not> IsEmpty t1 then InsertIntoLeaf n key val t1
       else and_then (StartNewTree key val t1) (\<lambda>t2. Inr (True, t2)))"

subsection \<open>Removal\<close>

text \<open>
  Modelled from the spec: \<open>MoveAllTo\<close> appends the pairs of a node to its left
  neighbour; for internal nodes the separator key of the parent comes down into slot 0
  first and the children are adopted, for leaves the neighbour takes over the link to
  the next leaf. \<open>MoveFirstToEndOf\<close> moves the first pair of a node to the end of its
  left neighbour and \<open>MoveLastToFrontOf\<close> the last pair to the front of its right
  neighbour; for internal nodes the pair that arrives, respectively the pair that was in
  front, takes the separator key, and the child that moves is adopted.
\<close>

definition MoveAllTo ::
  "page_id_t \<Rightarrow> page_id_t \<Rightarrow> 'k \<Rightarrow> ('k, 'v) BPlusTree \<Rightarrow> tree_error + ('k, 'v) BPlusTree" where
  "MoveAllTo node_id recipient_id middle_key t =
     and_then (FetchPage node_id t) (\<lambda>node.
       and_then (FetchPage recipient_id t) (\<lambda>recipient.
         if IsLeafPage node
         then Inr (put_page node_id (node\<lparr>leaf_array := []\<rparr>)
                    (put_page recipient_id
                       (recipient\<lparr>leaf_array := leaf_array recipient @ leaf_array node,
                                  next_leaf_page_id := next_leaf_page_id node\<rparr>) t))
         else
           (let moved = (case internal_array node of
                           [] \<Rightarrow> []
                         | (k, c) # xs \<Rightarrow> (middle_key, c) # xs)
            in adopt (map snd moved) recipient_id
                 (put_page node_id (node\<lparr>internal_array := []\<rparr>)
                   (put_page recipient_id
                      (recipient\<lparr>internal_array := internal_array recipient @ moved\<rparr>) t)))))"

definition MoveFirstToEndOf ::
  "page_id_t \<Rightarrow> page_id_t \<Rightarrow> 'k \<Rightarrow> ('k, 'v) BPlusTree \<Rightarrow> tree_error + ('k, 'v) BPlusTree" where
  "MoveFirstToEndOf node_id recipient_id middle_key t =
     and_then (FetchPage node_id t) (\<lambda>node.
       and_then (FetchPage recipient_id t) (\<lambda>recipient.
         if IsLeafPage node
         then
           (case leaf_array node of
              [] \<Rightarrow> Inl BAD_PAGE
            | x # xs \<Rightarrow>
                Inr (put_page node_id (node\<lparr>leaf_array := xs\<rparr>)
                      (put_page recipient_id
                         (recipient\<lparr>leaf_array := leaf_array recipient @ [x]\<rparr>) t)))
         else
           (case internal_array node of
              [] \<Rightarrow> Inl BAD_PAGE
            | (k, c) # xs \<Rightarrow>
                adopt [c] recipient_id
                  (put_page node_id (node\<lparr>internal_array := xs\<rparr>)
                    (put_page recipient_id
                       (recipient\<lparr>internal_array := internal_array recipient @ [(middle_key, c)]\<rparr>)
                       t)))))"

definition MoveLastToFrontOf ::
  "page_id_t \<Rightarrow> page_id_t \<Rightarrow> 'k \<Rightarrow> ('k, 'v) BPlusTree \<Rightarrow> tree_error + ('k, 'v) BPlusTree" where
  "MoveLastToFrontOf node_id recipient_id middle_key t =
     and_then (FetchPage node_id t) (\<lambda>node.
       and_then (FetchPage recipient_id t) (\<lambda>recipient.
         if IsLeafPage node
         then
           (if leaf_array node = [] then Inl BAD_PAGE
            else
              Inr (put_page node_id (node\<lparr>leaf_array := butlast (leaf_array node)\<rparr>)
                    (put_page recipient_id
                       (recipient\<lparr>leaf_array := last (leaf_array node) # leaf_array recipient\<rparr>) t)))
         else
           (if internal_array node = [] then Inl BAD_PAGE
            else
              (let front = (case internal_array recipient of
                              [] \<Rightarrow> []
                            | (k, c) # xs \<Rightarrow> (middle_key, c) # xs)
               in adopt [snd (last (internal_array node))] recipient_id
                    (put_page node_id (node\<lparr>internal_array := butlast (internal_array node)\<rparr>)
                      (put_page recipient_id
                         (recipient\<lparr>internal_array := last (internal_array node) # front\<rparr>) t))))))"

text \<open>
  \<open>AdjustRoot\<close> returns whether the old root page is to be deleted.
  \<open>RemoveAndReturnOnlyChild\<close> empties the root and returns the child of slot 0.
\<close>

definition AdjustRoot ::
  "page_id_t \<Rightarrow> ('k, 'v) BPlusTree \<Rightarrow> tree_error + (bool \<times> ('k, 'v) BPlusTree)" where
  "AdjustRoot old_root_id t =
     and_then (FetchPage old_root_id t) (\<lambda>old_root_node.
       if \<not> IsLeafPage old_root_node \<and> GetSize old_root_node = 1
       then
         and_then (from_slot (ValueAt 0 old_root_node)) (\<lambda>child_id.
           (let t1 = (put_page old_root_id (old_root_node\<lparr>internal_array := []\<rparr>) t)
                       \<lparr>root_page_id := child_id\<rparr>
            in and_then (adopt [child_id] INVALID_PAGE_ID t1)
                 (\<lambda>t2. Inr (True, UpdateRootPageId t2))))
       else if IsLeafPage old_root_node \<and> GetSize old_root_node = 0
       then Inr (True, UpdateRootPageId (t\<lparr>root_page_id := INVALID_PAGE_ID\<rparr>))
       else Inr (False, t))"

definition Redistribute ::
  "page_id_t \<Rightarrow> page_id_t \<Rightarrow> int \<Rightarrow> ('k::zero, 'v) BPlusTree \<Rightarrow>
     tree_error + ('k, 'v) BPlusTree" where
  "Redistribute neighbor_id node_id index t =
     and_then (FetchPage node_id t) (\<lambda>node.
       (let parent_id = parent_page_id node;
            middle_index = (if index = 0 then 1 else index)
        in and_then (FetchPage parent_id t) (\<lambda>parent.
             and_then (if \<not> IsLeafPage node then from_slot (KeyAt middle_index parent)
                       else Inr 0)
               (\<lambda>middle_key.
                  and_then (if index = 0 then MoveFirstToEndOf neighbor_id node_id middle_key t
                            else MoveLastToFrontOf neighbor_id node_id middle_key t)
                    (\<lambda>t1.
                       and_then (FetchPage (if index = 0 then neighbor_id else node_id) t1)
                         (\<lambda>first.
                            and_then (from_slot (KeyAt 0 first)) (\<lambda>new_key.
                              and_then (FetchPage parent_id t1) (\<lambda>parent1.
                                and_then (from_slot (SetKeyAt middle_index new_key parent1))
                                  (\<lambda>parent2. Inr (put_page parent_id parent2 t1))))))))))"

text \<open>
  \<open>CoalesceOrRedistribute\<close> and \<open>Coalesce\<close> call each other. \<open>Coalesce\<close> gets the page
  ids of the sibling, of the node and of the parent; its result is the result of the
  recursive call on the parent, which \<open>CoalesceOrRedistribute\<close> ignores. For leaves the
  variable \<open>middle_key\<close> is passed on as it was declared, here \<open>0\<close>; the leaf functions
  do not use it. \<open>DeletePage\<close> is taken to succeed.
\<close>

fun CoalesceOrRedistribute ::
    "nat \<Rightarrow> page_id_t \<Rightarrow> ('k::zero, 'v) BPlusTree \<Rightarrow>
       tree_error + (bool \<times> ('k, 'v) BPlusTree)"
  and Coalesce ::
    "nat \<Rightarrow> page_id_t \<Rightarrow> page_id_t \<Rightarrow> page_id_t \<Rightarrow> int \<Rightarrow> ('k, 'v) BPlusTree \<Rightarrow>
       tree_error + (bool \<times> ('k, 'v) BPlusTree)" where
  "CoalesceOrRedistribute 0 node_id t = Inl OUT_OF_FUEL"
| "CoalesceOrRedistribute (Suc n) node_id t =
     and_then (FetchPage node_id t) (\<lambda>node.
       if IsRootPage node then AdjustRoot node_id t
       else
         and_then (FetchPage (parent_page_id node) t) (\<lambda>parent.
           (let index = ValueIndex node_id parent;
                sibling_index = (if index > 0 then index - 1 else 1)
            in and_then (from_slot (ValueAt sibling_index parent)) (\<lambda>sibling_id.
                 and_then (FetchPage sibling_id t) (\<lambda>sibling.
                   if GetSize sibling + GetSize node \<le> max_size node - 1
                   then and_then (Coalesce n sibling_id node_id (parent_page_id node) index t)
                          (\<lambda>(parent_deleted, t1). Inr (True, t1))
                   else and_then (Redistribute sibling_id node_id index t)
                          (\<lambda>t1. Inr (False, t1)))))))"
| "Coalesce n neighbor_id node_id parent_id index t =
     (let child_id = (if index = 0 then neighbor_id else node_id);
          neighbor_child_id = (if index = 0 then node_id else neighbor_id);
          middle_index = (if index = 0 then 1 else index)
      in and_then (FetchPage child_id t) (\<lambda>child.
           and_then (FetchPage parent_id t) (\<lambda>parent_node.
             and_then (if \<not> IsLeafPage child then from_slot (KeyAt middle_index parent_node)
                       else Inr 0)
               (\<lambda>middle_key.
                  and_then (MoveAllTo child_id neighbor_child_id middle_key t) (\<lambda>t1.
                    (let t2 = DeletePage child_id t1
                     in and_then (FetchPage parent_id t2) (\<lambda>parent1.
                          CoalesceOrRedistribute n parent_id
                            (put_page parent_id (Internal_Remove middle_index parent1) t2))))))))"

definition Remove ::
  "nat \<Rightarrow> 'k::{linorder,zero} \<Rightarrow> ('k, 'v) BPlusTree \<Rightarrow> tree_error + ('k, 'v) BPlusTree" where
  "Remove n key t =
     and_then (lock_root t) (\<lambda>t1.
       if IsEmpty t1 then unlock_root t1
       else
         and_then (FindLeafPage n key False REMOVE t1) (\<lambda>(leaf_id, t2).
           and_then (FetchPage leaf_id t2) (\<lambda>leaf.
             (let leaf1 = Leaf_RemoveAndDeleteRecord key leaf;
                  t3 = put_page leaf_id leaf1 t2
              in and_then
                   (if GetSize leaf1 < GetMinSize leaf1
                    then and_then (CoalesceOrRedistribute n leaf_id t3) (\<lambda>(deleted, t4).
                           Inr (if deleted
                                then t4\<lparr>deleted_page_set := insert leaf_id (deleted_page_set t4)\<rparr>
                                else t4))
                    else Inr t3)
                   UnlockAncestors))))"


section \<open>Index iterator (index_iterator.cpp)\<close>

text \<open>
  The members \<open>page_\<close>, \<open>index_\<close> and \<open>page_id_\<close> of the iterator. The page pointer is
  the page id of the page it points to, \<open>None\<close> for the null pointer. \<open>tree_end\<close> is
  the iterator that \<open>end()\<close> of the tree constructs. \<open>increment\<close> is \<open>operator++\<close>; it
  returns the iterator, which the source updates in place.
\<close>

record IndexIterator =
  it_page :: "page_id_t option"
  it_index :: int
  it_page_id :: page_id_t

definition IndexIterator_new :: "page_id_t option \<Rightarrow> int \<Rightarrow> IndexIterator" where
  "IndexIterator_new pg i =
     \<lparr>it_page = pg, it_index = i,
      it_page_id = (case pg of Some p \<Rightarrow> p | None \<Rightarrow> INVALID_PAGE_ID)\<rparr>"

definition tree_end :: IndexIterator where
  "tree_end = IndexIterator_new None 0"

definition isEnd :: "IndexIterator \<Rightarrow> bool" where
  "isEnd it = (it_page_id it = INVALID_PAGE_ID)"

definition iterator_eq :: "IndexIterator \<Rightarrow> IndexIterator \<Rightarrow> bool" where
  "iterator_eq it itr = (it_page_id itr = it_page_id it \<and> it_index itr = it_index it)"

definition increment :: "IndexIterator \<Rightarrow> ('k, 'v) BPlusTree \<Rightarrow> tree_error + IndexIterator" where
  "increment it t =
     (if isEnd it then Inr it
      else
        and_then (from_slot (it_page it)) (\<lambda>p.
          and_then (FetchPage p t) (\<lambda>leaf.
            if it_index it < GetSize leaf - 1 then Inr (it\<lparr>it_index := it_index it + 1\<rparr>)
            else
              (let nxt = next_leaf_page_id leaf
               in and_then
                    (if nxt \<noteq> INVALID_PAGE_ID
                     then and_then (FetchPage nxt t) (\<lambda>next_leaf. Inr (Some nxt))
                     else Inr None)
                    (\<lambda>pg. Inr \<lparr>it_page = pg, it_index = 0, it_page_id = nxt\<rparr>)))))"

section \<open>Example trees\<close>

text \<open>
  \<open>tree_ex\<close> is the tree that the insertions of the keys 5, 3, 8, 1, 4, in this order,
  build from the empty tree with maximal sizes 4: the leaves in the pages 1 and 2 under
  the root in page 3.
\<close>

definition BPlusTree_new :: "int \<Rightarrow> int \<Rightarrow> ('k, 'v) BPlusTree" where
  "BPlusTree_new leaf_size internal_size =
     \<lparr>root_page_id = INVALID_PAGE_ID, leaf_max_size = leaf_size,
      internal_max_size = internal_size, root_latch = False, tree_pages = Map.empty,
      next_new_page_id = 1, pool_exhausted = False, header_record = None, page_set = [],
      deleted_page_set = {}\<rparr>"

fun insert_all ::
  "nat \<Rightarrow> ('k::{linorder,zero} \<times> 'v) list \<Rightarrow> ('k, 'v) BPlusTree \<Rightarrow>
     tree_error + ('k, 'v) BPlusTree" where
  "insert_all n [] t = Inr t"
| "insert_all n ((k, v) # kvs) t = and_then (Insert n k v t) (\<lambda>(b, t1). insert_all n kvs t1)"

definition leaf_ex :: "page_id_t \<Rightarrow> page_id_t \<Rightarrow> (int \<times> nat) list \<Rightarrow> (int, nat) BPlusTreePage" where
  "leaf_ex pid nxt kvs =
     \<lparr>page_type = LEAF_PAGE, max_size = 4, parent_page_id = 3, tree_page_id = pid,
      next_leaf_page_id = nxt, leaf_array = kvs, internal_array = []\<rparr>"

definition root_ex :: "(int, nat) BPlusTreePage" where
  "root_ex =
     \<lparr>page_type = INTERNAL_PAGE, max_size = 4, parent_page_id = INVALID_PAGE_ID,
      tree_page_id = 3, next_leaf_page_id = 0, leaf_array = [],
      internal_array = [(0, 1), (5, 2)]\<rparr>"

definition tree_ex :: "(int, nat) BPlusTree" where
  "tree_ex =
     \<lparr>root_page_id = 3, leaf_max_size = 4, internal_max_size = 4, root_latch = False,
      tree_pages = [1 \<mapsto> leaf_ex 1 2 [(1, 10), (3, 30), (4, 40)],
                    2 \<mapsto> leaf_ex 2 INVALID_PAGE_ID [(5, 50), (8, 80)],
                    3 \<mapsto> root_ex],
      next_new_page_id = 4, pool_exhausted = False, header_record = Some 3, page_set = [],
      deleted_page_set = {}\<rparr>"

section \<open>What a descent for writing leaves behind\<close>

text \<open>
  \<open>latch_ok ps b\<close>: the page set \<open>ps\<close> of the transaction and the state \<open>b\<close> of the root
  latch fit, that is the latch is held exactly when the page set has the null pointer,
  and has it once. \<open>same_pages s t\<close>: the states \<open>s\<close> and \<open>t\<close> differ at most in the root
  latch and in the page set.
\<close>

fun latch_ok :: "page_id_t option list \<Rightarrow> bool \<Rightarrow> bool" where
  "latch_ok [] b = (\<not> b)"
| "latch_ok (None # ps) b = (b \<and> latch_ok ps False)"
| "latch_ok (Some p # ps) b = latch_ok ps b"

definition same_pages :: "('k, 'v) BPlusTree \<Rightarrow> ('k, 'v) BPlusTree \<Rightarrow> bool" where
  "same_pages s t =
     (root_page_id s = root_page_id t \<and> leaf_max_size s = leaf_max_size t \<and>
      internal_max_size s = internal_max_size t \<and> tree_pages s = tree_pages t \<and>
      next_new_page_id s = next_new_page_id t \<and> pool_exhausted s = pool_exhausted t \<and>
      header_record s = header_record t \<and> deleted_page_set s = deleted_page_set t)"
section \<open>Properties of the buffer pool\<close>

subsection \<open>The invariant and the example pools\<close>

lemma replacer_room:
  assumes "distinct xs" "list_all (\<lambda>f. 0 \<le> f \<and> f < int n) xs" "0 \<le> f" "f < int n" "f \<notin> set xs"
  shows "length xs < n"
proof -
  have "set xs \<subseteq> {0..<int n} - {f}" using assms by (auto simp: list_all_iff)
  then have "card (set xs) \<le> card ({0..<int n} - {f})" by (intro card_mono) auto
  also have "\<dots> < n" using assms by (simp add: card_Diff_singleton_if)
  finally show ?thesis using assms(1) by (simp add: distinct_card)
qed

lemma Unpin_evictable:
  assumes "bpm_inv bpm" "frame_ok bpm f"
  shows "f \<in> set (lru_list (Unpin f (replacer bpm)))"
proof (cases "f \<in> set (lru_list (replacer bpm))")
  case True
  then show ?thesis by (simp add: Unpin_def)
next
  case False
  have "length (lru_list (replacer bpm)) < pool_size bpm"
    using assms False replacer_room[of "lru_list (replacer bpm)" "pool_size bpm" f]
    by (simp add: bpm_inv_def frame_ok_def[abs_def])
  then show ?thesis using assms by (simp add: Unpin_def Size_def bpm_inv_def)
qed

lemma bpm_ex_pinned_eval:
  "bpm_ex_pinned =
     \<lparr>pool_size = 1,
      pages = (\<lambda>_. Page_new)(0 := \<lparr>data = 7, page_id = 0, pin_count = 1, is_dirty = False\<rparr>),
      page_table = [0 \<mapsto> 0],
      free_list = [],
      replacer = \<lparr>num_pages = 1, lru_list = []\<rparr>,
      disk_manager = \<lparr>disk_pages = (\<lambda>_. 0), next_page_id = 1, io_log = [EvAllocate 0]\<rparr>\<rparr>"
  by (simp add: bpm_ex_pinned_def write_frame_def NewPageImpl_def BufferPoolManager_new_def
      GetVictimFrameId_def INVALID_PAGE_ID_def Page_new_def AllocatePage_def disk_ex_def
      Page_update_def LRUReplacer_new_def Pin_def Let_def)

lemma bpm_ex_eval:
  "bpm_ex =
     \<lparr>pool_size = 1,
      pages = (\<lambda>_. Page_new)(0 := \<lparr>data = 7, page_id = 0, pin_count = 0, is_dirty = True\<rparr>),
      page_table = [0 \<mapsto> 0],
      free_list = [],
      replacer = \<lparr>num_pages = 1, lru_list = [0]\<rparr>,
      disk_manager = \<lparr>disk_pages = (\<lambda>_. 0), next_page_id = 1, io_log = [EvAllocate 0]\<rparr>\<rparr>"
  by (simp add: bpm_ex_def bpm_ex_pinned_eval UnpinPageImpl_def Unpin_def Size_def Let_def)

lemma bpm_inv_ex_pinned: "bpm_inv bpm_ex_pinned"
  by (simp add: bpm_ex_pinned_eval bpm_inv_def frame_ok_def)

lemma frame_ok_upd [simp]:
  "frame_ok (bpm\<lparr>pages := p\<rparr>) = frame_ok bpm"
  "frame_ok (bpm\<lparr>page_table := pt\<rparr>) = frame_ok bpm"
  "frame_ok (bpm\<lparr>free_list := fl\<rparr>) = frame_ok bpm"
  "frame_ok (bpm\<lparr>replacer := r\<rparr>) = frame_ok bpm"
  "frame_ok (bpm\<lparr>disk_manager := dm\<rparr>) = frame_ok bpm"
  by (simp_all add: frame_ok_def fun_eq_iff)

lemma bpm_inv_new: "bpm_inv (BufferPoolManager_new n dm)"
  by (auto simp: bpm_inv_def BufferPoolManager_new_def LRUReplacer_new_def frame_ok_def list_all_iff)

lemma bpm_inv_victim:
  assumes "bpm_inv bpm" "GetVictimFrameId bpm = (f, bpm1)"
  shows "bpm_inv bpm1 \<and> pool_size bpm1 = pool_size bpm \<and> pages bpm1 = pages bpm \<and> page_table bpm1 = page_table bpm \<and>
         disk_manager bpm1 = disk_manager bpm \<and>
         (f \<noteq> INVALID_PAGE_ID \<longrightarrow> frame_ok bpm f)"
  using assms
  by (auto simp: bpm_inv_def GetVictimFrameId_def Victim_def Size_def INVALID_PAGE_ID_def frame_ok_def
      list_all_iff distinct_butlast
      split: list.splits if_splits dest!: in_set_butlastD)

lemma bpm_inv_Pin: "bpm_inv bpm \<Longrightarrow> bpm_inv (bpm\<lparr>replacer := Pin f (replacer bpm)\<rparr>)"
  by (auto simp: bpm_inv_def Pin_def list_all_iff dest: notin_set_remove1)

lemma bpm_inv_Unpin: "bpm_inv bpm \<Longrightarrow> frame_ok bpm f \<Longrightarrow> bpm_inv (bpm\<lparr>replacer := Unpin f (replacer bpm)\<rparr>)"
  by (auto simp: bpm_inv_def Unpin_def list_all_iff)

lemma bpm_inv_UnpinPageImpl: "bpm_inv bpm \<Longrightarrow> bpm_inv (snd (UnpinPageImpl pid dirty bpm))"
  by (auto simp: bpm_inv_def UnpinPageImpl_def Unpin_def Let_def list_all_iff split: option.splits)

lemma bpm_inv_FlushPageImpl: "bpm_inv bpm \<Longrightarrow> bpm_inv (snd (FlushPageImpl pid bpm))"
  by (auto simp: bpm_inv_def FlushPageImpl_def Let_def list_all_iff split: option.splits)

lemma bpm_inv_DeletePageImpl: "bpm_inv bpm \<Longrightarrow> bpm_inv (snd (DeletePageImpl pid bpm))"
  by (auto simp: bpm_inv_def DeletePageImpl_def Let_def list_all_iff Page_update_def split: option.splits if_splits)

lemma bpm_inv_FetchPageImpl:
  assumes "bpm_inv bpm" shows "bpm_inv (snd (FetchPageImpl pid bpm))"
proof (cases "page_table bpm pid")
  case (Some f)
  then show ?thesis using assms
    by (auto simp: bpm_inv_def FetchPageImpl_def Pin_def Let_def list_all_iff dest: notin_set_remove1)
next
  case None
  obtain f bpm1 where v: "GetVictimFrameId bpm = (f, bpm1)" by fastforce
  note i = bpm_inv_victim[OF assms v]
  show ?thesis
  proof (cases "f = INVALID_PAGE_ID")
    case True
    then show ?thesis using None v i by (simp add: FetchPageImpl_def)
  next
    case False
    then have ok: "frame_ok bpm1 f" using i by (simp add: frame_ok_def)
    from i have "bpm_inv bpm1" by simp
    then show ?thesis using None v False ok
      by (auto simp: bpm_inv_def FetchPageImpl_def Pin_def Let_def list_all_iff ReadPage_def Page_update_def
          split: prod.splits dest: notin_set_remove1)
  qed
qed

lemma bpm_inv_NewPageImpl:
  assumes "bpm_inv bpm" shows "bpm_inv (snd (NewPageImpl bpm))"
proof -
  obtain f bpm1 where v: "GetVictimFrameId bpm = (f, bpm1)" by fastforce
  note i = bpm_inv_victim[OF assms v]
  show ?thesis
  proof (cases "f = INVALID_PAGE_ID")
    case True
    then show ?thesis using v i by (simp add: NewPageImpl_def)
  next
    case False
    then have ok: "frame_ok bpm1 f" using i by (simp add: frame_ok_def)
    from i have "bpm_inv bpm1" by simp
    then show ?thesis using v False ok
      by (auto simp: bpm_inv_def NewPageImpl_def Pin_def Let_def list_all_iff AllocatePage_def Page_update_def
          split: prod.splits dest: notin_set_remove1)
  qed
qed

lemma GetVictimFrameId_frames:
  "pages (snd (GetVictimFrameId bpm)) = pages bpm \<and>
   disk_manager (snd (GetVictimFrameId bpm)) = disk_manager bpm \<and>
   page_table (snd (GetVictimFrameId bpm)) = page_table bpm"
  by (simp add: GetVictimFrameId_def Victim_def split: list.splits)

lemma bpm_ex_facts:
  "page_table bpm_ex 0 = Some 0" "page_table bpm_ex 5 = None"
  "pin_count (pages bpm_ex 0) = 0" "is_dirty (pages bpm_ex 0)" "data (pages bpm_ex 0) = 7"
  "page_id (pages bpm_ex 0) = 0"
  "fst (GetVictimFrameId bpm_ex) = 0"
  "io_log (disk_manager bpm_ex) = [EvAllocate 0]"
  "next_page_id (disk_manager bpm_ex) = 1"
  "disk_pages (disk_manager bpm_ex) 0 = 0"
  by (simp_all add: bpm_ex_eval GetVictimFrameId_def Victim_def Size_def)

subsection \<open>C5: write-back of dirty frames\<close>

text \<open>
  Claim C5, as amended. When \<open>FetchPage\<close> misses or \<open>NewPage\<close> runs and a victim frame
  \<open>f\<close> is found, the requests sent to the disk are: first, exactly when \<open>f\<close> is dirty, a
  write of the frame's bytes under the page id the frame held, and only then the read of the
  requested page (respectively the allocation of the new page id); after a dirty victim's
  eviction the disk holds its bytes. \<open>DeletePage\<close> of a resident, unpinned page sends the
  deallocation only: the disk contents are unchanged and the frame's dirty flag is
  cleared, whether or not the frame was dirty.
\<close>

theorem write_back_before_reuse:
  fixes bpm :: "'d::zero BufferPoolManager"
  shows
  "(page_table bpm pid = None \<and> fst (GetVictimFrameId bpm) = f \<and> f \<noteq> INVALID_PAGE_ID \<longrightarrow>
      fst (FetchPageImpl pid bpm) = Some f \<and>
      io_log (disk_manager (snd (FetchPageImpl pid bpm))) =
        io_log (disk_manager bpm) @
          (if is_dirty (pages bpm f) then [EvWrite (page_id (pages bpm f)) (data (pages bpm f))] else []) @
          [EvRead pid] \<and>
      (is_dirty (pages bpm f) \<longrightarrow>
         disk_pages (disk_manager (snd (FetchPageImpl pid bpm))) (page_id (pages bpm f)) =
           data (pages bpm f))) \<and>
   (fst (GetVictimFrameId bpm) = f \<and> f \<noteq> INVALID_PAGE_ID \<longrightarrow>
      fst (NewPageImpl bpm) = Some (f, next_page_id (disk_manager bpm)) \<and>
      io_log (disk_manager (snd (NewPageImpl bpm))) =
        io_log (disk_manager bpm) @
          (if is_dirty (pages bpm f) then [EvWrite (page_id (pages bpm f)) (data (pages bpm f))] else []) @
          [EvAllocate (next_page_id (disk_manager bpm))] \<and>
      (is_dirty (pages bpm f) \<longrightarrow>
         disk_pages (disk_manager (snd (NewPageImpl bpm))) (page_id (pages bpm f)) =
           data (pages bpm f))) \<and>
   (page_table bpm pid = Some f \<and> pin_count (pages bpm f) \<le> 0 \<longrightarrow>
      fst (DeletePageImpl pid bpm) = True \<and>
      io_log (disk_manager (snd (DeletePageImpl pid bpm))) =
        io_log (disk_manager bpm) @ [EvDeallocate pid] \<and>
      disk_pages (disk_manager (snd (DeletePageImpl pid bpm))) = disk_pages (disk_manager bpm) \<and>
      is_dirty (pages (snd (DeletePageImpl pid bpm)) f) = False)"
proof -
  obtain v bpm1 where v: "GetVictimFrameId bpm = (v, bpm1)" by fastforce
  have same: "pages bpm1 = pages bpm" "disk_manager bpm1 = disk_manager bpm"
    using GetVictimFrameId_frames[of bpm] v by simp_all
  have a: "page_table bpm pid = None \<and> fst (GetVictimFrameId bpm) = f \<and> f \<noteq> INVALID_PAGE_ID \<longrightarrow>
      fst (FetchPageImpl pid bpm) = Some f \<and>
      io_log (disk_manager (snd (FetchPageImpl pid bpm))) =
        io_log (disk_manager bpm) @
          (if is_dirty (pages bpm f) then [EvWrite (page_id (pages bpm f)) (data (pages bpm f))] else []) @
          [EvRead pid] \<and>
      (is_dirty (pages bpm f) \<longrightarrow>
         disk_pages (disk_manager (snd (FetchPageImpl pid bpm))) (page_id (pages bpm f)) =
           data (pages bpm f))"
    using v same by (simp add: FetchPageImpl_def Let_def ReadPage_def WritePage_def)
  have b: "fst (GetVictimFrameId bpm) = f \<and> f \<noteq> INVALID_PAGE_ID \<longrightarrow>
      fst (NewPageImpl bpm) = Some (f, next_page_id (disk_manager bpm)) \<and>
      io_log (disk_manager (snd (NewPageImpl bpm))) =
        io_log (disk_manager bpm) @
          (if is_dirty (pages bpm f) then [EvWrite (page_id (pages bpm f)) (data (pages bpm f))] else []) @
          [EvAllocate (next_page_id (disk_manager bpm))] \<and>
      (is_dirty (pages bpm f) \<longrightarrow>
         disk_pages (disk_manager (snd (NewPageImpl bpm))) (page_id (pages bpm f)) =
           data (pages bpm f))"
    using v same by (simp add: NewPageImpl_def Let_def AllocatePage_def WritePage_def)
  have c: "page_table bpm pid = Some f \<and> pin_count (pages bpm f) \<le> 0 \<longrightarrow>
      fst (DeletePageImpl pid bpm) = True \<and>
      io_log (disk_manager (snd (DeletePageImpl pid bpm))) =
        io_log (disk_manager bpm) @ [EvDeallocate pid] \<and>
      disk_pages (disk_manager (snd (DeletePageImpl pid bpm))) = disk_pages (disk_manager bpm) \<and>
      is_dirty (pages (snd (DeletePageImpl pid bpm)) f) = False"
    by (simp add: DeletePageImpl_def Let_def DeallocatePage_def Page_update_def)
  show ?thesis using a b c by blast
qed

text \<open>
  The three parts at the example pool: page 0 is resident in frame 0, dirty with bytes
  \<open>7\<close> and unpinned.
\<close>

theorem write_back_before_reuse_witness:
  "page_table bpm_ex 5 = None \<and> fst (GetVictimFrameId bpm_ex) = 0 \<and> (0::int) \<noteq> INVALID_PAGE_ID \<and>
   is_dirty (pages bpm_ex 0) \<and> page_table bpm_ex 0 = Some 0 \<and> pin_count (pages bpm_ex 0) \<le> 0 \<and>
   io_log (disk_manager (snd (FetchPageImpl 5 bpm_ex))) = [EvAllocate 0, EvWrite 0 7, EvRead 5] \<and>
   disk_pages (disk_manager (snd (FetchPageImpl 5 bpm_ex))) 0 = 7 \<and>
   io_log (disk_manager (snd (NewPageImpl bpm_ex))) = [EvAllocate 0, EvWrite 0 7, EvAllocate 1] \<and>
   disk_pages (disk_manager (snd (NewPageImpl bpm_ex))) 0 = 7 \<and>
   io_log (disk_manager (snd (DeletePageImpl 0 bpm_ex))) = [EvAllocate 0, EvDeallocate 0]"
  using write_back_before_reuse[of bpm_ex 5 0] write_back_before_reuse[of bpm_ex 0 0] bpm_ex_facts
  by (simp add: INVALID_PAGE_ID_def)

text \<open>
  The claim as stated fails for \<open>DeletePage\<close>: deleting the dirty page 0 of the example
  pool succeeds, the only new disk request is the deallocation, and the disk still holds
  the old bytes \<open>0\<close> of page 0, not the frame's \<open>7\<close>.
\<close>

theorem delete_dirty_page_counterexample:
  "page_table bpm_ex 0 = Some 0 \<and> is_dirty (pages bpm_ex 0) \<and> data (pages bpm_ex 0) = 7 \<and>
   fst (DeletePageImpl 0 bpm_ex) = True \<and>
   page_table (snd (DeletePageImpl 0 bpm_ex)) 0 = None \<and>
   io_log (disk_manager (snd (DeletePageImpl 0 bpm_ex))) = io_log (disk_manager bpm_ex) @ [EvDeallocate 0] \<and>
   disk_pages (disk_manager (snd (DeletePageImpl 0 bpm_ex))) 0 = 0"
  by (simp add: bpm_ex_eval DeletePageImpl_def DeallocatePage_def Page_update_def Let_def)

subsection \<open>C8: \<open>UnpinPage\<close>\<close>

text \<open>
  Claim C8. In a well-formed pool, \<open>UnpinPageImpl pid dirty\<close> returns \<open>false\<close> exactly when
  \<open>pid\<close> is not resident or the pin count of its frame is 0, and then changes nothing.
  Otherwise it returns \<open>true\<close>, the frame's dirty flag becomes its old value or \<open>dirty\<close>
  (so a set flag stays set), the pin count drops by one, the frame's bytes and page id and
  every other frame, the page table, the free list and the disk are unchanged, and the
  replacer's \<open>Unpin\<close> is called exactly when the pin count has reached 0, after which the
  frame is in the replacer's list.
\<close>

theorem UnpinPageImpl_contract:
  fixes bpm :: "'d BufferPoolManager"
  assumes inv: "bpm_inv bpm"
  shows
    "((fst (UnpinPageImpl pid dirty bpm) = False) =
        (page_table bpm pid = None \<or>
         (\<exists>f. page_table bpm pid = Some f \<and> pin_count (pages bpm f) = 0))) \<and>
     (fst (UnpinPageImpl pid dirty bpm) = False \<longrightarrow> snd (UnpinPageImpl pid dirty bpm) = bpm) \<and>
     (\<forall>f. page_table bpm pid = Some f \<and> pin_count (pages bpm f) \<noteq> 0 \<longrightarrow>
         fst (UnpinPageImpl pid dirty bpm) = True \<and>
         is_dirty (pages (snd (UnpinPageImpl pid dirty bpm)) f) = (is_dirty (pages bpm f) \<or> dirty) \<and>
         pin_count (pages (snd (UnpinPageImpl pid dirty bpm)) f) = pin_count (pages bpm f) - 1 \<and>
         data (pages (snd (UnpinPageImpl pid dirty bpm)) f) = data (pages bpm f) \<and>
         page_id (pages (snd (UnpinPageImpl pid dirty bpm)) f) = page_id (pages bpm f) \<and>
         (\<forall>g. g \<noteq> f \<longrightarrow> pages (snd (UnpinPageImpl pid dirty bpm)) g = pages bpm g) \<and>
         replacer (snd (UnpinPageImpl pid dirty bpm)) =
           (if pin_count (pages bpm f) - 1 = 0 then Unpin f (replacer bpm) else replacer bpm) \<and>
         (pin_count (pages bpm f) - 1 = 0 \<longrightarrow>
            f \<in> set (lru_list (replacer (snd (UnpinPageImpl pid dirty bpm))))) \<and>
         page_table (snd (UnpinPageImpl pid dirty bpm)) = page_table bpm \<and>
         free_list (snd (UnpinPageImpl pid dirty bpm)) = free_list bpm \<and>
         disk_manager (snd (UnpinPageImpl pid dirty bpm)) = disk_manager bpm)"
proof -
  have pins: "0 \<le> pin_count (pages bpm f)" if "page_table bpm pid = Some f" for f
    using inv that by (simp add: bpm_inv_def)
  have ok: "frame_ok bpm f" if "page_table bpm pid = Some f" for f
    using inv that by (simp add: bpm_inv_def)
  have a: "(fst (UnpinPageImpl pid dirty bpm) = False) =
        (page_table bpm pid = None \<or>
         (\<exists>f. page_table bpm pid = Some f \<and> pin_count (pages bpm f) = 0))"
    using pins by (auto simp: UnpinPageImpl_def Let_def split: option.splits)
  have b: "fst (UnpinPageImpl pid dirty bpm) = False \<longrightarrow> snd (UnpinPageImpl pid dirty bpm) = bpm"
    by (auto simp: UnpinPageImpl_def Let_def split: option.splits)
  have c: "fst (UnpinPageImpl pid dirty bpm) = True \<and>
         is_dirty (pages (snd (UnpinPageImpl pid dirty bpm)) f) = (is_dirty (pages bpm f) \<or> dirty) \<and>
         pin_count (pages (snd (UnpinPageImpl pid dirty bpm)) f) = pin_count (pages bpm f) - 1 \<and>
         data (pages (snd (UnpinPageImpl pid dirty bpm)) f) = data (pages bpm f) \<and>
         page_id (pages (snd (UnpinPageImpl pid dirty bpm)) f) = page_id (pages bpm f) \<and>
         (\<forall>g. g \<noteq> f \<longrightarrow> pages (snd (UnpinPageImpl pid dirty bpm)) g = pages bpm g) \<and>
         replacer (snd (UnpinPageImpl pid dirty bpm)) =
           (if pin_count (pages bpm f) - 1 = 0 then Unpin f (replacer bpm) else replacer bpm) \<and>
         (pin_count (pages bpm f) - 1 = 0 \<longrightarrow>
            f \<in> set (lru_list (replacer (snd (UnpinPageImpl pid dirty bpm))))) \<and>
         page_table (snd (UnpinPageImpl pid dirty bpm)) = page_table bpm \<and>
         free_list (snd (UnpinPageImpl pid dirty bpm)) = free_list bpm \<and>
         disk_manager (snd (UnpinPageImpl pid dirty bpm)) = disk_manager bpm"
    if f: "page_table bpm pid = Some f" and nz: "pin_count (pages bpm f) \<noteq> 0" for f
  proof -
    have pos: "\<not> pin_count (pages bpm f) \<le> 0" using pins[OF f] nz by simp
    show ?thesis
      using f pos Unpin_evictable[OF inv ok[OF f]]
      by (simp add: UnpinPageImpl_def Let_def)
  qed
  show ?thesis using a b c by blast
qed

text \<open>The hypotheses hold at the example pool with page 0 pinned once.\<close>

theorem UnpinPageImpl_contract_witness:
  "bpm_inv bpm_ex_pinned \<and>
   page_table bpm_ex_pinned 0 = Some 0 \<and> pin_count (pages bpm_ex_pinned 0) = 1 \<and>
   fst (UnpinPageImpl 0 True bpm_ex_pinned) = True \<and>
   is_dirty (pages (snd (UnpinPageImpl 0 True bpm_ex_pinned)) 0) \<and>
   pin_count (pages (snd (UnpinPageImpl 0 True bpm_ex_pinned)) 0) = 0 \<and>
   0 \<in> set (lru_list (replacer (snd (UnpinPageImpl 0 True bpm_ex_pinned))))"
proof -
  have inv: "bpm_inv bpm_ex_pinned" by (rule bpm_inv_ex_pinned)
  have r: "page_table bpm_ex_pinned 0 = Some 0" "pin_count (pages bpm_ex_pinned 0) = 1"
    by (simp_all add: bpm_ex_pinned_eval)
  from UnpinPageImpl_contract[OF inv, of 0 True] r
  have "fst (UnpinPageImpl 0 True bpm_ex_pinned) = True \<and>
        is_dirty (pages (snd (UnpinPageImpl 0 True bpm_ex_pinned)) 0) \<and>
        pin_count (pages (snd (UnpinPageImpl 0 True bpm_ex_pinned)) 0) = 0 \<and>
        0 \<in> set (lru_list (replacer (snd (UnpinPageImpl 0 True bpm_ex_pinned))))"
    by auto
  with inv r show ?thesis by blast
qed

section \<open>Properties of the lock manager\<close>

subsection \<open>Evaluation of the example lock managers\<close>

lemmas lock_call_defs =
  LockShared_def LockShared_resume_def LockExclusive_def LockExclusive_resume_def
  LockUpgrade_def LockUpgrade_resume_def Unlock_def
  CheckShrinking_def CheckAborted_def IsAborted_def IsSharedLocked_def IsExclusiveLocked_def
  SetState_def lt_get_def LockRequestQueue_new_def emplace_def erase_def erase_at_def
  last_request_def LockManager_new_def txn_new_def Let_def

lemma lm_waiting_writer_eval:
  "lm_waiting_writer =
     \<lparr>lock_table =
        [((1, 0), \<lparr>request_queue =
                    [\<lparr>txn_id = 1, lock_mode = SHARED, granted = True\<rparr>,
                     \<lparr>txn_id = 2, lock_mode = EXCLUSIVE, granted = False\<rparr>],
                  reader_count = 1, writer_enter = False, upgrading = False\<rparr>)],
      txn_map = (\<lambda>_. txn_new REPEATABLE_READ)
        (1 := \<lparr>state = GROWING, isolation_level = REPEATABLE_READ,
               shared_lock_set = [(1, 0)], exclusive_lock_set = []\<rparr>),
      waits_for = (\<lambda>_. []), txns = [], on_stack_txns = [], has_cycle = False,
      wait_rids = Map.empty\<rparr>"
  by (simp add: lm_waiting_writer_def lock_call_defs)

lemma lm_readers_writer_eval:
  "lock_table lm_readers_writer =
     [((1, 0), \<lparr>request_queue =
                 [\<lparr>txn_id = 1, lock_mode = SHARED, granted = True\<rparr>,
                  \<lparr>txn_id = 2, lock_mode = EXCLUSIVE, granted = False\<rparr>,
                  \<lparr>txn_id = 3, lock_mode = SHARED, granted = True\<rparr>],
               reader_count = 2, writer_enter = False, upgrading = False\<rparr>)]"
  "waits_for lm_readers_writer = (\<lambda>_. [])"
  by (simp_all add: lm_readers_writer_def lm_waiting_writer_eval lock_call_defs)

lemma lm_deadlock_eval:
  "lm_deadlock =
     \<lparr>lock_table =
        [((1, 0), \<lparr>request_queue =
                    [\<lparr>txn_id = 3, lock_mode = EXCLUSIVE, granted = True\<rparr>,
                     \<lparr>txn_id = 2, lock_mode = EXCLUSIVE, granted = False\<rparr>,
                     \<lparr>txn_id = 1, lock_mode = EXCLUSIVE, granted = False\<rparr>],
                  reader_count = 0, writer_enter = True, upgrading = False\<rparr>),
         ((1, 1), \<lparr>request_queue =
                    [\<lparr>txn_id = 2, lock_mode = EXCLUSIVE, granted = True\<rparr>,
                     \<lparr>txn_id = 3, lock_mode = EXCLUSIVE, granted = False\<rparr>],
                  reader_count = 0, writer_enter = True, upgrading = False\<rparr>)],
      txn_map = (\<lambda>_. txn_new REPEATABLE_READ)
        (3 := \<lparr>state = GROWING, isolation_level = REPEATABLE_READ,
               shared_lock_set = [], exclusive_lock_set = [(1, 0)]\<rparr>,
         2 := \<lparr>state = GROWING, isolation_level = REPEATABLE_READ,
               shared_lock_set = [], exclusive_lock_set = [(1, 1)]\<rparr>),
      waits_for = (\<lambda>_. []), txns = [], on_stack_txns = [], has_cycle = False,
      wait_rids = Map.empty\<rparr>"
  by (simp add: lm_deadlock_def lock_call_defs)

lemma lm_deadlock_graph_eval:
  "lm_deadlock_graph =
     lm_deadlock\<lparr>waits_for := (\<lambda>_. [])(2 := [3], 1 := [3], 3 := [2]),
                 txns := [1, 2, 3],
                 wait_rids := [2 \<mapsto> (1, 0), 1 \<mapsto> (1, 0), 3 \<mapsto> (1, 1)]\<rparr>"
  by (simp add: lm_deadlock_graph_def lm_deadlock_eval scan_queue_def AddEdge_def ordset_insert_def Let_def)

lemma lm_two_shared_eval:
  "lm_two_shared =
     \<lparr>lock_table =
        [((1, 0), \<lparr>request_queue = [\<lparr>txn_id = 1, lock_mode = SHARED, granted = True\<rparr>],
                  reader_count = 1, writer_enter = False, upgrading = False\<rparr>),
         ((1, 1), \<lparr>request_queue = [\<lparr>txn_id = 1, lock_mode = SHARED, granted = True\<rparr>],
                  reader_count = 1, writer_enter = False, upgrading = False\<rparr>)],
      txn_map = (\<lambda>_. txn_new REPEATABLE_READ)
        (1 := \<lparr>state = GROWING, isolation_level = REPEATABLE_READ,
               shared_lock_set = [(1, 0), (1, 1)], exclusive_lock_set = []\<rparr>),
      waits_for = (\<lambda>_. []), txns = [], on_stack_txns = [], has_cycle = False,
      wait_rids = Map.empty\<rparr>"
  by (simp add: lm_two_shared_def lock_call_defs)

lemma lm_shrinking_eval:
  "lm_shrinking =
     \<lparr>lock_table =
        [((1, 0), \<lparr>request_queue = [],
                  reader_count = 0, writer_enter = False, upgrading = False\<rparr>),
         ((1, 1), \<lparr>request_queue = [\<lparr>txn_id = 1, lock_mode = SHARED, granted = True\<rparr>],
                  reader_count = 1, writer_enter = False, upgrading = False\<rparr>)],
      txn_map = (\<lambda>_. txn_new REPEATABLE_READ)
        (1 := \<lparr>state = SHRINKING, isolation_level = REPEATABLE_READ,
               shared_lock_set = [(1, 1)], exclusive_lock_set = []\<rparr>),
      waits_for = (\<lambda>_. []), txns = [], on_stack_txns = [], has_cycle = False,
      wait_rids = Map.empty\<rparr>"
  by (simp add: lm_shrinking_def lm_two_shared_eval lock_call_defs)

lemma lm_cross_wait_before_eval:
  "lm_cross_wait_before =
     \<lparr>lock_table =
        [((1, 0), \<lparr>request_queue = [\<lparr>txn_id = 1, lock_mode = EXCLUSIVE, granted = True\<rparr>],
                  reader_count = 0, writer_enter = True, upgrading = False\<rparr>),
         ((1, 1), \<lparr>request_queue =
                    [\<lparr>txn_id = 2, lock_mode = EXCLUSIVE, granted = True\<rparr>,
                     \<lparr>txn_id = 1, lock_mode = SHARED, granted = False\<rparr>],
                  reader_count = 0, writer_enter = True, upgrading = False\<rparr>)],
      txn_map = (\<lambda>_. txn_new REPEATABLE_READ)
        (1 := \<lparr>state = GROWING, isolation_level = REPEATABLE_READ,
               shared_lock_set = [], exclusive_lock_set = [(1, 0)]\<rparr>,
         2 := \<lparr>state = GROWING, isolation_level = REPEATABLE_READ,
               shared_lock_set = [], exclusive_lock_set = [(1, 1)]\<rparr>),
      waits_for = (\<lambda>_. []), txns = [], on_stack_txns = [], has_cycle = False,
      wait_rids = Map.empty\<rparr>"
  by (simp add: lm_cross_wait_before_def lock_call_defs)

lemma lm_cross_wait_eval:
  "lm_cross_wait =
     lm_cross_wait_before\<lparr>lock_table :=
        [((1, 0), \<lparr>request_queue =
                    [\<lparr>txn_id = 1, lock_mode = EXCLUSIVE, granted = True\<rparr>,
                     \<lparr>txn_id = 2, lock_mode = SHARED, granted = False\<rparr>],
                  reader_count = 0, writer_enter = True, upgrading = False\<rparr>),
         ((1, 1), \<lparr>request_queue =
                    [\<lparr>txn_id = 2, lock_mode = EXCLUSIVE, granted = True\<rparr>,
                     \<lparr>txn_id = 1, lock_mode = SHARED, granted = False\<rparr>],
                  reader_count = 0, writer_enter = True, upgrading = False\<rparr>)]\<rparr>"
  by (simp add: lm_cross_wait_def lm_cross_wait_before_eval lock_call_defs)

lemma round_cross_wait:
  "map_option fst (RunCycleDetection_round 3 3 lm_cross_wait) = Some [2]"
  "txn_map lm_cross_wait_detected 2 =
     \<lparr>state = ABORTED, isolation_level = REPEATABLE_READ,
      shared_lock_set = [], exclusive_lock_set = [(1, 1)]\<rparr>"
  "lock_table lm_cross_wait_detected = lock_table lm_cross_wait"
  unfolding lm_cross_wait_detected_def RunCycleDetection_round_def
  by (simp_all add: HasCycle_def AbortTransaction_def RemoveEdge_def SetState_def lt_get_def
        scan_queue_def AddEdge_def
        lm_cross_wait_eval lm_cross_wait_before_eval ordset_insert_def erase_def txn_new_def Let_def
        numeral_eq_Suc)

subsection \<open>C3: the edges of the wait-for graph\<close>

lemma add_edges_waits_for:
  "set (waits_for (add_edges t1 grants lm) a) =
     (if a = t1 then set (waits_for lm a) \<union> set grants else set (waits_for lm a))"
  by (induction grants arbitrary: lm) (auto simp: AddEdge_def Let_def)

lemma scan_waiting_waits_for:
  "set (waits_for (scan_waiting rid grants rs lm) a) =
     (if a \<in> txn_id ` set rs then set (waits_for lm a) \<union> set grants else set (waits_for lm a))"
  by (induction rs arbitrary: lm) (auto simp: add_edges_waits_for)

lemma build_graph_waits_for:
  "(t2 \<in> set (waits_for (build_graph t lm) t1)) =
     (t2 \<in> set (waits_for lm t1) \<or>
      (\<exists>(rid, queue) \<in> set t.
          t2 \<in> txn_id ` set (takeWhile granted (request_queue queue)) \<and>
          t1 \<in> txn_id ` set (dropWhile granted (request_queue queue))))"
proof (induction t arbitrary: lm)
  case Nil
  then show ?case by simp
next
  case (Cons e t)
  obtain rid queue where e: "e = (rid, queue)" by (cases e)
  show ?case
    unfolding e build_graph.simps Cons.IH
    by (auto simp: scan_queue_def scan_waiting_waits_for)
qed

lemma waits_behind_all_granted:
  "list_all granted rq \<Longrightarrow> \<not> waits_behind rq t1 t2"
  by (induction rq) (auto simp: list_all_iff)

lemma waits_behind_none_granted:
  "list_all (\<lambda>r. \<not> granted r) rq \<Longrightarrow> \<not> waits_behind rq t1 t2"
  by (induction rq) auto

lemma waits_behind_granted_first:
  "granted_first rq \<Longrightarrow>
     waits_behind rq t1 t2 =
       (t2 \<in> txn_id ` set (takeWhile granted rq) \<and> t1 \<in> txn_id ` set (dropWhile granted rq))"
proof (induction rq)
  case Nil
  then show ?case by simp
next
  case (Cons r rs)
  show ?case
  proof (cases "granted r")
    case True
    then have gf: "granted_first rs" using Cons.prems by (simp add: granted_first_def)
    have dw: "\<not> granted x" if "x \<in> set (dropWhile granted rs)" for x
      using gf that by (simp add: granted_first_def list_all_iff)
    have ex: "(\<exists>r' \<in> set rs. \<not> granted r' \<and> txn_id r' = t1) = (t1 \<in> txn_id ` set (dropWhile granted rs))"
    proof
      assume "\<exists>r' \<in> set rs. \<not> granted r' \<and> txn_id r' = t1"
      then obtain r' where r': "r' \<in> set rs" "\<not> granted r'" "txn_id r' = t1" by blast
      have "r' \<in> set (takeWhile granted rs @ dropWhile granted rs)" using r'(1) by simp
      then have "r' \<in> set (takeWhile granted rs) \<or> r' \<in> set (dropWhile granted rs)"
        by (simp only: set_append Un_iff)
      moreover have "r' \<notin> set (takeWhile granted rs)"
        using r'(2) set_takeWhileD[of r' granted rs] by auto
      ultimately have "r' \<in> set (dropWhile granted rs)" by blast
      then show "t1 \<in> txn_id ` set (dropWhile granted rs)" using r'(3) by blast
    next
      assume "t1 \<in> txn_id ` set (dropWhile granted rs)"
      then obtain x where x: "x \<in> set (dropWhile granted rs)" "txn_id x = t1" by blast
      have "x \<in> set rs" using x(1) by (rule set_dropWhileD)
      then show "\<exists>r' \<in> set rs. \<not> granted r' \<and> txn_id r' = t1" using dw[OF x(1)] x(2) by blast
    qed
    have l: "waits_behind (r # rs) t1 t2 =
               ((txn_id r = t2 \<and> (\<exists>r' \<in> set rs. \<not> granted r' \<and> txn_id r' = t1)) \<or>
                waits_behind rs t1 t2)"
      using True by simp
    have r1: "set (takeWhile granted (r # rs)) = insert r (set (takeWhile granted rs))"
      using True by simp
    have r2: "dropWhile granted (r # rs) = dropWhile granted rs"
      using True by simp
    show ?thesis unfolding l r1 r2 Cons.IH[OF gf] ex by blast
  next
    case False
    then have "list_all (\<lambda>r. \<not> granted r) (r # rs)" using Cons.prems by (simp add: granted_first_def)
    then have "\<not> waits_behind (r # rs) t1 t2" by (rule waits_behind_none_granted)
    then show ?thesis using False by simp
  qed
qed

text \<open>
  What the construction computes: there is an edge \<open>t1 \<rightarrow> t2\<close> exactly when the edge was
  there before or, in the queue of some record id, \<open>t2\<close> has a request in the leading run
  of granted requests and \<open>t1\<close> has a request, granted or not, behind that run. When in no
  queue a granted request stands behind one that is not granted, these are the edges from
  the requests that are not granted to the granted requests ahead of them.
\<close>

lemma build_graph_edges:
  "((t2 \<in> set (waits_for (build_graph (lock_table lm) lm) t1)) =
      (t2 \<in> set (waits_for lm t1) \<or>
       (\<exists>(rid, queue) \<in> set (lock_table lm).
          t2 \<in> txn_id ` set (takeWhile granted (request_queue queue)) \<and>
          t1 \<in> txn_id ` set (dropWhile granted (request_queue queue))))) \<and>
   (waits_for lm = (\<lambda>_. []) \<and>
    list_all (\<lambda>(rid, queue). granted_first (request_queue queue)) (lock_table lm) \<longrightarrow>
      (t2 \<in> set (waits_for (build_graph (lock_table lm) lm) t1)) =
        spec_edge (lock_table lm) t1 t2)"
proof -
  have "(\<exists>(rid, queue) \<in> set (lock_table lm).
          t2 \<in> txn_id ` set (takeWhile granted (request_queue queue)) \<and>
          t1 \<in> txn_id ` set (dropWhile granted (request_queue queue))) =
        spec_edge (lock_table lm) t1 t2"
    if wf: "list_all (\<lambda>(rid, queue). granted_first (request_queue queue)) (lock_table lm)"
  proof -
    have "waits_behind (request_queue queue) t1 t2 =
            (t2 \<in> txn_id ` set (takeWhile granted (request_queue queue)) \<and>
             t1 \<in> txn_id ` set (dropWhile granted (request_queue queue)))"
      if "(rid, queue) \<in> set (lock_table lm)" for rid queue
    proof -
      have "granted_first (request_queue queue)"
        using wf that by (auto simp: list_all_iff)
      then show ?thesis by (rule waits_behind_granted_first)
    qed
    then have "waits_behind (request_queue (snd e)) t1 t2 =
            (t2 \<in> txn_id ` set (takeWhile granted (request_queue (snd e))) \<and>
             t1 \<in> txn_id ` set (dropWhile granted (request_queue (snd e))))"
      if "e \<in> set (lock_table lm)" for e
      using that by (cases e) simp
    then show ?thesis unfolding spec_edge_def by (simp add: split_beta)
  qed
  then show ?thesis by (simp add: build_graph_waits_for)
qed

lemma lm_spurious_cycle_eval:
  "lock_table lm_spurious_cycle =
     [((1, 0), \<lparr>request_queue =
                 [\<lparr>txn_id = 1, lock_mode = SHARED, granted = True\<rparr>,
                  \<lparr>txn_id = 2, lock_mode = EXCLUSIVE, granted = False\<rparr>,
                  \<lparr>txn_id = 3, lock_mode = SHARED, granted = True\<rparr>],
               reader_count = 2, writer_enter = False, upgrading = False\<rparr>),
      ((1, 1), \<lparr>request_queue =
                 [\<lparr>txn_id = 3, lock_mode = SHARED, granted = True\<rparr>,
                  \<lparr>txn_id = 1, lock_mode = EXCLUSIVE, granted = False\<rparr>],
               reader_count = 1, writer_enter = False, upgrading = False\<rparr>)]"
  "waits_for lm_spurious_cycle = (\<lambda>_. [])" "txns lm_spurious_cycle = []"
  "on_stack_txns lm_spurious_cycle = []" "has_cycle lm_spurious_cycle = False"
  "txn_map lm_spurious_cycle 3 =
     \<lparr>state = GROWING, isolation_level = REPEATABLE_READ,
      shared_lock_set = [(1, 0), (1, 1)], exclusive_lock_set = []\<rparr>"
  by (simp_all add: lm_spurious_cycle_def lm_readers_writer_def lm_waiting_writer_eval
      lock_call_defs)

lemma round_spurious_cycle:
  "map_option fst (RunCycleDetection_round 3 3 lm_spurious_cycle) = Some [3]"
  unfolding RunCycleDetection_round_def
  by (simp add: HasCycle_def AbortTransaction_def RemoveEdge_def SetState_def lt_get_def
        scan_queue_def AddEdge_def lm_spurious_cycle_eval ordset_insert_def erase_def
        Let_def numeral_eq_Suc)

text \<open>
  Claim C3. After the detector has built the wait-for graph from the lock queues, there
  is an edge \<open>t1 \<rightarrow> t2\<close> if and only if \<open>t1\<close> has a request that is not granted behind a
  granted request of \<open>t2\<close> in the queue of some record id. The code does not build this
  graph. In \<open>lm_readers_writer\<close>, whose queue is: reader 1 granted, writer 2 waiting, reader
  3 granted, the graph, empty before, gets the edge \<open>3 \<rightarrow> 1\<close> although every request of
  transaction 3 is granted. In \<open>lm_spurious_cycle\<close> this edge closes a cycle with the edge
  \<open>1 \<rightarrow> 3\<close>, and a round of the detector aborts transaction 3, which has no request that
  is not granted.
\<close>

theorem wait_for_graph_spurious_edge:
  "waits_for lm_readers_writer = (\<lambda>_. []) \<and>
   1 \<in> set (waits_for (build_graph (lock_table lm_readers_writer) lm_readers_writer) 3) \<and>
   \<not> spec_edge (lock_table lm_readers_writer) 3 1 \<and>
   map_option fst (RunCycleDetection_round 3 3 lm_spurious_cycle) = Some [3] \<and>
   filter (\<lambda>r. txn_id r = 3 \<and> \<not> granted r)
     (concat (map (\<lambda>(rid, queue). request_queue queue) (lock_table lm_spurious_cycle))) = []"
  by (simp add: lm_readers_writer_eval lm_spurious_cycle_eval(1) round_spurious_cycle
      scan_queue_def AddEdge_def ordset_insert_def spec_edge_def Let_def)

subsection \<open>C4: the victim of cycle detection\<close>

lemma detection_moment:
  "map_option (\<lambda>s. (has_cycle s, on_stack_txns s))
     (DFS 1 2 (lm_deadlock_graph\<lparr>on_stack_txns := [1, 3]\<rparr>)) = Some (True, [1, 2, 3])"
  by (simp add: lm_deadlock_graph_eval lm_deadlock_eval ordset_insert_def numeral_eq_Suc)

lemma HasCycle_deadlock:
  "map_option fst (HasCycle 3 lm_deadlock_graph) = Some (Some 2)"
  by (simp add: HasCycle_def lm_deadlock_graph_eval lm_deadlock_eval ordset_insert_def erase_def numeral_eq_Suc)

lemma round_deadlock:
  "map_option (\<lambda>(victims, s). (victims, state (txn_map s 2), state (txn_map s 3)))
     (RunCycleDetection_round 2 3 lm_deadlock) = Some ([2], ABORTED, GROWING)"
  unfolding RunCycleDetection_round_def lm_deadlock_graph_def[symmetric]
  by (simp add: HasCycle_def AbortTransaction_def RemoveEdge_def SetState_def lt_get_def
        lm_deadlock_graph_eval lm_deadlock_eval ordset_insert_def erase_def txn_new_def Let_def
        numeral_eq_Suc)

text \<open>
  Claim C4 does not hold of the code. In \<open>lm_deadlock\<close> the graph has the edges
  \<open>1 \<rightarrow> 3\<close>, \<open>3 \<rightarrow> 2\<close> and \<open>2 \<rightarrow> 3\<close>. \<open>HasCycle\<close> starts \<open>DFS\<close> at 1, which descends to 3
  and then to 2, where the neighbour 3 is found on the stack: at that moment
  \<open>on_stack_txns\<close> is \<open>{1, 2, 3}\<close> and its largest element is 3. While the recursion
  returns, the calls for 3 and for 1 finish their neighbour loops and erase themselves,
  so \<open>HasCycle\<close> reads \<open>rbegin\<close> of \<open>{2}\<close>: the victim reported and aborted is 2, and 3
  stays growing.
\<close>

theorem victim_not_largest_on_stack:
  "txns lm_deadlock_graph = [1, 2, 3] \<and>
   waits_for lm_deadlock_graph 1 = [3] \<and>
   waits_for lm_deadlock_graph 3 = [2] \<and>
   waits_for lm_deadlock_graph 2 = [3] \<and>
   map_option (\<lambda>s. (has_cycle s, on_stack_txns s))
     (DFS 1 2 (lm_deadlock_graph\<lparr>on_stack_txns := [1, 3]\<rparr>)) = Some (True, [1, 2, 3]) \<and>
   map_option fst (HasCycle 3 lm_deadlock_graph) = Some (Some 2) \<and>
   map_option (\<lambda>(victims, s). (victims, state (txn_map s 2), state (txn_map s 3)))
     (RunCycleDetection_round 2 3 lm_deadlock) = Some ([2], ABORTED, GROWING)"
  using detection_moment round_deadlock HasCycle_deadlock
  by (simp add: lm_deadlock_graph_eval)

subsection \<open>C6: two-phase locking under repeatable read\<close>

text \<open>
  The two mechanisms the claim names are as it says: \<open>Unlock\<close> moves a growing
  repeatable-read transaction to shrinking, and \<open>LockShared\<close> and \<open>LockExclusive\<close> on a
  shrinking transaction throw \<open>LOCK_ON_SHRINKING\<close>, set the state to aborted and change
  nothing else.
\<close>

lemma Unlock_enters_shrinking:
  assumes "isolation_level (txn_map lm tid) = REPEATABLE_READ"
    and "state (txn_map lm tid) = GROWING"
    and "GetRequest tid (request_queue (lt_get (lock_table lm) rid)) = Some i"
  shows "fst (Unlock tid rid lm) = Return True \<and>
         state (txn_map (snd (Unlock tid rid lm)) tid) = SHRINKING"
  using assms by (simp add: Unlock_def SetState_def Let_def)

lemma LockShared_on_shrinking:
  "state (txn_map lm tid) = SHRINKING \<Longrightarrow>
     LockShared tid rid lm = (Throw tid LOCK_ON_SHRINKING, SetState tid ABORTED lm)"
  by (simp add: LockShared_def CheckShrinking_def)

lemma LockExclusive_on_shrinking:
  "state (txn_map lm tid) = SHRINKING \<Longrightarrow>
     LockExclusive tid rid lm = (Throw tid LOCK_ON_SHRINKING, SetState tid ABORTED lm)"
  by (simp add: LockExclusive_def CheckShrinking_def)

text \<open>
  Claim C6 does not hold of the code: \<open>LockUpgrade\<close> does not call \<open>CheckShrinking\<close>.
  The repeatable-read transaction 1 of \<open>lm_two_shared\<close> releases its lock on \<open>(1, 0)\<close>,
  which makes it shrinking, and then upgrades its lock on \<open>(1, 1)\<close>: the call returns
  \<open>true\<close>, the exclusive lock is granted in the queue and recorded in the transaction's
  exclusive lock set, and the transaction is still shrinking.
\<close>

theorem upgrade_after_unlock:
  "isolation_level (txn_map lm_two_shared 1) = REPEATABLE_READ \<and>
   state (txn_map lm_two_shared 1) = GROWING \<and>
   fst (Unlock 1 (1, 0) lm_two_shared) = Return True \<and>
   state (txn_map (snd (Unlock 1 (1, 0) lm_two_shared)) 1) = SHRINKING \<and>
   fst (LockUpgrade 1 (1, 1) (snd (Unlock 1 (1, 0) lm_two_shared))) = Return True \<and>
   state (txn_map (snd (LockUpgrade 1 (1, 1) (snd (Unlock 1 (1, 0) lm_two_shared)))) 1) = SHRINKING \<and>
   exclusive_lock_set (txn_map (snd (LockUpgrade 1 (1, 1) (snd (Unlock 1 (1, 0) lm_two_shared)))) 1)
     = [(1, 1)] \<and>
   lt_get (lock_table (snd (LockUpgrade 1 (1, 1) (snd (Unlock 1 (1, 0) lm_two_shared))))) (1, 1) =
     \<lparr>request_queue = [\<lparr>txn_id = 1, lock_mode = EXCLUSIVE, granted = True\<rparr>],
      reader_count = 0, writer_enter = True, upgrading = False\<rparr>"
  by (simp add: lm_two_shared_eval lock_call_defs)

subsection \<open>C7: the outcomes of \<open>LockShared\<close>\<close>

lemma last_request_append [simp]:
  "last_request tid (rq @ [\<lparr>txn_id = tid, lock_mode = m, granted = g\<rparr>]) = Some (length rq)"
  by (simp add: last_request_def)

lemma lt_get_lt_put [simp]: "lt_get (lt_put t rid q) rid = q"
  by (induction t) (auto simp: lt_get_def)

text \<open>
  Claim C7, as amended. \<open>LockShared\<close> throws \<open>LOCK_ON_SHRINKING\<close> when the transaction
  is shrinking; otherwise it returns \<open>true\<close> at once when the record id is already in the
  shared lock set; otherwise it throws \<open>LOCKSHARED_ON_READ_UNCOMMITTED\<close> when the
  isolation level is read-uncommitted; otherwise it appends its request and throws
  \<open>DEADLOCK\<close> when the transaction is aborted, blocks while a writer has entered, and is
  granted else. In the first two throwing cases the only change of state is that the
  transaction becomes aborted. A blocked call that wakes up with its transaction aborted
  throws \<open>DEADLOCK\<close> and changes nothing. The shared lock set gains the record id exactly
  when the call returns \<open>true\<close>.
\<close>

theorem LockShared_outcome:
  "fst (LockShared tid rid lm) =
     (if state (txn_map lm tid) = SHRINKING then Throw tid LOCK_ON_SHRINKING
      else if rid \<in> set (shared_lock_set (txn_map lm tid)) then Return True
      else if isolation_level (txn_map lm tid) = READ_UNCOMMITTED
      then Throw tid LOCKSHARED_ON_READ_UNCOMMITTED
      else if state (txn_map lm tid) = ABORTED then Throw tid DEADLOCK
      else if writer_enter (lt_get (lock_table lm) rid) then Blocked
      else Return True) \<and>
   (state (txn_map lm tid) = SHRINKING \<or>
    (rid \<notin> set (shared_lock_set (txn_map lm tid)) \<and>
     isolation_level (txn_map lm tid) = READ_UNCOMMITTED) \<longrightarrow>
      snd (LockShared tid rid lm) = SetState tid ABORTED lm) \<and>
   (state (txn_map lm tid) = ABORTED \<longrightarrow>
      LockShared_resume tid rid lm = (Throw tid DEADLOCK, lm)) \<and>
   shared_lock_set (txn_map (snd (LockShared tid rid lm)) tid) =
     (if fst (LockShared tid rid lm) = Return True
      then emplace rid (shared_lock_set (txn_map lm tid))
      else shared_lock_set (txn_map lm tid))"
  by (simp add: LockShared_def LockShared_resume_def CheckShrinking_def CheckAborted_def
      IsAborted_def IsSharedLocked_def SetState_def Let_def emplace_def)

text \<open>
  The hypotheses at a shrinking transaction, at a read-uncommitted one, and at the
  transaction the detector has aborted in \<open>lm_cross_wait\<close>.
\<close>

theorem LockShared_outcome_witness:
  "state (txn_map lm_shrinking 1) = SHRINKING \<and>
   fst (LockShared 1 (1, 0) lm_shrinking) = Throw 1 LOCK_ON_SHRINKING \<and>
   snd (LockShared 1 (1, 0) lm_shrinking) = SetState 1 ABORTED lm_shrinking \<and>
   shared_lock_set (txn_map (snd (LockShared 1 (1, 0) lm_shrinking)) 1) = [(1, 1)] \<and>
   (1, 0) \<notin> set (shared_lock_set (txn_map lm_read_uncommitted 1)) \<and>
   isolation_level (txn_map lm_read_uncommitted 1) = READ_UNCOMMITTED \<and>
   fst (LockShared 1 (1, 0) lm_read_uncommitted) = Throw 1 LOCKSHARED_ON_READ_UNCOMMITTED \<and>
   snd (LockShared 1 (1, 0) lm_read_uncommitted) = SetState 1 ABORTED lm_read_uncommitted \<and>
   state (txn_map lm_cross_wait_detected 2) = ABORTED \<and>
   LockShared_resume 2 (1, 0) lm_cross_wait_detected = (Throw 2 DEADLOCK, lm_cross_wait_detected)"
proof -
  have a: "state (txn_map lm_shrinking 1) = SHRINKING"
    "shared_lock_set (txn_map lm_shrinking 1) = [(1, 1)]"
    by (simp_all add: lm_shrinking_eval)
  have b: "(1, 0) \<notin> set (shared_lock_set (txn_map lm_read_uncommitted 1))"
    "isolation_level (txn_map lm_read_uncommitted 1) = READ_UNCOMMITTED"
    "state (txn_map lm_read_uncommitted 1) = GROWING"
    by (simp_all add: lm_read_uncommitted_def LockManager_new_def txn_new_def)
  have c: "state (txn_map lm_cross_wait_detected 2) = ABORTED"
    by (simp add: round_cross_wait)
  show ?thesis
    using LockShared_outcome[of 1 "(1, 0)" lm_shrinking]
      LockShared_outcome[of 1 "(1, 0)" lm_read_uncommitted]
      LockShared_outcome[of 2 "(1, 0)" lm_cross_wait_detected] a b c
    by (simp add: SetState_def)
qed

text \<open>
  The claim as stated fails: the repeatable-read transaction 2 is growing when it calls
  \<open>LockShared\<close> on \<open>(1, 0)\<close> and blocks; the detector aborts it; when it wakes up, the
  call throws \<open>DEADLOCK\<close>. A new \<open>LockShared\<close> call of the aborted transaction throws
  \<open>DEADLOCK\<close> as well. The transaction is neither shrinking nor read-uncommitted.
\<close>

theorem LockShared_deadlock_counterexample:
  "state (txn_map lm_cross_wait_before 2) = GROWING \<and>
   isolation_level (txn_map lm_cross_wait_before 2) = REPEATABLE_READ \<and>
   LockShared 2 (1, 0) lm_cross_wait_before = (Blocked, lm_cross_wait) \<and>
   map_option fst (RunCycleDetection_round 3 3 lm_cross_wait) = Some [2] \<and>
   state (txn_map lm_cross_wait_detected 2) = ABORTED \<and>
   isolation_level (txn_map lm_cross_wait_detected 2) = REPEATABLE_READ \<and>
   fst (LockShared_resume 2 (1, 0) lm_cross_wait_detected) = Throw 2 DEADLOCK \<and>
   fst (LockShared 2 (1, 5) lm_cross_wait_detected) = Throw 2 DEADLOCK"
proof -
  have "LockShared 2 (1, 0) lm_cross_wait_before = (Blocked, lm_cross_wait)"
    unfolding lm_cross_wait_def
    by (simp add: lm_cross_wait_before_eval lock_call_defs)
  moreover have "fst (LockShared_resume 2 (1, 0) lm_cross_wait_detected) = Throw 2 DEADLOCK"
    by (simp add: LockShared_resume_def round_cross_wait CheckAborted_def IsAborted_def)
  moreover have "fst (LockShared 2 (1, 5) lm_cross_wait_detected) = Throw 2 DEADLOCK"
    by (simp add: LockShared_def LockShared_resume_def round_cross_wait CheckAborted_def IsAborted_def
        CheckShrinking_def IsSharedLocked_def Let_def)
  ultimately show ?thesis
    by (simp add: round_cross_wait) (simp add: lm_cross_wait_before_eval)
qed

section \<open>Properties of the sequential scan\<close>

subsection \<open>What the lock manager calls of the scan keep and change\<close>

lemma LockShared_resume_keeps:
  "isolation_level (txn_map (snd (LockShared_resume tid rid lm)) t) = isolation_level (txn_map lm t)"
  "exclusive_lock_set (txn_map (snd (LockShared_resume tid rid lm)) t) = exclusive_lock_set (txn_map lm t)"
  by (simp_all add: LockShared_resume_def Let_def CheckAborted_def split: outcome.splits option.splits)

lemma LockShared_keeps:
  "isolation_level (txn_map (snd (LockShared tid rid lm)) t) = isolation_level (txn_map lm t)"
  "exclusive_lock_set (txn_map (snd (LockShared tid rid lm)) t) = exclusive_lock_set (txn_map lm t)"
  by (simp_all add: LockShared_def LockShared_resume_keeps CheckShrinking_def SetState_def Let_def)

lemma Unlock_keeps:
  "isolation_level (txn_map (snd (Unlock tid rid lm)) t) = isolation_level (txn_map lm t)"
  by (auto simp: Unlock_def SetState_def Let_def erase_def split: option.splits)

lemma LockShared_resume_grows:
  "IsSharedLocked (txn_map lm t) r \<Longrightarrow>
     IsSharedLocked (txn_map (snd (LockShared_resume tid rid lm)) t) r"
  by (auto simp: LockShared_resume_def Let_def CheckAborted_def IsSharedLocked_def emplace_def
      split: outcome.splits option.splits)

lemma LockShared_grows:
  "IsSharedLocked (txn_map lm t) r \<Longrightarrow> IsSharedLocked (txn_map (snd (LockShared tid rid lm)) t) r"
proof -
  assume a: "IsSharedLocked (txn_map lm t) r"
  have b: "IsSharedLocked (txn_map (lm\<lparr>lock_table := x\<rparr>) t) r" for x
    using a by simp
  have c: "IsSharedLocked (txn_map (SetState tid st lm) t) r" for st
    using a by (auto simp: SetState_def IsSharedLocked_def)
  show ?thesis
    using a c LockShared_resume_grows[OF b]
    by (simp add: LockShared_def CheckShrinking_def Let_def)
qed

lemma LockShared_resume_Return:
  "fst (LockShared_resume tid rid lm) = Return b \<Longrightarrow>
     IsSharedLocked (txn_map (snd (LockShared_resume tid rid lm)) tid) rid"
  by (simp add: LockShared_resume_def Let_def CheckAborted_def IsSharedLocked_def emplace_def
      split: outcome.splits option.splits if_splits)

lemma LockShared_Return:
  "fst (LockShared tid rid lm) = Return b \<Longrightarrow>
     IsSharedLocked (txn_map (snd (LockShared tid rid lm)) tid) rid"
  using LockShared_resume_Return[of tid rid _ b]
  by (simp add: LockShared_def CheckShrinking_def Let_def split: if_splits)

lemma Unlock_releases:
  "\<not> IsSharedLocked (txn_map (snd (Unlock tid rid lm)) tid) rid"
  "\<not> IsExclusiveLocked (txn_map (snd (Unlock tid rid lm)) tid) rid"
  by (simp_all add: Unlock_def SetState_def Let_def erase_def IsSharedLocked_def
      IsExclusiveLocked_def split: option.splits)

subsection \<open>The iterations of the loop\<close>

lemma scan_lock_keeps:
  "isolation_level (txn_map (snd (scan_lock tid rid lm)) t) = isolation_level (txn_map lm t)"
  by (simp add: scan_lock_def LockShared_keeps)

lemma scan_unlock_keeps:
  "isolation_level (txn_map (snd (scan_unlock tid rid lm)) t) = isolation_level (txn_map lm t)"
  by (simp add: scan_unlock_def Unlock_keeps)

lemma Next_events_Nil [simp]: "Next_events p pr tid [] lm = []"
  by (simp add: Next_events_def)

lemma Next_state_Nil [simp]: "Next_state p pr tid [] lm = lm"
  by (simp add: Next_state_def)

lemma Next_Cons:
  fixes p :: "('t \<Rightarrow> bool) option" and pr :: "'t \<Rightarrow> 'o"
  assumes lk: "scan_lock tid rid lm = (out1, lm1)" and ul: "scan_unlock tid rid lm1 = (out2, lm2)"
  shows "Next p pr tid ((rid, tup) # rest) lm =
     (case out1 of
        Return locked \<Rightarrow>
          (if (case p of None \<Rightarrow> True | Some q \<Rightarrow> q tup)
           then (case out2 of
                   Return unlocked \<Rightarrow> (Return (Some (pr tup, rid)), rest, lm2,
                      scan_lock_events tid rid lm @ scan_body p tid rid tup lm)
                 | Throw t r \<Rightarrow> (Throw t r, rest, lm2,
                      scan_lock_events tid rid lm @ scan_body p tid rid tup lm)
                 | Blocked \<Rightarrow> (Blocked, rest, lm2,
                      scan_lock_events tid rid lm @ scan_body p tid rid tup lm)
                 | Undefined \<Rightarrow> (Undefined, rest, lm2,
                      scan_lock_events tid rid lm @ scan_body p tid rid tup lm))
           else (case out2 of
                   Return unlocked \<Rightarrow>
                     (case Next p pr tid rest lm2 of
                        (out, it', lm3, evs) \<Rightarrow>
                          (out, it', lm3,
                           scan_lock_events tid rid lm @ scan_body p tid rid tup lm @ evs))
                 | Throw t r \<Rightarrow> (Throw t r, rest, lm2,
                      scan_lock_events tid rid lm @ scan_body p tid rid tup lm)
                 | Blocked \<Rightarrow> (Blocked, rest, lm2,
                      scan_lock_events tid rid lm @ scan_body p tid rid tup lm)
                 | Undefined \<Rightarrow> (Undefined, rest, lm2,
                      scan_lock_events tid rid lm @ scan_body p tid rid tup lm)))
      | Throw t r \<Rightarrow> (Throw t r, (rid, tup) # rest, lm1, scan_lock_events tid rid lm)
      | Blocked \<Rightarrow> (Blocked, (rid, tup) # rest, lm1, scan_lock_events tid rid lm)
      | Undefined \<Rightarrow> (Undefined, (rid, tup) # rest, lm1, scan_lock_events tid rid lm))"
proof -
  have iso: "isolation_level (txn_map lm1 tid) = isolation_level (txn_map lm tid)"
    using scan_lock_keeps[of tid rid lm tid] lk by simp
  have g1: "(if isolation_level (txn_map lm tid) \<noteq> READ_UNCOMMITTED \<and>
                \<not> IsExclusiveLocked (txn_map lm tid) rid
             then (case LockShared tid rid lm of
                     (out, lm1) \<Rightarrow> (out, lm1, [(EvLockShared rid, lm1)]))
             else (Return True, lm, [])) = (out1, lm1, scan_lock_events tid rid lm)"
    using lk by (auto simp: scan_lock_def scan_lock_events_def split: prod.splits)
  have g2: "SeqScan_Unlock tid rid lm1 =
              (out2, lm2, if isolation_level (txn_map lm tid) = READ_COMMITTED
                          then [(EvUnlock rid, lm2)] else [])"
    using ul by (auto simp: scan_unlock_def SeqScan_Unlock_def iso split: prod.splits)
  have lm1: "lm1 = snd (scan_lock tid rid lm)" using lk by simp
  have lm2: "isolation_level (txn_map lm tid) = READ_COMMITTED \<Longrightarrow> lm2 = snd (Unlock tid rid lm1)"
    using ul by (simp add: scan_unlock_def iso)
  have body: "scan_body p tid rid tup lm =
         (EvMaterialize rid, lm1) #
         (case p of None \<Rightarrow> [] | Some q \<Rightarrow> [(EvEvaluate rid (q tup), lm1)]) @
         (if (case p of None \<Rightarrow> True | Some q \<Rightarrow> q tup) then [(EvProject rid, lm1)] else []) @
         (if isolation_level (txn_map lm tid) = READ_COMMITTED
          then [(EvUnlock rid, lm2)] else [])"
    using lm2 by (simp add: scan_body_def lm1[symmetric] Let_def)
  show ?thesis
    unfolding Next.simps g1 body
    by (cases out1; cases out2) (simp_all add: g2 Let_def split: option.splits)
qed

declare Next.simps(2) [simp del]

lemma follows_append:
  "follows tid s (es1 @ es2) = (follows tid s es1 \<and> follows tid (final_state s es1) es2)"
  by (induction es1 arbitrary: s) auto

lemma final_state_append: "final_state s (es1 @ es2) = final_state (final_state s es1) es2"
  by (induction es1 arbitrary: s) auto

lemma unlocks_append: "unlocks (es1 @ es2) = unlocks es1 @ unlocks es2"
  by (induction es1 rule: unlocks.induct) simp_all

lemma materialized_append: "materialized (es1 @ es2) = materialized es1 @ materialized es2"
  by (induction es1 rule: materialized.induct) simp_all

text \<open>The steps of one iteration, written out.\<close>

lemma scan_chunk:
  assumes lk: "scan_lock tid rid lm = (out1, lm1)" and ul: "scan_unlock tid rid lm1 = (out2, lm2)"
  shows "scan_lock_events tid rid lm =
           (if isolation_level (txn_map lm tid) \<noteq> READ_UNCOMMITTED \<and>
               \<not> IsExclusiveLocked (txn_map lm tid) rid
            then [(EvLockShared rid, lm1)] else [])"
    and "scan_body p tid rid tup lm =
           (EvMaterialize rid, lm1) #
           (case p of None \<Rightarrow> [] | Some q \<Rightarrow> [(EvEvaluate rid (q tup), lm1)]) @
           (if (case p of None \<Rightarrow> True | Some q \<Rightarrow> q tup) then [(EvProject rid, lm1)] else []) @
           (if isolation_level (txn_map lm tid) = READ_COMMITTED
            then [(EvUnlock rid, lm2)] else [])"
    and "isolation_level (txn_map lm1 t) = isolation_level (txn_map lm t)"
    and "isolation_level (txn_map lm2 t) = isolation_level (txn_map lm t)"
    and "lm1 = (if isolation_level (txn_map lm tid) \<noteq> READ_UNCOMMITTED \<and>
                   \<not> IsExclusiveLocked (txn_map lm tid) rid
                then snd (LockShared tid rid lm) else lm)"
    and "lm2 = (if isolation_level (txn_map lm tid) = READ_COMMITTED
                then snd (Unlock tid rid lm1) else lm1)"
proof -
  show iso1: "isolation_level (txn_map lm1 t) = isolation_level (txn_map lm t)" for t
    using scan_lock_keeps[of tid rid lm t] lk by simp
  show "isolation_level (txn_map lm2 t) = isolation_level (txn_map lm t)"
    using scan_unlock_keeps[of tid rid lm1 t] ul iso1 by simp
  show l1: "lm1 = (if isolation_level (txn_map lm tid) \<noteq> READ_UNCOMMITTED \<and>
                   \<not> IsExclusiveLocked (txn_map lm tid) rid
                then snd (LockShared tid rid lm) else lm)"
    using lk by (auto simp: scan_lock_def)
  show l2: "lm2 = (if isolation_level (txn_map lm tid) = READ_COMMITTED
                then snd (Unlock tid rid lm1) else lm1)"
    using ul by (auto simp: scan_unlock_def iso1)
  show "scan_lock_events tid rid lm =
           (if isolation_level (txn_map lm tid) \<noteq> READ_UNCOMMITTED \<and>
               \<not> IsExclusiveLocked (txn_map lm tid) rid
            then [(EvLockShared rid, lm1)] else [])"
    using l1 by (simp add: scan_lock_events_def)
  have "lm1 = snd (scan_lock tid rid lm)" using lk by simp
  then show "scan_body p tid rid tup lm =
           (EvMaterialize rid, lm1) #
           (case p of None \<Rightarrow> [] | Some q \<Rightarrow> [(EvEvaluate rid (q tup), lm1)]) @
           (if (case p of None \<Rightarrow> True | Some q \<Rightarrow> q tup) then [(EvProject rid, lm1)] else []) @
           (if isolation_level (txn_map lm tid) = READ_COMMITTED
            then [(EvUnlock rid, lm2)] else [])"
    using l2 by (simp add: scan_body_def Let_def split: option.splits)
qed

text \<open>
  The steps and the final state of \<open>Next\<close> at a non-empty iterator: the steps of the
  first iteration, and then those of the rest of the loop, if it goes on.
\<close>

lemma Next_Cons_Return:
  assumes lk: "scan_lock tid rid lm = (Return b, lm1)"
    and ul: "scan_unlock tid rid lm1 = (out2, lm2)"
  shows "Next_events p pr tid ((rid, tup) # rest) lm =
           scan_lock_events tid rid lm @ scan_body p tid rid tup lm @
           (if \<not> (case p of None \<Rightarrow> True | Some q \<Rightarrow> q tup) \<and> (\<exists>u. out2 = Return u)
            then Next_events p pr tid rest lm2 else [])"
    and "Next_state p pr tid ((rid, tup) # rest) lm =
           (if \<not> (case p of None \<Rightarrow> True | Some q \<Rightarrow> q tup) \<and> (\<exists>u. out2 = Return u)
            then Next_state p pr tid rest lm2 else lm2)"
proof -
  show "Next_events p pr tid ((rid, tup) # rest) lm =
           scan_lock_events tid rid lm @ scan_body p tid rid tup lm @
           (if \<not> (case p of None \<Rightarrow> True | Some q \<Rightarrow> q tup) \<and> (\<exists>u. out2 = Return u)
            then Next_events p pr tid rest lm2 else [])"
    unfolding Next_events_def Next_Cons[OF lk ul]
    by (cases out2) (simp_all split: prod.splits)
  show "Next_state p pr tid ((rid, tup) # rest) lm =
           (if \<not> (case p of None \<Rightarrow> True | Some q \<Rightarrow> q tup) \<and> (\<exists>u. out2 = Return u)
            then Next_state p pr tid rest lm2 else lm2)"
    unfolding Next_state_def Next_Cons[OF lk ul]
    by (cases out2) (simp_all split: prod.splits)
qed

lemma Next_Cons_stop:
  assumes lk: "scan_lock tid rid lm = (out1, lm1)" and "\<not> (\<exists>b. out1 = Return b)"
  shows "Next_events p pr tid ((rid, tup) # rest) lm = scan_lock_events tid rid lm"
    and "Next_state p pr tid ((rid, tup) # rest) lm = lm1"
proof -
  obtain out2 lm2 where ul: "scan_unlock tid rid lm1 = (out2, lm2)" by (cases "scan_unlock tid rid lm1")
  show "Next_events p pr tid ((rid, tup) # rest) lm = scan_lock_events tid rid lm"
    unfolding Next_events_def Next_Cons[OF lk ul]
    using assms(2) by (cases out1) simp_all
  show "Next_state p pr tid ((rid, tup) # rest) lm = lm1"
    unfolding Next_state_def Next_Cons[OF lk ul]
    using assms(2) by (cases out1) simp_all
qed

subsection \<open>The steps of \<open>Next\<close>\<close>

lemma scan_lock_locked:
  assumes "scan_lock tid rid lm = (Return b, lm1)"
    and "isolation_level (txn_map lm tid) \<noteq> READ_UNCOMMITTED"
  shows "IsExclusiveLocked (txn_map lm1 tid) rid \<or>
         (IsSharedLocked (txn_map lm1 tid) rid \<and>
          \<not> IsExclusiveLocked (txn_map lm tid) rid \<and> lm1 = snd (LockShared tid rid lm))"
proof (cases "IsExclusiveLocked (txn_map lm tid) rid")
  case True
  then show ?thesis using assms by (simp add: scan_lock_def)
next
  case False
  then have l: "LockShared tid rid lm = (Return b, lm1)"
    using assms by (simp add: scan_lock_def)
  then have "fst (LockShared tid rid lm) = Return b" "lm1 = snd (LockShared tid rid lm)"
    by simp_all
  then show ?thesis using LockShared_Return[of tid rid lm b] False by simp
qed

lemma Next_follows:
  "follows tid lm (Next_events p pr tid it lm) \<and>
   final_state lm (Next_events p pr tid it lm) = Next_state p pr tid it lm"
proof (induction it arbitrary: lm)
  case Nil
  then show ?case by simp
next
  case (Cons e rest)
  obtain rid tup where e: "e = (rid, tup)" by (cases e)
  obtain out1 lm1 where lk: "scan_lock tid rid lm = (out1, lm1)" by (cases "scan_lock tid rid lm")
  obtain out2 lm2 where ul: "scan_unlock tid rid lm1 = (out2, lm2)" by (cases "scan_unlock tid rid lm1")
  note ch = scan_chunk[OF lk ul]
  have lock: "follows tid lm (scan_lock_events tid rid lm)"
    "final_state lm (scan_lock_events tid rid lm) = lm1"
    by (simp_all add: ch(1) ch(5))
  have body: "follows tid lm1 (scan_body p tid rid tup lm)"
    "final_state lm1 (scan_body p tid rid tup lm) = lm2"
    by (simp_all add: ch(2) ch(6) split: option.splits)
  show ?case
  proof (cases "\<exists>b. out1 = Return b")
    case True
    then obtain b where lk': "scan_lock tid rid lm = (Return b, lm1)" using lk by blast
    show ?thesis
      unfolding e Next_Cons_Return[OF lk' ul]
      using Cons.IH[of lm2] lock body
      by (simp add: follows_append final_state_append)
  next
    case False
    show ?thesis
      unfolding e Next_Cons_stop[OF lk False]
      using lock by simp
  qed
qed

lemma Next_locked_before_materialized:
  "isolation_level (txn_map lm tid) \<noteq> READ_UNCOMMITTED \<Longrightarrow>
     locked_before_materialized tid prev (Next_events p pr tid it lm)"
proof (induction it arbitrary: lm prev)
  case Nil
  then show ?case by simp
next
  case (Cons e rest)
  obtain rid tup where e: "e = (rid, tup)" by (cases e)
  obtain out1 lm1 where lk: "scan_lock tid rid lm = (out1, lm1)" by (cases "scan_lock tid rid lm")
  obtain out2 lm2 where ul: "scan_unlock tid rid lm1 = (out2, lm2)" by (cases "scan_unlock tid rid lm1")
  note ch = scan_chunk[OF lk ul]
  have iso2: "isolation_level (txn_map lm2 tid) \<noteq> READ_UNCOMMITTED"
    using Cons.prems by (simp add: ch(4))
  show ?case
  proof (cases "\<exists>b. out1 = Return b")
    case True
    then obtain b where lk': "scan_lock tid rid lm = (Return b, lm1)" using lk by blast
    define tl where "tl = (if \<not> (case p of None \<Rightarrow> True | Some q \<Rightarrow> q tup) \<and> (\<exists>u. out2 = Return u)
            then Next_events p pr tid rest lm2 else [])"
    have tl: "locked_before_materialized tid prev' tl" for prev'
      using Cons.IH[OF iso2] by (simp add: tl_def)
    have after: "locked_before_materialized tid prev'
        ((case p of None \<Rightarrow> [] | Some q \<Rightarrow> [(EvEvaluate rid (q tup), lm1)]) @
         (if (case p of None \<Rightarrow> True | Some q \<Rightarrow> q tup) then [(EvProject rid, lm1)] else []) @
         (if isolation_level (txn_map lm tid) = READ_COMMITTED
          then [(EvUnlock rid, lm2)] else []) @ tl)" for prev'
      using tl by (simp split: option.splits)
    have ev: "Next_events p pr tid ((rid, tup) # rest) lm =
                scan_lock_events tid rid lm @ scan_body p tid rid tup lm @ tl"
      by (simp add: Next_Cons_Return[OF lk' ul] tl_def)
    from scan_lock_locked[OF lk' Cons.prems]
    show ?thesis
    proof
      assume x: "IsExclusiveLocked (txn_map lm1 tid) rid"
      show ?thesis
        unfolding e ev ch(1) ch(2)
        using x after by simp
    next
      assume s: "IsSharedLocked (txn_map lm1 tid) rid \<and>
          \<not> IsExclusiveLocked (txn_map lm tid) rid \<and> lm1 = snd (LockShared tid rid lm)"
      then have s1: "IsSharedLocked (txn_map lm1 tid) rid"
        and s2: "\<not> IsExclusiveLocked (txn_map lm tid) rid" by blast+
      show ?thesis
        unfolding e ev ch(1) ch(2)
        using s1 s2 after Cons.prems by simp
    qed
  next
    case False
    show ?thesis
      unfolding e Next_Cons_stop[OF lk False] ch(1)
      by simp
  qed
qed

lemma Next_released_after_evaluation:
  "isolation_level (txn_map lm tid) = READ_COMMITTED \<Longrightarrow>
     released_after_evaluation tid (Next_events p pr tid it lm)"
proof (induction it arbitrary: lm)
  case Nil
  then show ?case by simp
next
  case (Cons e rest)
  obtain rid tup where e: "e = (rid, tup)" by (cases e)
  obtain out1 lm1 where lk: "scan_lock tid rid lm = (out1, lm1)" by (cases "scan_lock tid rid lm")
  obtain out2 lm2 where ul: "scan_unlock tid rid lm1 = (out2, lm2)" by (cases "scan_unlock tid rid lm1")
  note ch = scan_chunk[OF lk ul]
  have iso2: "isolation_level (txn_map lm2 tid) = READ_COMMITTED"
    using Cons.prems by (simp add: ch(4))
  have rel: "\<not> IsSharedLocked (txn_map lm2 tid) rid"
    using Cons.prems Unlock_releases(1)[of tid rid lm1] by (simp add: ch(6))
  show ?case
  proof (cases "\<exists>b. out1 = Return b")
    case True
    then obtain b where lk': "scan_lock tid rid lm = (Return b, lm1)" using lk by blast
    define tl where "tl = (if \<not> (case p of None \<Rightarrow> True | Some q \<Rightarrow> q tup) \<and> (\<exists>u. out2 = Return u)
            then Next_events p pr tid rest lm2 else [])"
    have tl: "released_after_evaluation tid tl"
      using Cons.IH[OF iso2] by (simp add: tl_def)
    have ev: "Next_events p pr tid ((rid, tup) # rest) lm =
                scan_lock_events tid rid lm @ scan_body p tid rid tup lm @ tl"
      by (simp add: Next_Cons_Return[OF lk' ul] tl_def)
    show ?thesis
      unfolding e ev ch(1) ch(2)
      using tl rel Cons.prems
      by (simp add: unlock_follows_def outputs_then_unlock_def unlock_next_def
          split: option.splits)
  next
    case False
    show ?thesis
      unfolding e Next_Cons_stop[OF lk False] ch(1)
      by simp
  qed
qed

lemma Next_never_unlocks:
  "isolation_level (txn_map lm tid) = REPEATABLE_READ \<Longrightarrow>
     unlocks (Next_events p pr tid it lm) = []"
proof (induction it arbitrary: lm)
  case Nil
  then show ?case by simp
next
  case (Cons e rest)
  obtain rid tup where e: "e = (rid, tup)" by (cases e)
  obtain out1 lm1 where lk: "scan_lock tid rid lm = (out1, lm1)" by (cases "scan_lock tid rid lm")
  obtain out2 lm2 where ul: "scan_unlock tid rid lm1 = (out2, lm2)" by (cases "scan_unlock tid rid lm1")
  note ch = scan_chunk[OF lk ul]
  have iso2: "isolation_level (txn_map lm2 tid) = REPEATABLE_READ"
    using Cons.prems by (simp add: ch(4))
  show ?case
  proof (cases "\<exists>b. out1 = Return b")
    case True
    then obtain b where lk': "scan_lock tid rid lm = (Return b, lm1)" using lk by blast
    show ?thesis
      unfolding e Next_Cons_Return[OF lk' ul] ch(1) ch(2)
      using Cons.IH[OF iso2] Cons.prems
      by (simp add: unlocks_append split: option.splits)
  next
    case False
    show ?thesis
      unfolding e Next_Cons_stop[OF lk False] ch(1)
      by simp
  qed
qed

lemma scan_lock_grows:
  "holds_lock lm tid r \<Longrightarrow> holds_lock (snd (scan_lock tid rid lm)) tid r"
  using LockShared_grows[of lm tid r tid rid] LockShared_keeps(2)[of tid rid lm tid]
  by (auto simp: scan_lock_def holds_lock_def IsExclusiveLocked_def)

lemma Next_keeps_locks:
  "isolation_level (txn_map lm tid) = REPEATABLE_READ \<Longrightarrow> holds_lock lm tid r \<Longrightarrow>
     holds_lock (Next_state p pr tid it lm) tid r"
proof (induction it arbitrary: lm)
  case Nil
  then show ?case by simp
next
  case (Cons e rest)
  obtain rid tup where e: "e = (rid, tup)" by (cases e)
  obtain out1 lm1 where lk: "scan_lock tid rid lm = (out1, lm1)" by (cases "scan_lock tid rid lm")
  obtain out2 lm2 where ul: "scan_unlock tid rid lm1 = (out2, lm2)" by (cases "scan_unlock tid rid lm1")
  note ch = scan_chunk[OF lk ul]
  have iso2: "isolation_level (txn_map lm2 tid) = REPEATABLE_READ"
    using Cons.prems by (simp add: ch(4))
  have h1: "holds_lock lm1 tid r"
    using scan_lock_grows[OF Cons.prems(2), of rid] lk by simp
  have l2: "lm2 = lm1" using Cons.prems(1) by (simp add: ch(6))
  show ?case
  proof (cases "\<exists>b. out1 = Return b")
    case True
    then obtain b where lk': "scan_lock tid rid lm = (Return b, lm1)" using lk by blast
    show ?thesis
      unfolding e Next_Cons_Return(2)[OF lk' ul]
      using Cons.IH[OF iso2] h1 l2 by simp
  next
    case False
    show ?thesis
      unfolding e Next_Cons_stop[OF lk False]
      using h1 by simp
  qed
qed

lemma Next_holds_materialized:
  "isolation_level (txn_map lm tid) = REPEATABLE_READ \<Longrightarrow>
     list_all (holds_lock (Next_state p pr tid it lm) tid) (materialized (Next_events p pr tid it lm))"
proof (induction it arbitrary: lm)
  case Nil
  then show ?case by simp
next
  case (Cons e rest)
  obtain rid tup where e: "e = (rid, tup)" by (cases e)
  obtain out1 lm1 where lk: "scan_lock tid rid lm = (out1, lm1)" by (cases "scan_lock tid rid lm")
  obtain out2 lm2 where ul: "scan_unlock tid rid lm1 = (out2, lm2)" by (cases "scan_unlock tid rid lm1")
  note ch = scan_chunk[OF lk ul]
  have iso2: "isolation_level (txn_map lm2 tid) = REPEATABLE_READ"
    using Cons.prems by (simp add: ch(4))
  have l2: "lm2 = lm1" using Cons.prems(1) by (simp add: ch(6))
  show ?case
  proof (cases "\<exists>b. out1 = Return b")
    case True
    then obtain b where lk': "scan_lock tid rid lm = (Return b, lm1)" using lk by blast
    have "holds_lock lm1 tid rid"
      using scan_lock_locked[OF lk'] Cons.prems by (auto simp: holds_lock_def)
    then have h: "holds_lock lm2 tid rid" "holds_lock (Next_state p pr tid rest lm2) tid rid"
      using l2 Next_keeps_locks[OF iso2, of rid p pr rest] by simp_all
    show ?thesis
      unfolding e Next_Cons_Return[OF lk' ul] ch(1) ch(2)
      using Cons.IH[OF iso2] h Cons.prems
      by (simp add: materialized_append split: option.splits)
  next
    case False
    show ?thesis
      unfolding e Next_Cons_stop[OF lk False] ch(1)
      by simp
  qed
qed

lemma Next_materializes_consumed:
  "Next p pr tid it lm = (out, it', lm', es) \<Longrightarrow>
     it' = drop (length (materialized es)) it \<and>
     materialized es = map fst (take (length (materialized es)) it)"
proof (induction it arbitrary: lm out it' lm' es)
  case Nil
  then show ?case by simp
next
  case (Cons e rest)
  obtain rid tup where e: "e = (rid, tup)" by (cases e)
  obtain out1 lm1 where lk: "scan_lock tid rid lm = (out1, lm1)" by (cases "scan_lock tid rid lm")
  obtain out2 lm2 where ul: "scan_unlock tid rid lm1 = (out2, lm2)" by (cases "scan_unlock tid rid lm1")
  note ch = scan_chunk[OF lk ul]
  have m1: "materialized (scan_lock_events tid rid lm) = []"
    by (simp add: ch(1))
  have m2: "materialized (scan_body p tid rid tup lm) = [rid]"
    by (simp add: ch(2) materialized_append split: option.splits)
  obtain out3 it3 lm3 es3 where n: "Next p pr tid rest lm2 = (out3, it3, lm3, es3)"
    by (metis prod_cases4)
  note ih = Cons.IH[OF n]
  show ?case
    using Cons.prems ih
    unfolding e Next_Cons[OF lk ul] n
    by (cases out1; cases out2)
       (auto simp: m1 m2 materialized_append split: if_splits)
qed

lemma scan_ex_steps:
  "map fst (scan_ex READ_COMMITTED) =
     [EvLockShared (1, 0), EvMaterialize (1, 0), EvEvaluate (1, 0) False, EvUnlock (1, 0),
      EvLockShared (1, 1), EvMaterialize (1, 1), EvEvaluate (1, 1) True, EvProject (1, 1),
      EvUnlock (1, 1)]"
  "map fst (scan_ex REPEATABLE_READ) =
     [EvLockShared (1, 0), EvMaterialize (1, 0), EvEvaluate (1, 0) False,
      EvLockShared (1, 1), EvMaterialize (1, 1), EvEvaluate (1, 1) True, EvProject (1, 1)]"
  by (simp_all add: scan_ex_def table_ex_def Next_events_def Next.simps SeqScan_Unlock_def
      lock_call_defs)

lemma scan_ex_materialized:
  "materialized (scan_ex REPEATABLE_READ) = [(1, 0), (1, 1)]"
  by (simp add: scan_ex_def table_ex_def Next_events_def Next.simps SeqScan_Unlock_def
      lock_call_defs)


subsection \<open>C9: locking in \<open>Next\<close>\<close>

text \<open>
  Claim C9, as amended. For every lock manager state, transaction, predicate and table:
  the states recorded with the steps of \<open>Next\<close> are the states its \<open>LockShared\<close> and
  \<open>Unlock\<close> calls leave, the last of them the state \<open>Next\<close> returns. When the isolation
  level is not read-uncommitted, each tuple is copied out of the table while the
  transaction holds a lock on its record id: the exclusive lock it held already, or the
  shared lock, and then the copy comes directly after the \<open>LockShared\<close> call for the record
  id. Under read-committed, after each copy of a tuple on whose record id the
  transaction does not hold the exclusive lock, the lock manager's \<open>Unlock\<close> is called for
  the record id and leaves the transaction without the shared lock: directly after the
  evaluation of the predicate when the predicate does not hold, and after the output
  columns have been computed when it holds or the plan has no predicate. Under
  repeatable-read \<open>Next\<close> makes no \<open>Unlock\<close> call, and when it ends the transaction still
  holds a lock on the record id of every tuple copied. The tuples copied are the tuples
  the iterator has passed, in order.
\<close>

theorem SeqScan_Next_locking:
  "follows tid lm (Next_events predicate project tid it lm) \<and>
   final_state lm (Next_events predicate project tid it lm) =
     Next_state predicate project tid it lm \<and>
   (isolation_level (txn_map lm tid) \<noteq> READ_UNCOMMITTED \<longrightarrow>
      locked_before_materialized tid None (Next_events predicate project tid it lm)) \<and>
   (isolation_level (txn_map lm tid) = READ_COMMITTED \<longrightarrow>
      released_after_evaluation tid (Next_events predicate project tid it lm)) \<and>
   (isolation_level (txn_map lm tid) = REPEATABLE_READ \<longrightarrow>
      unlocks (Next_events predicate project tid it lm) = [] \<and>
      list_all (holds_lock (Next_state predicate project tid it lm) tid)
        (materialized (Next_events predicate project tid it lm))) \<and>
   materialized (Next_events predicate project tid it lm) =
      map fst (take (length (materialized (Next_events predicate project tid it lm))) it)"
proof -
  obtain out it' lm' es where n: "Next predicate project tid it lm = (out, it', lm', es)"
    by (metis prod_cases4)
  then have es: "Next_events predicate project tid it lm = es"
    by (simp add: Next_events_def)
  show ?thesis
    using Next_follows[of tid lm predicate project it]
      Next_locked_before_materialized[of lm tid None predicate project it]
      Next_released_after_evaluation[of lm tid predicate project it]
      Next_never_unlocks[of lm tid predicate project it]
      Next_holds_materialized[of lm tid predicate project it]
      Next_materializes_consumed[OF n]
    unfolding es by blast
qed


text \<open>The hypotheses at the example scans, with the steps of the scans.\<close>

theorem SeqScan_Next_locking_witness:
  "isolation_level (txn_map (LockManager_new (\<lambda>_. txn_new READ_COMMITTED)) 1) = READ_COMMITTED \<and>
   isolation_level (txn_map (LockManager_new (\<lambda>_. txn_new REPEATABLE_READ)) 1) = REPEATABLE_READ \<and>
   map fst (scan_ex READ_COMMITTED) =
     [EvLockShared (1, 0), EvMaterialize (1, 0), EvEvaluate (1, 0) False, EvUnlock (1, 0),
      EvLockShared (1, 1), EvMaterialize (1, 1), EvEvaluate (1, 1) True, EvProject (1, 1),
      EvUnlock (1, 1)] \<and>
   follows 1 (LockManager_new (\<lambda>_. txn_new READ_COMMITTED)) (scan_ex READ_COMMITTED) \<and>
   locked_before_materialized 1 None (scan_ex READ_COMMITTED) \<and>
   released_after_evaluation 1 (scan_ex READ_COMMITTED) \<and>
   map fst (scan_ex REPEATABLE_READ) =
     [EvLockShared (1, 0), EvMaterialize (1, 0), EvEvaluate (1, 0) False,
      EvLockShared (1, 1), EvMaterialize (1, 1), EvEvaluate (1, 1) True, EvProject (1, 1)] \<and>
   locked_before_materialized 1 None (scan_ex REPEATABLE_READ) \<and>
   unlocks (scan_ex REPEATABLE_READ) = [] \<and>
   materialized (scan_ex REPEATABLE_READ) = [(1, 0), (1, 1)] \<and>
   list_all (holds_lock (Next_state (Some (\<lambda>x. 20 \<le> x)) (\<lambda>x. x) 1 table_ex
                          (LockManager_new (\<lambda>_. txn_new REPEATABLE_READ))) 1)
     (materialized (scan_ex REPEATABLE_READ))"
proof -
  have a: "isolation_level (txn_map (LockManager_new (\<lambda>_. txn_new level)) 1) = level" for level
    by (simp add: LockManager_new_def txn_new_def)
  show ?thesis
    using SeqScan_Next_locking[of 1 "LockManager_new (\<lambda>_. txn_new READ_COMMITTED)"
            "Some (\<lambda>x. 20 \<le> x)" "\<lambda>x. x" table_ex]
          SeqScan_Next_locking[of 1 "LockManager_new (\<lambda>_. txn_new REPEATABLE_READ)"
            "Some (\<lambda>x. 20 \<le> x)" "\<lambda>x. x" table_ex]
    unfolding a scan_ex_def[symmetric]
    using scan_ex_steps scan_ex_materialized by blast
qed


text \<open>
  The claim as stated fails on the path of a match: in the read-committed example scan the
  evaluation of the predicate on the second tuple, which holds, is followed by the
  computation of the output columns, and \<open>Unlock\<close> comes after that.
\<close>

theorem unlock_after_projection_counterexample:
  "\<not> unlock_directly_after_evaluation (map fst (scan_ex READ_COMMITTED))"
  by (simp add: scan_ex_steps)


lemma lm_writer_scan_eval:
  "lm_writer_scan =
     \<lparr>lock_table =
        [((1, 0), \<lparr>request_queue = [\<lparr>txn_id = 1, lock_mode = EXCLUSIVE, granted = True\<rparr>],
                  reader_count = 0, writer_enter = True, upgrading = False\<rparr>)],
      txn_map = (\<lambda>_. txn_new READ_COMMITTED)
        (1 := \<lparr>state = GROWING, isolation_level = READ_COMMITTED,
               shared_lock_set = [], exclusive_lock_set = [(1, 0)]\<rparr>),
      waits_for = (\<lambda>_. []), txns = [], on_stack_txns = [], has_cycle = False,
      wait_rids = Map.empty\<rparr>"
  by (simp add: lm_writer_scan_def lock_call_defs)

text \<open>
  When the transaction holds the exclusive lock on a record id, \<open>Next\<close> under
  read-committed still calls \<open>Unlock\<close> after the predicate: the exclusive lock is
  released, the transaction enters its shrinking phase, and the \<open>LockShared\<close> call for
  the next tuple throws.
\<close>

lemma scan_releases_exclusive_lock:
  "IsExclusiveLocked (txn_map lm_writer_scan 1) (1, 0)"
  "map fst (Next_events (Some (\<lambda>x. 20 \<le> x)) (\<lambda>x. x) 1 table_ex lm_writer_scan) =
     [EvMaterialize (1, 0), EvEvaluate (1, 0) False, EvUnlock (1, 0), EvLockShared (1, 1)]"
  "\<not> IsExclusiveLocked
       (txn_map (Next_state (Some (\<lambda>x. 20 \<le> x)) (\<lambda>x. x) 1 table_ex lm_writer_scan) 1) (1, 0)"
  "fst (Next (Some (\<lambda>x. 20 \<le> x)) (\<lambda>x. x) 1 table_ex lm_writer_scan) =
     Throw 1 LOCK_ON_SHRINKING"
  by (simp_all add: lm_writer_scan_eval table_ex_def Next_events_def Next_state_def Next.simps
      SeqScan_Unlock_def lock_call_defs)
section \<open>B+tree: properties\<close>

subsection \<open>Sequencing and descents\<close>

lemma and_then_Inr [simp]: "and_then (Inr x) f = f x"
  by (simp add: and_then_def)

lemma and_then_Inl [simp]: "and_then (Inl e) f = Inl e"
  by (simp add: and_then_def)

lemma and_then_eq_Inr: "and_then r f = Inr y \<longleftrightarrow> (\<exists>x. r = Inr x \<and> f x = Inr y)"
  by (cases r) simp_all

lemma from_slot_simps [simp]: "from_slot None = Inl BAD_PAGE" "from_slot (Some x) = Inr x"
  by (simp_all add: from_slot_def)

lemma from_slot_eq_Inr: "from_slot x = Inr y \<longleftrightarrow> x = Some y"
  by (cases x) simp_all

lemma FindLeafPage_loop_READ:
  "FindLeafPage_loop n key lm READ pid t = Inr (leaf_id, t1) \<Longrightarrow> t1 = t"
proof (induction n arbitrary: pid)
  case 0
  then show ?case by simp
next
  case (Suc n)
  then show ?case
    by (auto simp: and_then_eq_Inr from_slot_eq_Inr split: if_splits)
qed

lemma latch_ok_append [simp]: "latch_ok (ps @ [Some p]) b = latch_ok ps b"
  by (induction ps b rule: latch_ok.induct) simp_all

lemma UnlockAncestors_loop_ok:
  "latch_ok ps (root_latch s) \<Longrightarrow>
   UnlockAncestors_loop ps s = Inr (s\<lparr>page_set := [], root_latch := False\<rparr>)"
proof (induction ps arbitrary: s)
  case Nil
  then show ?case by simp
next
  case (Cons p ps)
  show ?case
  proof (cases p)
    case None
    with Cons.prems have l: "root_latch s" and ok: "latch_ok ps False" by simp_all
    have "UnlockAncestors_loop ps (s\<lparr>root_latch := False\<rparr>) =
            Inr (s\<lparr>root_latch := False\<rparr>\<lparr>page_set := [], root_latch := False\<rparr>)"
      by (rule Cons.IH) (simp add: ok)
    with l None show ?thesis by (simp add: unlock_root_def)
  next
    case (Some q)
    with Cons show ?thesis by simp
  qed
qed

lemma FetchPage_same: "same_pages s t \<Longrightarrow> FetchPage pid s = FetchPage pid t"
  by (simp add: same_pages_def FetchPage_def)

lemma same_pages_page_set [simp]: "same_pages (s\<lparr>page_set := ps\<rparr>) t = same_pages s t"
  by (simp add: same_pages_def)

lemma same_pages_root_latch [simp]: "same_pages (s\<lparr>root_latch := b\<rparr>) t = same_pages s t"
  by (simp add: same_pages_def)

lemma same_pages_refl [simp]: "same_pages t t"
  by (simp add: same_pages_def)

lemma UnlockAncestors_ok:
  "latch_ok (page_set s) (root_latch s) \<Longrightarrow>
   UnlockAncestors s = Inr (s\<lparr>page_set := [], root_latch := False\<rparr>)"
  by (simp add: UnlockAncestors_def UnlockAncestors_loop_ok)

lemma FindLeafPage_loop_INSERT:
  assumes "FindLeafPage_loop n key lm READ pid t = Inr (leaf_id, t)"
    and "same_pages s t" and "latch_ok (page_set s) (root_latch s)"
  shows "\<exists>s'. FindLeafPage_loop n key lm INSERT pid s = Inr (leaf_id, s') \<and>
              same_pages s' t \<and> latch_ok (page_set s') (root_latch s')"
  using assms
proof (induction n arbitrary: pid s)
  case 0
  then show ?case by simp
next
  case (Suc n)
  from Suc.prems(1) obtain node where node: "FetchPage pid t = Inr node"
    by (auto simp: and_then_eq_Inr)
  have node_s: "FetchPage pid s = Inr node"
    using node FetchPage_same[OF Suc.prems(2)] by simp
  show ?case
  proof (cases "IsLeafPage node")
    case True
    with Suc.prems node node_s show ?thesis by simp
  next
    case False
    from Suc.prems(1) node False obtain child_id child_page where
      child: "from_slot (if \<not> lm then Internal_Lookup key node else ValueAt 0 node) = Inr child_id"
      and cp: "FetchPage child_id t = Inr child_page"
      and rd: "FindLeafPage_loop n key lm READ child_id t = Inr (leaf_id, t)"
      by (auto simp: and_then_eq_Inr)
    have cp_s: "FetchPage child_id s = Inr child_page"
      using cp FetchPage_same[OF Suc.prems(2)] by simp
    define s1 where "s1 = s\<lparr>page_set := page_set s @ [Some pid]\<rparr>"
    have s1: "same_pages s1 t" "latch_ok (page_set s1) (root_latch s1)"
      using Suc.prems(2,3) by (simp_all add: s1_def)
    show ?thesis
    proof (cases "IsPageSafe child_page INSERT")
      case True
      define s2 where "s2 = s1\<lparr>page_set := [], root_latch := False\<rparr>"
      have u: "UnlockAncestors s1 = Inr s2"
        unfolding s2_def by (rule UnlockAncestors_ok) (rule s1(2))
      have s2: "same_pages s2 t" "latch_ok (page_set s2) (root_latch s2)"
        using s1(1) by (simp_all add: s2_def)
      from Suc.IH[OF rd s2] obtain s' where
        "FindLeafPage_loop n key lm INSERT child_id s2 = Inr (leaf_id, s')"
        "same_pages s' t" "latch_ok (page_set s') (root_latch s')" by blast
      moreover have "FindLeafPage_loop (Suc n) key lm INSERT pid s =
                       FindLeafPage_loop n key lm INSERT child_id s2"
        using node_s False child cp_s True u by (simp add: s1_def Let_def)
      ultimately show ?thesis by simp
    next
      case unsafe: False
      from Suc.IH[OF rd s1] obtain s' where
        "FindLeafPage_loop n key lm INSERT child_id s1 = Inr (leaf_id, s')"
        "same_pages s' t" "latch_ok (page_set s') (root_latch s')" by blast
      moreover have "FindLeafPage_loop (Suc n) key lm INSERT pid s =
                       FindLeafPage_loop n key lm INSERT child_id s1"
        using node_s False child cp_s unsafe by (simp add: s1_def Let_def)
      ultimately show ?thesis by simp
    qed
  qed
qed

lemma same_pages_eq:
  "same_pages s t \<Longrightarrow> page_set t = [] \<Longrightarrow> \<not> root_latch t \<Longrightarrow>
   s\<lparr>page_set := [], root_latch := False\<rparr> = t"
  by (rule BPlusTree.equality) (simp_all add: same_pages_def)

lemma GetValue_found:
  assumes "GetValue n key result t = Inr ((True, vs), t')"
  shows "\<not> root_latch t \<and> \<not> IsEmpty t \<and> t' = t \<and>
         (\<exists>root leaf_id leaf v.
            FetchPage (root_page_id t) t = Inr root \<and>
            FindLeafPage_loop n key False READ (root_page_id t) t = Inr (leaf_id, t) \<and>
            FetchPage leaf_id t = Inr leaf \<and> Leaf_Lookup key leaf = Some v \<and>
            vs = result @ [v])"
proof -
  have l: "\<not> root_latch t"
    using assms by (auto simp: GetValue_def lock_root_def split: if_splits)
  have t: "t\<lparr>root_latch := False\<rparr> = t" "t\<lparr>root_latch := True, root_latch := False\<rparr> = t"
    using l by (simp_all)
  have ne: "\<not> IsEmpty t"
    using assms l by (auto simp: GetValue_def lock_root_def unlock_root_def IsEmpty_def split: if_splits)
  have g: "GetValue n key result t =
             and_then (FindLeafPage n key False READ t) (\<lambda>(leaf_id, t3).
               and_then (FetchPage leaf_id t3) (\<lambda>leaf.
                 case Leaf_Lookup key leaf of
                   Some v \<Rightarrow> Inr ((True, result @ [v]), t3)
                 | None \<Rightarrow> Inr ((False, result), t3)))"
    using l ne by (simp add: GetValue_def lock_root_def unlock_root_def IsEmpty_def t)
  from assms obtain x where x: "FindLeafPage n key False READ t = Inr x"
    unfolding g by (cases "FindLeafPage n key False READ t") simp_all
  obtain leaf_id t3 where x2: "x = (leaf_id, t3)" by (cases x)
  note f = x[unfolded x2]
  from assms obtain leaf where lf: "FetchPage leaf_id t3 = Inr leaf"
    unfolding g f by (cases "FetchPage leaf_id t3") simp_all
  have r: "(case Leaf_Lookup key leaf of Some v \<Rightarrow> Inr ((True, result @ [v]), t3)
             | None \<Rightarrow> Inr ((False, result), t3)) = (Inr ((True, vs), t') :: tree_error + _)"
    using assms unfolding g f by (simp add: lf)
  have "\<exists>root. FetchPage (root_page_id t) t = Inr root \<and>
          FindLeafPage_loop n key False READ (root_page_id t) t = Inr (leaf_id, t3)"
    using f l
    by (auto simp: FindLeafPage_def lock_root_def unlock_root_def FetchPage_def t and_then_eq_Inr)
  then obtain root where root: "FetchPage (root_page_id t) t = Inr root"
    and lp: "FindLeafPage_loop n key False READ (root_page_id t) t = Inr (leaf_id, t3)"
    by blast
  have t3: "t3 = t" using lp by (rule FindLeafPage_loop_READ)
  from r obtain v where "Leaf_Lookup key leaf = Some v" "vs = result @ [v]" "t' = t3"
    by (cases "Leaf_Lookup key leaf") auto
  with l ne root lp lf t3 show ?thesis by auto
qed

lemma root_latch_False: "\<not> root_latch s \<Longrightarrow> s\<lparr>root_latch := False\<rparr> = s"
  by simp

lemma GetValue_leaf_root:
  assumes "root_page_id s \<noteq> INVALID_PAGE_ID" "tree_pages s (root_page_id s) = Some leaf"
    "IsLeafPage leaf" "\<not> root_latch s"
  shows "GetValue (Suc n) key result s =
           Inr ((case Leaf_Lookup key leaf of
                   Some v \<Rightarrow> (True, result @ [v])
                 | None \<Rightarrow> (False, result)), s)"
  using assms
  by (simp add: GetValue_def FindLeafPage_def lock_root_def unlock_root_def IsEmpty_def
      FetchPage_def split: option.splits)

lemma GetValue_empty:
  assumes "IsEmpty s" "\<not> root_latch s"
  shows "GetValue n key result s = Inr ((False, result), s)"
  using assms by (simp add: GetValue_def lock_root_def unlock_root_def IsEmpty_def)

lemma Insert_empty:
  assumes "IsEmpty t" "\<not> root_latch t" "\<not> pool_exhausted t"
  shows "\<exists>t1 leaf. Insert n key val t = Inr (True, t1) \<and>
           root_page_id t1 \<noteq> INVALID_PAGE_ID \<and> tree_pages t1 (root_page_id t1) = Some leaf \<and>
           IsLeafPage leaf \<and> IsRootPage leaf \<and> leaf_array leaf = [(key, val)] \<and>
           \<not> root_latch t1 \<and> page_set t1 = page_set t"
  using assms
  by (simp add: Insert_def lock_root_def unlock_root_def IsEmpty_def StartNewTree_def NewPage_def
      UpdateRootPageId_def put_page_def Leaf_Insert_def Leaf_Init_def Leaf_KeyIndex_def
      IsLeafPage_def IsRootPage_def INVALID_PAGE_ID_def Let_def)

lemma Remove_single:
  assumes "root_page_id s \<noteq> INVALID_PAGE_ID" "tree_pages s (root_page_id s) = Some leaf"
    "IsLeafPage leaf" "IsRootPage leaf" "leaf_array leaf = [(key, val)]"
    "\<not> root_latch s" "page_set s = []"
  shows "\<exists>s'. Remove (Suc n) key s = Inr s' \<and> \<not> root_latch s' \<and>
           (IsEmpty s' \<or>
            (root_page_id s' \<noteq> INVALID_PAGE_ID \<and>
             (\<exists>leaf'. tree_pages s' (root_page_id s') = Some leaf' \<and> IsLeafPage leaf' \<and>
                      leaf_array leaf' = [])))"
proof -
  define s1 where "s1 = s\<lparr>root_latch := True, page_set := [None]\<rparr>"
  have f: "FindLeafPage (Suc n) key False REMOVE (s\<lparr>root_latch := True\<rparr>) = Inr (root_page_id s, s1)"
    using assms
    by (simp add: FindLeafPage_def FetchPage_def IsPageSafe_def GetSize_def s1_def)
  define leaf1 where "leaf1 = Leaf_RemoveAndDeleteRecord key leaf"
  have leaf1: "leaf_array leaf1 = []" "IsLeafPage leaf1" "IsRootPage leaf1" "GetSize leaf1 = 0"
    "max_size leaf1 = max_size leaf"
    using assms by (simp_all add: leaf1_def Leaf_RemoveAndDeleteRecord_def IsLeafPage_def
        IsRootPage_def GetSize_def)
  define s3 where "s3 = put_page (root_page_id s) leaf1 s1"
  have s3: "root_latch s3" "page_set s3 = [None]" "root_page_id s3 = root_page_id s"
    "tree_pages s3 (root_page_id s) = Some leaf1"
    by (simp_all add: s3_def s1_def put_page_def)
  have r: "Remove (Suc n) key s =
             and_then
               (if GetSize leaf1 < GetMinSize leaf1
                then and_then (CoalesceOrRedistribute (Suc n) (root_page_id s) s3) (\<lambda>(deleted, t4).
                       Inr (if deleted
                            then t4\<lparr>deleted_page_set := insert (root_page_id s) (deleted_page_set t4)\<rparr>
                            else t4))
                else Inr s3)
               UnlockAncestors"
    using assms f
    by (simp add: Remove_def lock_root_def IsEmpty_def FetchPage_def s1_def s3_def leaf1_def Let_def)
  show ?thesis
  proof (cases "GetSize leaf1 < GetMinSize leaf1")
    case True
    define s4 where "s4 = UpdateRootPageId (s3\<lparr>root_page_id := INVALID_PAGE_ID\<rparr>)"
    have c: "CoalesceOrRedistribute (Suc n) (root_page_id s) s3 = Inr (True, s4)"
      using s3 leaf1 by (simp add: FetchPage_def AdjustRoot_def s4_def)
    define s5 where "s5 = s4\<lparr>deleted_page_set := insert (root_page_id s) (deleted_page_set s4)\<rparr>"
    have s5: "root_latch s5" "page_set s5 = [None]" "IsEmpty s5"
      using s3 by (simp_all add: s5_def s4_def UpdateRootPageId_def IsEmpty_def)
    have "Remove (Suc n) key s = UnlockAncestors s5"
      using True c by (simp add: r s5_def)
    also have "\<dots> = Inr (s5\<lparr>page_set := [], root_latch := False\<rparr>)"
      by (rule UnlockAncestors_ok) (simp add: s5)
    finally show ?thesis using s5 by (simp add: IsEmpty_def)
  next
    case False
    have "Remove (Suc n) key s = UnlockAncestors s3"
      using False by (simp add: r)
    also have "\<dots> = Inr (s3\<lparr>page_set := [], root_latch := False\<rparr>)"
      by (rule UnlockAncestors_ok) (simp add: s3)
    finally show ?thesis using s3 leaf1 assms(1) by simp
  qed
qed


lemma Insert_pool_exhausted:
  assumes "IsEmpty t" "\<not> root_latch t" "pool_exhausted t"
  shows "Insert n key val t = Inl OUT_OF_MEMORY"
  using assms by (simp add: Insert_def lock_root_def IsEmpty_def StartNewTree_def NewPage_def)

subsection \<open>The example tree\<close>

lemmas tree_defs =
  Insert_def InsertIntoLeaf_def InsertIntoParent.simps StartNewTree_def Split_def MoveHalfTo_def
  FindLeafPage_def UnlockAncestors_def NewPage_def FetchPage_def put_page_def
  UpdateRootPageId_def lock_root_def unlock_root_def IsEmpty_def IsPageSafe_def
  Leaf_Insert_def Leaf_Init_def Leaf_KeyIndex_def Leaf_Lookup_def Internal_Init_def
  Internal_Lookup_def PopulateNewRoot_def KeyAt_def ValueAt_def slot_def
  IsLeafPage_def IsRootPage_def GetSize_def INVALID_PAGE_ID_def zero_page_def

lemma tree_ex_built:
  "insert_all (Suc (Suc 0)) [(5, 50), (3, 30), (8, 80), (1, 10), (4, 40)] (BPlusTree_new 4 4) = Inr tree_ex"
proof -
  have "\<exists>t. insert_all (Suc (Suc 0)) [(5, 50), (3, 30), (8, 80), (1, 10), (4, 40)] (BPlusTree_new 4 4) = Inr t \<and>
    root_page_id t = root_page_id tree_ex \<and> leaf_max_size t = leaf_max_size tree_ex \<and>
    internal_max_size t = internal_max_size tree_ex \<and> root_latch t = root_latch tree_ex \<and>
    (\<forall>p. tree_pages t p = tree_pages tree_ex p) \<and> next_new_page_id t = next_new_page_id tree_ex \<and>
    pool_exhausted t = pool_exhausted tree_ex \<and> header_record t = header_record tree_ex \<and>
    page_set t = page_set tree_ex \<and> deleted_page_set t = deleted_page_set tree_ex"
    by (simp add: tree_defs BPlusTree_new_def tree_ex_def leaf_ex_def root_ex_def Let_def)
  then obtain t where t: "insert_all (Suc (Suc 0)) [(5, 50), (3, 30), (8, 80), (1, 10), (4, 40)] (BPlusTree_new 4 4) = Inr t"
    and eq: "root_page_id t = root_page_id tree_ex" "leaf_max_size t = leaf_max_size tree_ex"
    "internal_max_size t = internal_max_size tree_ex" "root_latch t = root_latch tree_ex"
    "tree_pages t = tree_pages tree_ex" "next_new_page_id t = next_new_page_id tree_ex"
    "pool_exhausted t = pool_exhausted tree_ex" "header_record t = header_record tree_ex"
    "page_set t = page_set tree_ex" "deleted_page_set t = deleted_page_set tree_ex"
    by (auto simp: fun_eq_iff)
  have "t = tree_ex" by (rule BPlusTree.equality) (simp_all add: eq)
  with t show ?thesis by simp
qed


subsection \<open>Round trip on the empty tree\<close>

text \<open>
  Claim C1. For a B+tree that is empty, \<open>Insert(K, V)\<close> followed by \<open>GetValue(K)\<close> succeeds
  and yields exactly \<open>{V}\<close>; then \<open>Remove(K)\<close> followed by \<open>GetValue(K)\<close> returns false and
  yields the empty result set, for every key \<open>K\<close> and value \<open>V\<close>. The tree is at rest (the
  root latch is free and the page set of the transaction is empty) and the buffer pool
  has a page for the new root; each of the four calls returns, with one step of descent
  or more allowed.
\<close>

theorem insert_get_remove_get:
  assumes "IsEmpty t" "\<not> root_latch t" "page_set t = []" "\<not> pool_exhausted t"
  shows "\<exists>t1 t2 t3 t4.
           Insert (Suc n) key val t = Inr (True, t1) \<and>
           GetValue (Suc n) key [] t1 = Inr ((True, [val]), t2) \<and>
           Remove (Suc n) key t2 = Inr t3 \<and>
           GetValue (Suc n) key [] t3 = Inr ((False, []), t4)"
proof -
  from Insert_empty[OF assms(1,2,4), of "Suc n" key val] obtain t1 leaf where
    i: "Insert (Suc n) key val t = Inr (True, t1)"
    and t1: "root_page_id t1 \<noteq> INVALID_PAGE_ID" "tree_pages t1 (root_page_id t1) = Some leaf"
    "IsLeafPage leaf" "IsRootPage leaf" "leaf_array leaf = [(key, val)]"
    "\<not> root_latch t1" "page_set t1 = page_set t"
    by blast
  have g1: "GetValue (Suc n) key [] t1 = Inr ((True, [val]), t1)"
    using GetValue_leaf_root[OF t1(1,2,3,6), of n key "[]"] t1(5)
    by (simp add: Leaf_Lookup_def)
  from Remove_single[OF t1(1-6), of n] t1(7) assms(3) obtain t3 where
    r: "Remove (Suc n) key t1 = Inr t3" and l3: "\<not> root_latch t3"
    and t3: "IsEmpty t3 \<or>
            (root_page_id t3 \<noteq> INVALID_PAGE_ID \<and>
             (\<exists>leaf'. tree_pages t3 (root_page_id t3) = Some leaf' \<and> IsLeafPage leaf' \<and>
                      leaf_array leaf' = []))"
    by auto
  have g2: "GetValue (Suc n) key [] t3 = Inr ((False, []), t3)"
  proof (cases "IsEmpty t3")
    case True
    then show ?thesis using l3 by (rule GetValue_empty)
  next
    case False
    with t3 obtain leaf' where a: "root_page_id t3 \<noteq> INVALID_PAGE_ID"
      "tree_pages t3 (root_page_id t3) = Some leaf'" "IsLeafPage leaf'" "leaf_array leaf' = []"
      by blast
    show ?thesis
      using GetValue_leaf_root[OF a(1,2,3) l3, of n key "[]"] a(4)
      by (simp add: Leaf_Lookup_def)
  qed
  from i g1 r g2 show ?thesis by blast
qed


theorem insert_get_remove_get_witness:
  "IsEmpty (BPlusTree_new 4 4 :: (int, nat) BPlusTree) \<and>
   \<not> root_latch (BPlusTree_new 4 4 :: (int, nat) BPlusTree) \<and>
   page_set (BPlusTree_new 4 4 :: (int, nat) BPlusTree) = [] \<and>
   \<not> pool_exhausted (BPlusTree_new 4 4 :: (int, nat) BPlusTree) \<and>
   (\<exists>t1 t2 t3 t4.
      Insert (Suc 0) 5 50 (BPlusTree_new 4 4 :: (int, nat) BPlusTree) = Inr (True, t1) \<and>
      GetValue (Suc 0) 5 [] t1 = Inr ((True, [50]), t2) \<and>
      Remove (Suc 0) 5 t2 = Inr t3 \<and>
      GetValue (Suc 0) 5 [] t3 = Inr ((False, []), t4))"
proof -
  have h: "IsEmpty (BPlusTree_new 4 4 :: (int, nat) BPlusTree)"
    "\<not> root_latch (BPlusTree_new 4 4 :: (int, nat) BPlusTree)"
    "page_set (BPlusTree_new 4 4 :: (int, nat) BPlusTree) = []"
    "\<not> pool_exhausted (BPlusTree_new 4 4 :: (int, nat) BPlusTree)"
    by (simp_all add: BPlusTree_new_def IsEmpty_def)
  from insert_get_remove_get[OF h, of 0 5 50] h show ?thesis by blast
qed


subsection \<open>Insertion of a key that is present\<close>

text \<open>
  Claim C2. For every non-empty B+tree and every key \<open>K\<close> already present in it, that is
  one that \<open>GetValue\<close> finds, \<open>Insert(K, V)\<close> returns false and leaves the tree as it was:
  all pages, so all key/value pairs, and the root page id, for any value \<open>V\<close>.
\<close>

theorem Insert_duplicate:
  assumes "GetValue n key [] t = Inr ((True, vs), t')" and "page_set t = []"
  shows "Insert n key val t = Inr (False, t)"
proof -
  from GetValue_found[OF assms(1)] obtain root leaf_id leaf v where
    l: "\<not> root_latch t" and ne: "\<not> IsEmpty t"
    and root: "FetchPage (root_page_id t) t = Inr root"
    and lp: "FindLeafPage_loop n key False READ (root_page_id t) t = Inr (leaf_id, t)"
    and lf: "FetchPage leaf_id t = Inr leaf" and v: "Leaf_Lookup key leaf = Some v"
    by blast
  define t1 where "t1 = t\<lparr>root_latch := True\<rparr>"
  have t1: "same_pages t1 t" "root_page_id t1 = root_page_id t" "root_latch t1" "page_set t1 = []"
    using assms(2) by (simp_all add: t1_def)
  have root1: "FetchPage (root_page_id t1) t1 = Inr root"
    using root FetchPage_same[OF t1(1)] t1(2) by simp
  define s0 where "s0 = (if \<not> IsPageSafe root INSERT then t1\<lparr>page_set := page_set t1 @ [None]\<rparr>
                         else t1\<lparr>root_latch := False\<rparr>)"
  have s0: "same_pages s0 t" "latch_ok (page_set s0) (root_latch s0)"
    using t1 by (simp_all add: s0_def)
  have f: "FindLeafPage n key False INSERT t1 = FindLeafPage_loop n key False INSERT (root_page_id t) s0"
    using root1 t1 by (simp add: FindLeafPage_def unlock_root_def s0_def)
  from FindLeafPage_loop_INSERT[OF lp s0] obtain s' where
    s': "FindLeafPage_loop n key False INSERT (root_page_id t) s0 = Inr (leaf_id, s')"
    "same_pages s' t" "latch_ok (page_set s') (root_latch s')" by blast
  have lf': "FetchPage leaf_id s' = Inr leaf"
    using lf FetchPage_same[OF s'(2)] by simp
  have u: "UnlockAncestors s' = Inr t"
    using UnlockAncestors_ok[OF s'(3)] same_pages_eq[OF s'(2) assms(2) l] by simp
  have "Insert n key val t = InsertIntoLeaf n key val t1"
    using l ne by (simp add: Insert_def lock_root_def IsEmpty_def t1_def)
  also have "\<dots> = Inr (False, t)"
    by (simp add: InsertIntoLeaf_def f s'(1) lf' v u)
  finally show ?thesis .
qed


theorem Insert_duplicate_witness:
  "GetValue (Suc (Suc 0)) 3 [] tree_ex = Inr ((True, [30]), tree_ex) \<and> page_set tree_ex = [] \<and>
   Insert (Suc (Suc 0)) 3 99 tree_ex = Inr (False, tree_ex)"
proof -
  have g: "GetValue (Suc (Suc 0)) 3 [] tree_ex = Inr ((True, [30]), tree_ex)"
    by (simp add: GetValue_def tree_defs tree_ex_def leaf_ex_def root_ex_def)
  have p: "page_set tree_ex = []" by (simp add: tree_ex_def)
  from Insert_duplicate[OF g p, of 99] g p show ?thesis by simp
qed


subsection \<open>Incrementing the end iterator\<close>

text \<open>
  Claim C10. \<open>operator++\<close> on an iterator for which \<open>isEnd()\<close> holds returns it
  unchanged, so the end iterator incremented still compares equal to the end iterator.
\<close>

theorem increment_end_iterator:
  assumes "isEnd it"
  shows "increment it t = Inr it \<and> (\<exists>r. increment tree_end t = Inr r \<and> iterator_eq r tree_end)"
  using assms
  by (simp add: increment_def isEnd_def tree_end_def IndexIterator_new_def iterator_eq_def)

theorem increment_end_iterator_witness:
  "isEnd tree_end \<and> increment tree_end tree_ex = Inr tree_end \<and>
   (\<exists>r. increment tree_end tree_ex = Inr r \<and> iterator_eq r tree_end)"
proof -
  have h: "isEnd tree_end" by (simp add: isEnd_def tree_end_def IndexIterator_new_def)
  from increment_end_iterator[OF h, of tree_ex] h show ?thesis by blast
qed
end
